(* ===== verification/Prelude.thy ===== *)
theory Prelude
  imports Main "HOL-Library.Word" "HOL-Library.Monad_Syntax"
begin

text \<open>
  Shared vocabulary of the development: machine integers, the return codes of
  \<open>HES/inc\<close>, C arrays and pointers into them, and the short-circuit conditions of
  C++ over reads that may leave the array.

  A function of the model whose result type is \<open>'a option\<close> returns \<open>None\<close> exactly
  where the source has undefined behaviour (a read outside its array, a use of a
  dangling reference) or leaves by an exception that nothing catches.  All other
  outcomes, error codes included, are values under \<open>Some\<close>.  Log output
  (\<open>print_and_log\<close>) is not modelled.
\<close>

unbundle bit_operations_syntax

named_theorems mem_simps "reads of an array at an offset that is inside it"
named_theorems hes_defs "definitions of the model that a proof unfolds by default"

section \<open>Types\<close>

type_synonym u8 = "8 word"
type_synonym u16 = "16 word"
type_synonym u32 = "32 word"
type_synonym u64 = "64 word"
type_synonym bytes = "u8 list"
type_synonym mac = "u8 list"
type_synonym cstr = "string"

section \<open>Return codes\<close>

text \<open>\<open>HES/inc/utility.h\<close>, \<open>HES/inc/client.h\<close>, \<open>HES/inc/pull.h\<close>,
  \<open>HES/inc/String_functions.h\<close>; all are C \<open>int\<close>s.\<close>

abbreviation (input) SUCCESS :: int where "SUCCESS \<equiv> 0"
abbreviation (input) FAILURE :: int where "FAILURE \<equiv> - 1"
abbreviation (input) ENABLED :: int where "ENABLED \<equiv> 1"
abbreviation (input) SUCCES_NEXT_PAGE :: int where "SUCCES_NEXT_PAGE \<equiv> 0x02"
abbreviation (input) TIMEOUT_RECEIVED :: int where "TIMEOUT_RECEIVED \<equiv> 0x06"
abbreviation (input) COMMAND_IN_PROGRESS :: int where "COMMAND_IN_PROGRESS \<equiv> 0x07"
abbreviation (input) PMESH_COMMAND_IN_PROGRESS :: int where "PMESH_COMMAND_IN_PROGRESS \<equiv> 0x07"
abbreviation (input) FAILED_RESPONSE :: int where "FAILED_RESPONSE \<equiv> 0x09"
abbreviation (input) DLMS_ERROR :: int where "DLMS_ERROR \<equiv> 13"
abbreviation (input) PMESH_ERROR :: int where "PMESH_ERROR \<equiv> 0x0F"
abbreviation (input) DLMS_CONNECTION_FAILED :: int where "DLMS_CONNECTION_FAILED \<equiv> 0x25"
abbreviation (input) DLMS_CHECKSUM_ERROR :: int where "DLMS_CHECKSUM_ERROR \<equiv> 0x29"
abbreviation (input) DLMS_SUCCESS :: int where "DLMS_SUCCESS \<equiv> 0x37"
abbreviation (input) INVALID_RESPONSE :: int where "INVALID_RESPONSE \<equiv> 0x49"
abbreviation (input) INVALID_SRC_ADDR :: int where "INVALID_SRC_ADDR \<equiv> INVALID_RESPONSE"
abbreviation (input) NEXT_PAGE_PRESENT :: int where "NEXT_PAGE_PRESENT \<equiv> 0x52"
abbreviation (input) PUSH_DATA_RECEIVED :: int where "PUSH_DATA_RECEIVED \<equiv> 0x54"
abbreviation (input) POLL_TIMEOUT :: int where "POLL_TIMEOUT \<equiv> 0xFF"

section \<open>Packet constants\<close>

abbreviation (input) HES_START_BYTE :: u8 where "HES_START_BYTE \<equiv> 0x2E"
abbreviation (input) NMS_START_BYTE :: u8 where "NMS_START_BYTE \<equiv> 0x2A"
abbreviation (input) ATCMD_START_BYTE :: u8 where "ATCMD_START_BYTE \<equiv> 0x2B"
abbreviation (input) PUSH_DATA_START_BYTE :: u8 where "PUSH_DATA_START_BYTE \<equiv> 0x2C"
abbreviation (input) PULL_START_BYTE :: u8 where "PULL_START_BYTE \<equiv> 0x2D"
abbreviation (input) MESH_COMMISSION_PACKET :: u8 where "MESH_COMMISSION_PACKET \<equiv> 0x03"
abbreviation (input) MESH_COMMISSION_PACKET_RESPONSE :: u8 where "MESH_COMMISSION_PACKET_RESPONSE \<equiv> 0x04"
abbreviation (input) MESH_DATA_QUERY :: u8 where "MESH_DATA_QUERY \<equiv> 0x07"
abbreviation (input) MESH_DATA_RESPONSE :: u8 where "MESH_DATA_RESPONSE \<equiv> 0x08"
abbreviation (input) MESH_PING_REQUEST :: u8 where "MESH_PING_REQUEST \<equiv> 0x0D"
abbreviation (input) MESH_PING_RESPONSE :: u8 where "MESH_PING_RESPONSE \<equiv> 0x0E"
abbreviation (input) FI_CACHE_DATA :: u8 where "FI_CACHE_DATA \<equiv> 0x0C"
abbreviation (input) FI_INSTANT_DATA :: u8 where "FI_INSTANT_DATA \<equiv> 0x0E"
abbreviation (input) FI_INSTANT_EVENT_OBJECT_READ :: u8 where "FI_INSTANT_EVENT_OBJECT_READ \<equiv> 0x10"
abbreviation (input) FI_INSTANT_POWERFAIL_OBJECT_READ :: u8
  where "FI_INSTANT_POWERFAIL_OBJECT_READ \<equiv> 0x11"
abbreviation (input) COMMAND_NAMEPLATE_PROFILE :: u8 where "COMMAND_NAMEPLATE_PROFILE \<equiv> 0x00"
abbreviation (input) COMMAND_IP_PROFILE :: u8 where "COMMAND_IP_PROFILE \<equiv> 0x01"
abbreviation (input) COMMAND_BILLING_PROFILE :: u8 where "COMMAND_BILLING_PROFILE \<equiv> 0x02"
abbreviation (input) COMMAND_DAILY_LOAD_PROFILE :: u8 where "COMMAND_DAILY_LOAD_PROFILE \<equiv> 0x03"
abbreviation (input) COMMAND_BLOCK_LOAD_PROFILE :: u8 where "COMMAND_BLOCK_LOAD_PROFILE \<equiv> 0x04"

section \<open>Arrays and pointers\<close>

text \<open>A pointer is an array together with a position in it; indices are C \<open>int\<close>s and
  may be negative.  A read outside the array is undefined.\<close>

type_synonym ptr = "bytes \<times> int"

fun rd :: "ptr \<Rightarrow> int \<Rightarrow> u8 option" where
  "rd (m, b) k = (if 0 \<le> b + k \<and> b + k < int (length m) then Some (m ! nat (b + k)) else None)"

declare rd.simps [simp del]

fun byte :: "ptr \<Rightarrow> int \<Rightarrow> u8" where
  "byte (m, b) k = m ! nat (b + k)"

declare byte.simps [simp del]

text \<open>The first \<open>n\<close> elements at the pointer belong to the array.\<close>

fun spans :: "ptr \<Rightarrow> int \<Rightarrow> bool" where
  "spans (m, b) n \<longleftrightarrow> 0 \<le> b \<and> b + n \<le> int (length m)"

fun padd :: "ptr \<Rightarrow> int \<Rightarrow> ptr" where
  "padd (m, b) k = (m, b + k)"

lemma rd_padd [simp]: "rd (padd p k) i = rd p (k + i)"
  by (cases p) (simp add: rd.simps algebra_simps)

lemma spans_mono: "spans p n \<Longrightarrow> k \<le> n \<Longrightarrow> spans p k"
  by (cases p) auto

lemma rd_spans [mem_simps]: "spans p n \<Longrightarrow> 0 \<le> k \<Longrightarrow> k < n \<Longrightarrow> rd p k = Some (byte p k)"
  by (cases p) (auto simp: rd.simps byte.simps)

lemma rd_Some_byte: "rd p k = Some v \<Longrightarrow> byte p k = v"
  by (cases p) (auto simp: rd.simps byte.simps split: if_splits)

lemma rd_list [simp]: "0 \<le> k \<Longrightarrow> k < int (length m) \<Longrightarrow> rd (m, 0) k = Some (m ! nat k)"
  by (simp add: rd.simps)

text \<open>\<open>rd_seq p k n\<close>: the \<open>n\<close> bytes from index \<open>k\<close>, as \<open>memcpy\<close> reads them.\<close>

fun rd_seq :: "ptr \<Rightarrow> int \<Rightarrow> nat \<Rightarrow> bytes option" where
  "rd_seq p k 0 = Some []"
| "rd_seq p k (Suc n) = do { b \<leftarrow> rd p k; bs \<leftarrow> rd_seq p (k + 1) n; Some (b # bs) }"

lemma rd_seq_length: "rd_seq p k n = Some bs \<Longrightarrow> length bs = n"
  by (induction n arbitrary: k bs) (auto split: bind_splits)

lemma rd_seq_nth:
  "rd_seq p k n = Some bs \<Longrightarrow> i < n \<Longrightarrow> rd p (k + int i) = Some (bs ! i)"
proof (induction n arbitrary: k bs i)
  case 0
  then show ?case by simp
next
  case (Suc n)
  then obtain b bs' where "rd p k = Some b" "rd_seq p (k + 1) n = Some bs'" "bs = b # bs'"
    by (auto split: bind_splits)
  with Suc.IH [of "k + 1" bs' "i - 1"] Suc.prems(2) show ?case
    by (cases i) (auto simp: algebra_simps)
qed

lemma rd_seq_spans:
  "spans p m \<Longrightarrow> 0 \<le> k \<Longrightarrow> k + int n \<le> m \<Longrightarrow> \<exists>bs. rd_seq p k n = Some bs"
proof (induction n arbitrary: k)
  case (Suc n)
  from Suc.IH [of "k + 1"] Suc.prems obtain bs where "rd_seq p (k + 1) n = Some bs" by auto
  with Suc.prems show ?case by (simp add: rd_spans [of p m])
qed simp

lemma rd_seq_None: "i < n \<Longrightarrow> rd p (k + int i) = None \<Longrightarrow> rd_seq p k n = None"
  using rd_seq_nth [of p k n _ i] by (cases "rd_seq p k n") auto

lemma rd_seq_at: "rd_seq (pre @ xs @ z, 0) (int (length pre)) (length xs) = Some xs"
proof (induction xs arbitrary: pre)
  case (Cons x xs)
  from Cons [of "pre @ [x]"] show ?case by (simp add: rd.simps add.commute)
qed simp

lemma rd_seq_prefix: "rd_seq (xs @ z, 0) 0 (length xs) = Some xs"
  using rd_seq_at [of "[]" xs z] by simp

section \<open>Conditions over reads\<close>

text \<open>\<open>&&\<close> and \<open>||\<close> evaluate their right operand only when the left one does not
  decide; an undefined operand makes the condition undefined only if it is evaluated.\<close>

fun andB :: "bool option \<Rightarrow> bool option \<Rightarrow> bool option" where
  "andB None b = None"
| "andB (Some False) b = Some False"
| "andB (Some True) b = b"

fun orB :: "bool option \<Rightarrow> bool option \<Rightarrow> bool option" where
  "orB None b = None"
| "orB (Some True) b = Some True"
| "orB (Some False) b = b"

text \<open>A chain of \<open>&&\<close>.\<close>

fun allB :: "bool option list \<Rightarrow> bool option" where
  "allB [] = Some True"
| "allB (c # cs) = andB c (allB cs)"

text \<open>\<open>p[k] == v\<close>.\<close>

definition eqB :: "ptr \<Rightarrow> int \<Rightarrow> u8 \<Rightarrow> bool option" where
  "eqB p k v = map_option (\<lambda>x. x = v) (rd p k)"

fun ifB :: "bool option \<Rightarrow> 'a option \<Rightarrow> 'a option \<Rightarrow> 'a option" where
  "ifB None a b = None"
| "ifB (Some True) a b = a"
| "ifB (Some False) a b = b"

lemma andB_Some [simp]: "andB (Some a) (Some b) = Some (a \<and> b)"
  by (cases a) auto

lemma orB_Some [simp]: "orB (Some a) (Some b) = Some (a \<or> b)"
  by (cases a) auto

lemma andB_True_iff: "andB a b = Some True \<longleftrightarrow> a = Some True \<and> b = Some True"
  by (cases "(a, b)" rule: andB.cases) auto

lemma ifB_Some [simp]: "ifB (Some c) a b = (if c then a else b)"
  by (cases c) auto

lemma ifB_eq_Some_iff:
  "ifB c a b = Some r \<longleftrightarrow> (c = Some True \<and> a = Some r) \<or> (c = Some False \<and> b = Some r)"
  by (cases "(c, a, b)" rule: ifB.cases) auto

lemma eqB_spans [mem_simps]:
  "spans p n \<Longrightarrow> 0 \<le> k \<Longrightarrow> k < n \<Longrightarrow> eqB p k v = Some (byte p k = v)"
  by (simp add: eqB_def rd_spans)

lemma eqB_True_iff: "eqB p k v = Some True \<longleftrightarrow> rd p k = Some v"
  by (auto simp: eqB_def)

lemma eqB_False_iff: "eqB p k v = Some False \<longleftrightarrow> (\<exists>x. rd p k = Some x \<and> x \<noteq> v)"
  by (auto simp: eqB_def)

section \<open>Integers of the wire format\<close>

definition be16 :: "u8 \<Rightarrow> u8 \<Rightarrow> nat" where
  "be16 hi lo = unat hi * 256 + unat lo"

text \<open>\<open>uint16_t sum\<close> over bytes, cast to \<open>uint8_t\<close>.\<close>

definition checksum8 :: "bytes \<Rightarrow> u8" where
  "checksum8 bs = ucast (fold (\<lambda>b s. s + ucast b) bs (0 :: u16))"

lemma be16_less: "be16 hi lo < 65536"
  using unsigned_less [of hi, where ?'a = nat] unsigned_less [of lo, where ?'a = nat]
  by (simp add: be16_def)

lemma be16_of_nat: "n < 65536 \<Longrightarrow> be16 (word_of_nat (n div 256)) (word_of_nat (n mod 256)) = n"
  by (simp add: be16_def unat_of_nat)

lemma uint_u8_of_nat: "n < 256 \<Longrightarrow> uint (word_of_nat n :: u8) = int n"
  by (simp add: unsigned_of_nat take_bit_nat_eq_self)

lemma mod_65536_256: "((s :: int) mod 65536 + b) mod 256 = (s + b) mod 256"
  by (rule mod_add_cong) (simp_all add: mod_mod_cancel)

lemma ucast_add_8_16: "(ucast (s + ucast b :: u16) :: u8) = ucast s + b"
  by transfer (simp add: take_bit_eq_mod mod_mod_cancel mod_65536_256 mod_simps)

lemma ucast_fold_sum16:
  "(ucast (fold (\<lambda>b s. s + ucast b) bs (s :: u16)) :: u8) = ucast s + sum_list bs"
  by (induction bs arbitrary: s) (simp_all add: ucast_add_8_16 add.assoc)

lemma checksum8_sum_list: "checksum8 bs = sum_list bs"
  by (simp add: checksum8_def ucast_fold_sum16)

lemma checksum8_append: "checksum8 (xs @ ys) = checksum8 xs + checksum8 ys"
  by (simp add: checksum8_sum_list)

section \<open>Loops that may stop abnormally\<close>

fun foldM :: "('a \<Rightarrow> 's \<Rightarrow> 's option) \<Rightarrow> 'a list \<Rightarrow> 's \<Rightarrow> 's option" where
  "foldM f [] s = Some s"
| "foldM f (x # xs) s = do { s' \<leftarrow> f x s; foldM f xs s' }"

fun mapM :: "('a \<Rightarrow> 'b option) \<Rightarrow> 'a list \<Rightarrow> 'b list option" where
  "mapM f [] = Some []"
| "mapM f (x # xs) = do { y \<leftarrow> f x; ys \<leftarrow> mapM f xs; Some (y # ys) }"

lemma foldM_append: "foldM f (xs @ ys) s = do { s' \<leftarrow> foldM f xs s; foldM f ys s' }"
  by (induction xs arbitrary: s) (auto split: bind_splits)

lemma mapM_Some: "(\<And>x. x \<in> set xs \<Longrightarrow> f x = Some (g x)) \<Longrightarrow> mapM f xs = Some (map g xs)"
  by (induction xs) auto

lemma mapM_append: "mapM f (xs @ ys) = do { us \<leftarrow> mapM f xs; vs \<leftarrow> mapM f ys; Some (us @ vs) }"
  by (induction xs) (auto split: bind_splits)

lemma mapM_length: "mapM f xs = Some ys \<Longrightarrow> length ys = length xs"
  by (induction xs arbitrary: ys) (auto split: bind_splits)

lemma foldM_inv:
  assumes "foldM f xs s = Some s'" and "P s"
    and "\<And>x s s'. x \<in> set xs \<Longrightarrow> P s \<Longrightarrow> f x s = Some s' \<Longrightarrow> P s'"
  shows "P s'"
  using assms
proof (induction xs arbitrary: s)
  case (Cons x xs)
  from Cons.prems(1) obtain s1 where s1: "f x s = Some s1" "foldM f xs s1 = Some s'"
    by (auto split: bind_splits)
  have "P s1" using Cons.prems(2,3) s1(1) by auto
  with Cons.IH [OF s1(2)] Cons.prems(3) show ?case by auto
qed simp

lemma foldM_ex:
  assumes "P s" and "\<And>x s. x \<in> set xs \<Longrightarrow> P s \<Longrightarrow> \<exists>s'. f x s = Some s' \<and> P s'"
  shows "\<exists>s'. foldM f xs s = Some s' \<and> P s'"
  using assms
proof (induction xs arbitrary: s)
  case (Cons x xs)
  from Cons.prems obtain s1 where s1: "f x s = Some s1" "P s1" by fastforce
  with Cons.IH [of s1] Cons.prems(2) show ?case by auto
qed simp

end
