(* ===== verification/Hex.thy ===== *)
theory Hex
  imports Prelude "HOL-Library.Char_ord"
begin

text \<open>
  Strings and hexadecimal text: \<open>HES/src/utility.cpp\<close>, \<open>HES/src/String_functions.cpp\<close>,
  the path and address helpers of \<open>HES/src/pull.cpp\<close>, \<open>Client::split\<close> and
  \<open>Client::bytes_to_hex_string\<close>, and \<open>MySqlDatabase::Arrange_route_path\<close>, together
  with the parts of the C and C++ library they call (\<open>sscanf\<close> with \<open>%2hhX\<close>,
  \<open>strtoul\<close>, \<open>std::stoi\<close>, \<open>std::getline\<close>).

  A C string is the list of its characters without the terminator; reading the
  terminator gives NUL and reading past it is undefined.  \<open>std::stoi\<close> returns
  \<open>None\<close> where it throws.
\<close>

section \<open>Characters and numbers of the C library\<close>

definition isspace_c :: "char \<Rightarrow> bool" where
  "isspace_c c = (let n = of_char c :: nat in n = 32 \<or> (9 \<le> n \<and> n \<le> 13))"

definition hexval :: "char \<Rightarrow> nat option" where
  "hexval c = (let n = of_char c :: nat in
     if 48 \<le> n \<and> n \<le> 57 then Some (n - 48)
     else if 65 \<le> n \<and> n \<le> 70 then Some (n - 55)
     else if 97 \<le> n \<and> n \<le> 102 then Some (n - 87)
     else None)"

definition isdigit_base :: "nat \<Rightarrow> char \<Rightarrow> bool" where
  "isdigit_base b c = (case hexval c of Some v \<Rightarrow> v < b | None \<Rightarrow> False)"

definition digits_val :: "nat \<Rightarrow> cstr \<Rightarrow> nat" where
  "digits_val b ds = foldl (\<lambda>n c. n * b + the (hexval c)) 0 ds"

text \<open>\<open>strtol\<close> for bases 10 and 16: white space, a sign, \<open>0x\<close> in base 16 when a hex
  digit follows, the longest run of digits; \<open>None\<close> when there is no digit.\<close>

definition strtol_val :: "nat \<Rightarrow> cstr \<Rightarrow> int option" where
  "strtol_val b s =
     (let s1 = dropWhile isspace_c s;
          neg = (case s1 of c # _ \<Rightarrow> c = CHR ''-'' | [] \<Rightarrow> False);
          s2 = (case s1 of c # cs \<Rightarrow> if c = CHR ''-'' \<or> c = CHR ''+'' then cs else s1 | [] \<Rightarrow> []);
          s3 = (case s2 of z # x # d # _ \<Rightarrow>
                  if b = 16 \<and> z = CHR ''0'' \<and> (x = CHR ''x'' \<or> x = CHR ''X'') \<and> isdigit_base 16 d
                  then drop 2 s2 else s2
                | _ \<Rightarrow> s2);
          ds = takeWhile (isdigit_base b) s3
      in if ds = [] then None
         else Some (if neg then - int (digits_val b ds) else int (digits_val b ds)))"

text \<open>\<open>std::stoi\<close> throws \<open>invalid_argument\<close> without a digit and \<open>out_of_range\<close> beyond \<open>int\<close>.\<close>

definition stoi :: "nat \<Rightarrow> cstr \<Rightarrow> int option" where
  "stoi b s = (case strtol_val b s of None \<Rightarrow> None
     | Some v \<Rightarrow> if - (2 ^ 31) \<le> v \<and> v < 2 ^ 31 then Some v else None)"

text \<open>\<open>strtoul\<close> gives 0 without a digit.\<close>

definition strtoul_u8 :: "cstr \<Rightarrow> u8" where
  "strtoul_u8 s = (case strtol_val 16 s of None \<Rightarrow> 0 | Some v \<Rightarrow> word_of_int v)"

text \<open>\<open>sscanf(s, "%2hhX", &d)\<close>: \<open>None\<close> when the conversion fails and \<open>d\<close> keeps its value.
  The white space before the item does not count towards the width of two.\<close>

definition scan_hex2 :: "cstr \<Rightarrow> u8 option" where
  "scan_hex2 s = (case dropWhile isspace_c s of
       [] \<Rightarrow> None
     | c # cs \<Rightarrow>
        (if c = CHR ''+'' \<or> c = CHR ''-'' then
           (case cs of [] \<Rightarrow> None
            | d # _ \<Rightarrow> (case hexval d of None \<Rightarrow> None
                | Some v \<Rightarrow> Some (if c = CHR ''-'' then - word_of_nat v else word_of_nat v)))
         else (case hexval c of None \<Rightarrow> None
            | Some v \<Rightarrow> (case cs of [] \<Rightarrow> Some (word_of_nat v)
                | d # _ \<Rightarrow> (case hexval d of None \<Rightarrow> Some (word_of_nat v)
                    | Some w \<Rightarrow> Some (word_of_nat (v * 16 + w)))))))"

text \<open>Reading character \<open>i\<close> of a C string.\<close>

definition cread :: "cstr \<Rightarrow> nat \<Rightarrow> char option" where
  "cread s i = (if i < length s then Some (s ! i) else if i = length s then Some (CHR 0x00) else None)"

text \<open>\<open>printf("%02X")\<close> of a byte.\<close>

definition hexdig :: "nat \<Rightarrow> char" where
  "hexdig n = ''0123456789ABCDEF'' ! n"

definition hex2 :: "u8 \<Rightarrow> cstr" where
  "hex2 b = [hexdig (unat b div 16), hexdig (unat b mod 16)]"

section \<open>\<open>Utility\<close>\<close>

text \<open>\<open>dest[i]\<close> keeps its value where \<open>sscanf\<close> converts nothing.\<close>

definition convert_asc_hex_string_to_bytes :: "bytes \<Rightarrow> cstr \<Rightarrow> nat \<Rightarrow> bytes option" where
  "convert_asc_hex_string_to_bytes destination source n =
     foldM (\<lambda>i dest. if length source < i * 2 \<or> length dest \<le> i then None
                     else Some (case scan_hex2 (drop (i * 2) source) of
                                  None \<Rightarrow> dest | Some v \<Rightarrow> dest[i := v]))
       [0..<n] destination"

text \<open>Each \<open>sprintf\<close> also writes a terminator, which the next one overwrites.\<close>

definition convert_bytes_to_asc_hex_string :: "cstr \<Rightarrow> bytes \<Rightarrow> nat \<Rightarrow> cstr option" where
  "convert_bytes_to_asc_hex_string destination source n =
     foldM (\<lambda>i dest. if length source \<le> i \<or> length dest < i * 2 + 3 then None
                     else Some (take (i * 2) dest @ hex2 (source ! i) @ [CHR 0x00] @ drop (i * 2 + 3) dest))
       [0..<n] destination"

definition mac_to_string :: "bytes \<Rightarrow> cstr option" where
  "mac_to_string m = (if length m < 8 then None else Some
     (hex2 (m ! 0) @ '':'' @ hex2 (m ! 1) @ '':'' @ hex2 (m ! 2) @ '':'' @ hex2 (m ! 3) @ '':'' @
      hex2 (m ! 4) @ '':'' @ hex2 (m ! 5) @ '':'' @ hex2 (m ! 6) @ '':'' @ hex2 (m ! 7)))"

definition mac_to_string_nocolon :: "bytes \<Rightarrow> cstr option" where
  "mac_to_string_nocolon m = (if length m < 8 then None else Some
     (hex2 (m ! 0) @ hex2 (m ! 1) @ hex2 (m ! 2) @ hex2 (m ! 3) @
      hex2 (m ! 4) @ hex2 (m ! 5) @ hex2 (m ! 6) @ hex2 (m ! 7)))"

text \<open>\<open>aschexstr2hex\<close>: the high nibble.  \<open>l_temp\<close> is uninitialised (\<open>None\<close>) until the first
  low nibble has been read, but the test for a lower-case high nibble looks at it.\<close>

definition asc_high_nibble :: "u8 option \<Rightarrow> u8 \<Rightarrow> u8 option" where
  "asc_high_nibble l_temp c =
     (if 48 \<le> c \<and> c \<le> 57 then Some (c - 0x30)
      else if 65 \<le> c \<and> c \<le> 70 then Some (c - 55)
      else (case l_temp of None \<Rightarrow> None | Some _ \<Rightarrow> Some c))"

definition asc_low_nibble :: "u8 \<Rightarrow> u8" where
  "asc_low_nibble t =
     (if 0x30 \<le> t \<and> t \<le> 0x39 then t - 0x30
      else if 65 \<le> t \<and> t \<le> 70 then t - 55
      else if 97 \<le> t \<and> t \<le> 102 then t - 87
      else t)"

fun aschexstr2hex_loop ::
    "nat \<Rightarrow> bytes \<Rightarrow> nat \<Rightarrow> bytes \<Rightarrow> nat \<Rightarrow> u8 option \<Rightarrow> bytes option" where
  "aschexstr2hex_loop 0 source s destination d l_temp = Some destination"
| "aschexstr2hex_loop (Suc n) source s destination d l_temp =
     (if length source \<le> s + 1 \<or> length destination \<le> d then None else do {
        l_byteval \<leftarrow> asc_high_nibble l_temp (source ! s);
        let t = asc_low_nibble (source ! (s + 1));
        aschexstr2hex_loop n source (s + 2)
          (destination[d := push_bit 4 l_byteval OR t]) (d + 1) (Some t)
      })"

text \<open>\<open>length\<close> is an \<open>unsigned char\<close>: 255 rounded up to even is 0.\<close>

definition aschexstr2hex :: "bytes \<Rightarrow> bytes \<Rightarrow> u8 \<Rightarrow> bytes option" where
  "aschexstr2hex destination source len =
     (let len' = (if unat len mod 2 \<noteq> 0 then len + 1 else len)
      in aschexstr2hex_loop (unat len') source 0 destination 0 None)"

text \<open>The local buffer has 64 bytes.\<close>

definition bin_to_hex_upper :: "bytes \<Rightarrow> nat \<Rightarrow> cstr option" where
  "bin_to_hex_upper m n =
     (if length m < n \<or> 64 \<le> n * 2 then None else Some (concat (map hex2 (take n m))))"

text \<open>\<open>dcu_id\<close> is uninitialised, so bytes 4 to 7 must convert.\<close>

definition extract_ids :: "cstr \<Rightarrow> (bytes \<times> bytes) option" where
  "extract_ids dcu_id_hex =
     (if length dcu_id_hex < 14 then None else do {
        dcu_short_addr \<leftarrow> mapM (\<lambda>i. scan_hex2 (drop (i * 2) dcu_id_hex)) [4, 5, 6, 7];
        Some ([0x00, 0x00, dcu_short_addr ! 2, dcu_short_addr ! 3], dcu_short_addr)
      })"

definition ascii_hex_to_bin :: "bytes \<Rightarrow> cstr \<Rightarrow> int \<Rightarrow> bytes option" where
  "ascii_hex_to_bin out inp len =
     foldM (\<lambda>i out. do {
         a \<leftarrow> cread inp (i * 2);
         b \<leftarrow> cread inp (i * 2 + 1);
         if length out \<le> i then None
         else Some (out[i := strtoul_u8 (takeWhile (\<lambda>c. c \<noteq> CHR 0x00) [a, b])])
       }) [0..<nat (len div 2)] out"

section \<open>Splitting\<close>

text \<open>\<open>explode\<close>: keeps empty tokens, the last one included.\<close>

function explode :: "cstr \<Rightarrow> char \<Rightarrow> cstr list" where
  "explode str delim =
     (if delim \<in> set str
      then takeWhile (\<lambda>c. c \<noteq> delim) str # explode (tl (dropWhile (\<lambda>c. c \<noteq> delim) str)) delim
      else [str])"
  by pat_completeness auto
termination
proof (relation "measure (\<lambda>(str, delim). length str)")
  fix str :: cstr and delim :: char
  assume "delim \<in> set str"
  then have "dropWhile (\<lambda>c. c \<noteq> delim) str \<noteq> []" by (auto simp: dropWhile_eq_Nil_conv)
  moreover have "length (dropWhile (\<lambda>c. c \<noteq> delim) str) \<le> length str"
    by (rule length_dropWhile_le)
  ultimately have "length (dropWhile (\<lambda>c. c \<noteq> delim) str) - 1 < length str"
    by (cases str) auto
  then show "((tl (dropWhile (\<lambda>c. c \<noteq> delim) str), delim), (str, delim))
      \<in> measure (\<lambda>(str, delim). length str)" by simp
qed simp

declare explode.simps [simp del]

text \<open>\<open>Client::split\<close>: \<open>std::getline\<close> yields no token for an empty rest.\<close>

function split :: "cstr \<Rightarrow> char \<Rightarrow> cstr list" where
  "split str delim =
     (if str = [] then []
      else if delim \<in> set str
      then takeWhile (\<lambda>c. c \<noteq> delim) str # split (tl (dropWhile (\<lambda>c. c \<noteq> delim) str)) delim
      else [str])"
  by pat_completeness auto
termination
proof (relation "measure (\<lambda>(str, delim). length str)")
  fix str :: cstr and delim :: char
  assume "str \<noteq> []"
  moreover have "length (dropWhile (\<lambda>c. c \<noteq> delim) str) \<le> length str"
    by (rule length_dropWhile_le)
  ultimately have "length (dropWhile (\<lambda>c. c \<noteq> delim) str) - 1 < length str"
    by (cases str) auto
  then show "((tl (dropWhile (\<lambda>c. c \<noteq> delim) str), delim), (str, delim))
      \<in> measure (\<lambda>(str, delim). length str)" by simp
qed simp

declare split.simps [simp del]

definition bytes_to_hex_string :: "bytes \<Rightarrow> cstr" where
  "bytes_to_hex_string data = concat (map (\<lambda>b. [hexdig (unat (drop_bit 4 b)), hexdig (unat (b AND 0x0F))]) data)"

section \<open>Addresses and paths (\<open>pull.cpp\<close>)\<close>

definition mac_from_hex :: "cstr \<Rightarrow> mac option" where
  "mac_from_hex hex = mapM (\<lambda>i. do {
       a \<leftarrow> cread hex (i * 2);
       b \<leftarrow> cread hex (i * 2 + 1);
       v \<leftarrow> stoi 16 (takeWhile (\<lambda>c. c \<noteq> CHR 0x00) [a, b]);
       Some (word_of_int v)
     }) [0..<8]"

definition mac_to_hex :: "mac \<Rightarrow> cstr" where
  "mac_to_hex m = concat (map hex2 m)"

text \<open>The bytes of the chunk of eight hex digits at \<open>pos\<close>.\<close>

definition extract_chunk :: "cstr \<Rightarrow> nat \<Rightarrow> bytes option" where
  "extract_chunk hex_path pos =
     mapM (\<lambda>i. map_option word_of_int (stoi 16 (take 2 (drop (pos + i) hex_path)))) [0, 2, 4, 6]"

fun extract_path_loop :: "nat \<Rightarrow> cstr \<Rightarrow> nat \<Rightarrow> bool \<Rightarrow> bytes \<Rightarrow> bytes option" where
  "extract_path_loop 0 hex_path pos take_it out = Some out"
| "extract_path_loop (Suc n) hex_path pos take_it out =
     (if take_it then do {
        c \<leftarrow> extract_chunk hex_path pos;
        extract_path_loop n hex_path (pos + 8) False (out @ c)
      }
      else extract_path_loop n hex_path (pos + 8) True out)"

text \<open>Returns the flag and \<open>out\<close>; a negative \<open>hop_count\<close> converts to a huge \<open>size_t\<close>, which no
  length equals.  The loop visits \<open>hop_count * 16 / 8\<close> positions.\<close>

definition extract_path :: "cstr \<Rightarrow> int \<Rightarrow> (bool \<times> bytes) option" where
  "extract_path hex_path hop_count =
     (if int (length hex_path) \<noteq> hop_count * 16 then Some (False, [])
      else map_option (Pair True) (extract_path_loop (nat hop_count * 2) hex_path 0 False []))"

text \<open>\<open>MySqlDatabase::Arrange_route_path\<close>: \<open>dest\<close> is the destination array, \<open>source\<close> the hex path.\<close>

definition Arrange_route_path :: "bytes \<Rightarrow> bytes \<Rightarrow> int \<Rightarrow> bytes option" where
  "Arrange_route_path source dest hop_count =
     (if length dest < nat hop_count * 4 then None
      else foldM (\<lambda>i dest. do {
             source_data \<leftarrow> rd_seq (source, 0) (8 + 16 * int i) 8;
             dest_data \<leftarrow> aschexstr2hex (replicate 8 0) (source_data @ [0, 0]) 4;
             Some (take (i * 4) dest @ take 4 dest_data @ drop (i * 4 + 4) dest)
           }) [0..<nat hop_count] (replicate (nat hop_count * 4) 0 @ drop (nat hop_count * 4) dest))"

section \<open>Hexadecimal digits\<close>

lemma hexdig_facts:
  assumes "n < 16"
  shows "hexval (hexdig n) = Some n" "\<not> isspace_c (hexdig n)"
    "hexdig n \<noteq> CHR ''+''" "hexdig n \<noteq> CHR ''-''" "hexdig n \<noteq> CHR 0x00"
proof -
  have "\<forall>n \<in> set [0..<16]. hexval (hexdig n) = Some n \<and> \<not> isspace_c (hexdig n) \<and>
      hexdig n \<noteq> CHR ''+'' \<and> hexdig n \<noteq> CHR ''-'' \<and> hexdig n \<noteq> CHR 0x00"
    by code_simp
  with assms show "hexval (hexdig n) = Some n" "\<not> isspace_c (hexdig n)"
    "hexdig n \<noteq> CHR ''+''" "hexdig n \<noteq> CHR ''-''" "hexdig n \<noteq> CHR 0x00" by auto
qed

lemma nibbles_less: "unat (b :: u8) div 16 < 16" "unat (b :: u8) mod 16 < 16"
  using unsigned_less [of b, where ?'a = nat] by simp_all

lemmas hex_digit_simps [simp] =
  hexdig_facts [OF nibbles_less(1)] hexdig_facts [OF nibbles_less(2)]

lemma word_of_nat_nibbles [simp]: "word_of_nat (unat (b :: u8) div 16 * 16 + unat b mod 16) = b"
  by (simp only: div_mult_mod_eq) simp

lemma hex2_length [simp]: "length (hex2 b) = 2"
  by (simp add: hex2_def)

lemma length_concat_hex2 [simp]: "length (concat (map hex2 bs)) = 2 * length bs"
  by (induction bs) simp_all

lemma scan_hex2_hex2 [simp]: "scan_hex2 (hex2 b @ s) = Some b"
  by (simp add: hex2_def scan_hex2_def)

lemma isdigit_hex [simp]: "isdigit_base 16 (hexdig (unat (b :: u8) div 16))"
    "isdigit_base 16 (hexdig (unat (b :: u8) mod 16))"
  using nibbles_less [of b] by (simp_all add: isdigit_base_def)

lemma strtol_hex2 [simp]: "strtol_val 16 (hex2 b) = Some (uint b)"
proof -
  have "int (unat b div 16 * 16 + unat b mod 16) = uint b"
    by (metis div_mult_mod_eq uint_nat)
  then show ?thesis
    by (simp add: hex2_def strtol_val_def digits_val_def Let_def)
qed

lemma stoi_hex2 [simp]: "stoi 16 (hex2 b) = Some (uint b)"
proof -
  have "uint b < 256" using unsigned_less [of b, where ?'a = int] by simp
  moreover have "0 \<le> uint b" by simp
  ultimately have "- 2147483648 \<le> uint b" "uint b < 2147483648" by linarith+
  then show ?thesis by (simp add: stoi_def)
qed

lemma strtoul_hex2 [simp]: "strtoul_u8 (hex2 b) = b"
  by (simp add: strtoul_u8_def)

lemma takeWhile_hex2 [simp]: "takeWhile (\<lambda>c. c \<noteq> CHR 0x00) (hex2 b) = hex2 b"
  by (simp add: hex2_def)

lemma drop_concat_hex2: "i \<le> length bs \<Longrightarrow>
    drop (i * 2) (concat (map hex2 bs) @ s) = concat (map hex2 (drop i bs)) @ s"
proof (induction i arbitrary: bs)
  case (Suc i)
  then obtain b bs' where "bs = b # bs'" by (cases bs) auto
  with Suc show ?case by (simp add: hex2_def)
qed simp

lemma concat_hex2_at:
  assumes "i < length bs"
  shows "drop (i * 2) (concat (map hex2 bs) @ s) = hex2 (bs ! i) @ concat (map hex2 (drop (Suc i) bs)) @ s"
  using drop_concat_hex2 [of i bs s] assms Cons_nth_drop_Suc [of i bs, symmetric] by simp

lemma concat_hex2_pair:
  assumes "i < length bs"
  shows "[(concat (map hex2 bs) @ s) ! (i * 2), (concat (map hex2 bs) @ s) ! (i * 2 + 1)] = hex2 (bs ! i)"
proof -
  let ?t = "concat (map hex2 bs) @ s"
  have d: "drop (i * 2) ?t = hex2 (bs ! i) @ concat (map hex2 (drop (Suc i) bs)) @ s"
    using assms by (rule concat_hex2_at)
  have l: "i * 2 + 1 < length ?t" using assms by simp
  have "?t ! (i * 2) = drop (i * 2) ?t ! 0" "?t ! (i * 2 + 1) = drop (i * 2) ?t ! 1"
    using l by (simp_all only: nth_drop less_imp_le add_0_right)
  then show ?thesis unfolding d by (simp add: hex2_def)
qed

section \<open>Hexadecimal text and bytes\<close>

lemma convert_bytes_steps:
  assumes "k \<le> length m" and "2 * k + 1 \<le> length dest" and "0 < k"
  shows "convert_bytes_to_asc_hex_string dest m k
    = Some (concat (map hex2 (take k m)) @ [CHR 0x00] @ drop (2 * k + 1) dest)"
  using assms
proof (induction k)
  case (Suc k)
  show ?case
  proof (cases "k = 0")
    case True
    with Suc.prems show ?thesis
      by (cases m) (simp_all add: convert_bytes_to_asc_hex_string_def)
  next
    case False
    with Suc have IH: "convert_bytes_to_asc_hex_string dest m k
        = Some (concat (map hex2 (take k m)) @ [CHR 0x00] @ drop (2 * k + 1) dest)" by simp
    with Suc.prems show ?thesis
      by (simp add: convert_bytes_to_asc_hex_string_def foldM_append take_Suc_conv_app_nth
          min_def mult.commute add.commute)
  qed
qed simp

lemma scan_hex2_at: "i < length bs \<Longrightarrow> scan_hex2 (drop (i * 2) (concat (map hex2 bs) @ s)) = Some (bs ! i)"
  by (simp only: concat_hex2_at scan_hex2_hex2)

lemma convert_asc_steps:
  assumes "k \<le> length m" and "k \<le> length dest"
  shows "convert_asc_hex_string_to_bytes dest (concat (map hex2 m) @ s) k
    = Some (take k m @ drop k dest)"
  using assms
proof (induction k)
  case (Suc k)
  then have "convert_asc_hex_string_to_bytes dest (concat (map hex2 m) @ s) (Suc k)
      = Some ((take k m @ drop k dest)[k := m ! k])"
    by (simp add: convert_asc_hex_string_to_bytes_def foldM_append scan_hex2_at del: drop_append)
  also have "(take k m @ drop k dest)[k := m ! k] = take (Suc k) m @ drop (Suc k) dest"
    using Suc.prems by (simp add: list_update_append take_Suc_conv_app_nth Cons_nth_drop_Suc [symmetric])
  finally show ?case .
qed (simp add: convert_asc_hex_string_to_bytes_def)

text \<open>Text written by \<open>convert_bytes_to_asc_hex_string\<close> into a buffer with room for
  the terminator is read back by \<open>convert_asc_hex_string_to_bytes\<close> as the same bytes, whatever
  follows in the buffer.\<close>

theorem hex_codec_roundtrip:
  assumes "length m \<noteq> 0" and "2 * length m + 1 \<le> length buf" and "length dest = length m"
  shows "do { t \<leftarrow> convert_bytes_to_asc_hex_string buf m (length m);
              convert_asc_hex_string_to_bytes dest t (length m) } = Some m"
  using assms by (simp add: convert_bytes_steps convert_asc_steps)

theorem hex_codec_roundtrip_witness:
  "do { t \<leftarrow> convert_bytes_to_asc_hex_string (replicate 9 (CHR ''z'')) [0x0F, 0xA0, 7] 3;
        convert_asc_hex_string_to_bytes [0, 0, 0] t 3 } = Some [0x0F, 0xA0, 7]"
  using hex_codec_roundtrip [of "[0x0F, 0xA0, 7]" "replicate 9 (CHR ''z'')" "[0, 0, 0]"]
  by (simp add: numeral_3_eq_3)

lemma mac_from_hex_to_hex:
  assumes "length m = 8"
  shows "mac_from_hex (mac_to_hex m @ s) = Some m"
proof -
  have "mac_from_hex (concat (map hex2 m) @ s) = Some (map (\<lambda>i. m ! i) [0..<8])"
    unfolding mac_from_hex_def
  proof (rule mapM_Some)
    fix i assume "i \<in> set [0..<8]"
    then have i: "i < length m" using assms by simp
    then have "cread (concat (map hex2 m) @ s) (i * 2) = Some ((concat (map hex2 m) @ s) ! (i * 2))"
      "cread (concat (map hex2 m) @ s) (i * 2 + 1) = Some ((concat (map hex2 m) @ s) ! (i * 2 + 1))"
      by (simp_all add: cread_def)
    with concat_hex2_pair [OF i, of s] show "do {
        a \<leftarrow> cread (concat (map hex2 m) @ s) (i * 2);
        b \<leftarrow> cread (concat (map hex2 m) @ s) (i * 2 + 1);
        v \<leftarrow> stoi 16 (takeWhile (\<lambda>c. c \<noteq> CHR 0x00) [a, b]);
        Some (word_of_int v) } = Some (m ! i)"
      by (simp del: takeWhile.simps)
  qed
  also have "map (\<lambda>i. m ! i) [0..<8] = m" using map_nth [of m] assms by simp
  finally show ?thesis by (simp add: mac_to_hex_def)
qed

section \<open>Paths\<close>

text \<open>What a path of hops is: the last four bytes of each hop's address, in order.\<close>

definition path_bytes :: "mac list \<Rightarrow> bytes" where
  "path_bytes hops = concat (map (drop 4) hops)"

definition path_hex :: "mac list \<Rightarrow> cstr" where
  "path_hex hops = concat (map mac_to_hex hops)"

lemma path_bytes_simps [simp]: "path_bytes [] = []" "path_bytes (h # hs) = drop 4 h @ path_bytes hs"
  by (simp_all add: path_bytes_def)

lemma path_hex_simps [simp]: "path_hex [] = []" "path_hex (h # hs) = mac_to_hex h @ path_hex hs"
  by (simp_all add: path_hex_def)

lemma mac_to_hex_length [simp]: "length (mac_to_hex m) = 2 * length m"
  by (simp add: mac_to_hex_def)

lemma extract_chunk_hex2:
  "length pre = pos \<Longrightarrow> extract_chunk (pre @ concat (map hex2 [a, b, c, d]) @ s) pos = Some [a, b, c, d]"
  by (simp add: extract_chunk_def)

lemma hop_split:
  assumes "length (h :: mac) = 8"
  obtains a b c d e f g i where "h = [a, b, c, d, e, f, g, i]"
  using assms by (auto simp: numeral_eq_Suc length_Suc_conv)

lemma extract_path_loop_hops:
  assumes "\<forall>h \<in> set hops. length h = 8" and "length pre = pos"
  shows "extract_path_loop (length hops * 2) (pre @ path_hex hops) pos False out
    = Some (out @ path_bytes hops)"
  using assms
proof (induction hops arbitrary: pre pos out)
  case (Cons h hops)
  then have "length h = 8" by simp
  then obtain a b c d e f g i where h: "h = [a, b, c, d, e, f, g, i]" by (rule hop_split)
  have "extract_chunk ((pre @ concat (map hex2 [a, b, c, d])) @ concat (map hex2 [e, f, g, i]) @ path_hex hops) (pos + 8)
      = Some [e, f, g, i]"
    using Cons.prems by (intro extract_chunk_hex2) simp
  moreover have "extract_path_loop (length hops * 2) ((pre @ mac_to_hex h) @ path_hex hops) (pos + 16) False (out @ [e, f, g, i])
      = Some ((out @ [e, f, g, i]) @ path_bytes hops)"
    using Cons.prems h by (intro Cons.IH) simp_all
  ultimately show ?case using h by (simp add: mac_to_hex_def add.commute)
qed simp

lemma path_hex_length: "\<forall>h \<in> set hops. length h = 8 \<Longrightarrow> length (path_hex hops) = 16 * length hops"
  by (induction hops) simp_all

text \<open>\<open>extract_path\<close> inverts the printing of a route: from the concatenated hex
  addresses of the hops it accepts the length and returns the last four bytes of every hop, in order.\<close>

theorem extract_path_of_hops:
  assumes "\<forall>h \<in> set hops. length h = 8"
  shows "extract_path (path_hex hops) (int (length hops)) = Some (True, path_bytes hops)"
  using extract_path_loop_hops [OF assms, of "[]" 0 "[]"] path_hex_length [OF assms]
  by (simp add: extract_path_def)

theorem extract_path_of_hops_witness:
  "extract_path (path_hex [[1, 2, 3, 4, 5, 6, 7, 8], [9, 10, 11, 12, 13, 14, 15, 255]]) 2
    = Some (True, [5, 6, 7, 8, 13, 14, 15, 255])"
  using extract_path_of_hops [of "[[1, 2, 3, 4, 5, 6, 7, 8], [9, 10, 11, 12, 13, 14, 15, 255]]"] by simp

lemma extract_path_reject: "int (length s) \<noteq> hop_count * 16 \<Longrightarrow> extract_path s hop_count = Some (False, [])"
  by (simp add: extract_path_def)

lemma nibbles_or:
  "push_bit 4 (word_of_nat (unat b div 16)) OR word_of_nat (unat b mod 16) = (b :: u8)"
proof -
  have "\<forall>i \<in> set [0..<256]. push_bit 4 (word_of_nat (i div 16)) OR word_of_nat (i mod 16) = (word_of_nat i :: u8)"
    by code_simp
  moreover have "unat b \<in> set [0..<256]" using unsigned_less [of b, where ?'a = nat] by simp
  ultimately have "push_bit 4 (word_of_nat (unat b div 16)) OR word_of_nat (unat b mod 16)
      = (word_of_nat (unat b) :: u8)" by blast
  then show ?thesis by simp
qed

lemma asc_nibble:
  assumes "n < 16"
  shows "asc_high_nibble l (of_char (hexdig n)) = Some (word_of_nat n)"
    and "asc_low_nibble (of_char (hexdig n)) = word_of_nat n"
proof -
  have "\<forall>n \<in> set [0..<16]. let c = (of_char (hexdig n) :: u8) in
      (48 \<le> c \<and> c \<le> 57 \<and> c - 48 = word_of_nat n) \<or> (\<not> c \<le> 57 \<and> 65 \<le> c \<and> c \<le> 70 \<and> c - 55 = word_of_nat n)"
    by code_simp
  with assms have "let c = (of_char (hexdig n) :: u8) in
      (48 \<le> c \<and> c \<le> 57 \<and> c - 48 = word_of_nat n) \<or> (\<not> c \<le> 57 \<and> 65 \<le> c \<and> c \<le> 70 \<and> c - 55 = word_of_nat n)"
    by simp
  then show "asc_high_nibble l (of_char (hexdig n)) = Some (word_of_nat n)"
    and "asc_low_nibble (of_char (hexdig n)) = word_of_nat n"
    by (auto simp: asc_high_nibble_def asc_low_nibble_def Let_def)
qed

lemma aschexstr2hex_loop_hex:
  assumes "length bs + d \<le> length dest"
  shows "aschexstr2hex_loop (length bs) (pre @ map of_char (concat (map hex2 bs)) @ rest) (length pre) dest d l
    = Some (take d dest @ bs @ drop (d + length bs) dest)"
  using assms
proof (induction bs arbitrary: pre d dest l)
  case (Cons b bs)
  let ?hi = "of_char (hexdig (unat b div 16)) :: u8" and ?lo = "of_char (hexdig (unat b mod 16)) :: u8"
  let ?src = "pre @ map of_char (concat (map hex2 (b # bs))) @ rest"
  have src: "?src = (pre @ [?hi, ?lo]) @ map of_char (concat (map hex2 bs)) @ rest"
    by (simp add: hex2_def)
  have at: "?src ! length pre = ?hi" "?src ! (length pre + 1) = ?lo"
    by (simp_all add: src nth_append hex2_def)
  have "aschexstr2hex_loop (length (b # bs)) ?src (length pre) dest d l
      = aschexstr2hex_loop (length bs) ?src (length pre + 2) (dest[d := b]) (d + 1)
          (Some (word_of_nat (unat b mod 16)))"
    using Cons.prems unfolding length_Cons aschexstr2hex_loop.simps at
    by (simp add: asc_nibble nibbles_less nibbles_or)
  also have "\<dots> = Some (take (d + 1) (dest[d := b]) @ bs @ drop (d + 1 + length bs) (dest[d := b]))"
    using Cons.IH [of "d + 1" "dest[d := b]" "pre @ map of_char (hex2 b)"] Cons.prems by simp
  also have "take (d + 1) (dest[d := b]) = take d dest @ [b]"
    using Cons.prems by (simp add: take_Suc_conv_app_nth)
  finally show ?case using Cons.prems by simp
qed simp

lemma aschexstr2hex_four:
  assumes "length bs = 4"
  shows "aschexstr2hex (replicate 8 0) (map of_char (concat (map hex2 bs)) @ rest) 4
    = Some (bs @ replicate 4 0)"
  using aschexstr2hex_loop_hex [of bs 0 "replicate 8 0" "[]" rest None] assms
  by (simp add: aschexstr2hex_def)

lemma rd_seq_slice:
  "length pre = nat k \<Longrightarrow> 0 \<le> k \<Longrightarrow> rd_seq (pre @ xs @ post, 0) k (length xs) = Some xs"
proof (induction xs arbitrary: pre k)
  case (Cons x xs)
  have "rd_seq (pre @ (x # xs) @ post, 0) (k + 1) (length xs) = Some xs"
    using Cons.IH [of "pre @ [x]" "k + 1"] Cons.prems by (simp add: nat_add_distrib)
  moreover have "rd (pre @ (x # xs) @ post, 0) k = Some x"
    using Cons.prems by (simp add: nth_append)
  ultimately show ?case by simp
qed simp

lemma path_hex_hop:
  assumes "\<forall>h \<in> set hops. length h = 8" and "i < length hops"
  obtains pre post where "path_hex hops = pre @ concat (map hex2 (drop 4 (hops ! i))) @ post"
    and "length pre = 8 + 16 * i"
proof -
  let ?h = "hops ! i"
  have "path_hex hops = path_hex (take i hops) @ mac_to_hex ?h @ path_hex (drop (Suc i) hops)"
    using id_take_nth_drop [OF assms(2)] by (metis append.assoc concat.simps(2) concat_append list.simps(9) map_append path_hex_def)
  moreover have "mac_to_hex ?h = concat (map hex2 (take 4 ?h)) @ concat (map hex2 (drop 4 ?h))"
    unfolding mac_to_hex_def by (metis append_take_drop_id concat_append map_append)
  moreover have "length (path_hex (take i hops)) = 16 * i"
    using assms path_hex_length [of "take i hops"] by (auto dest: in_set_takeD)
  ultimately show ?thesis using that [of "path_hex (take i hops) @ concat (map hex2 (take 4 ?h))"] assms by auto
qed

lemma Arrange_route_path_step:
  assumes "\<forall>h \<in> set hops. length h = 8" and "i < length hops"
    and "source = map of_char (path_hex hops) @ pad"
  shows "do { source_data \<leftarrow> rd_seq (source, 0) (8 + 16 * int i) 8;
              aschexstr2hex (replicate 8 0) (source_data @ [0, 0]) 4 }
    = Some (drop 4 (hops ! i) @ replicate 4 0)"
proof -
  obtain pre post where p: "path_hex hops = pre @ concat (map hex2 (drop 4 (hops ! i))) @ post"
    "length pre = 8 + 16 * i" by (rule path_hex_hop [OF assms(1,2)])
  have l: "length (drop 4 (hops ! i)) = 4" using assms(1,2) by simp
  have "rd_seq (source, 0) (8 + 16 * int i) 8 = Some (map of_char (concat (map hex2 (drop 4 (hops ! i)))))"
    using rd_seq_slice [of "map of_char pre" "8 + 16 * int i"
        "map of_char (concat (map hex2 (drop 4 (hops ! i))))" "map of_char post @ pad"] p l assms(3)
    by (simp add: nat_add_distrib nat_mult_distrib)
  with aschexstr2hex_four [OF l, of "[0, 0]"] show ?thesis by simp
qed

text \<open>The two decoders of a stored route agree.  \<open>Arrange_route_path\<close>, which copies
  through \<open>aschexstr2hex\<close>, writes at the start of its destination exactly the bytes that
  \<open>extract_path\<close> returns for the same hops, and leaves the rest of the destination alone.\<close>

theorem Arrange_route_path_agrees:
  assumes "\<forall>h \<in> set hops. length h = 8" and "4 * length hops \<le> length dest"
    and "source = map of_char (path_hex hops) @ pad"
  shows "Arrange_route_path source dest (int (length hops)) =
    map_option (\<lambda>(ok, out). out @ drop (4 * length hops) dest) (extract_path (path_hex hops) (int (length hops)))"
proof -
  let ?f = "\<lambda>i dest. do {
      source_data \<leftarrow> rd_seq (source, 0) (8 + 16 * int i) 8;
      dest_data \<leftarrow> aschexstr2hex (replicate 8 0) (source_data @ [0, 0]) 4;
      Some (take (i * 4) dest @ take 4 dest_data @ drop (i * 4 + 4) dest) }"
  let ?d = "replicate (length hops * 4) 0 @ drop (length hops * 4) dest"
  have "k \<le> length hops \<Longrightarrow>
      foldM ?f [0..<k] ?d = Some (path_bytes (take k hops) @ drop (k * 4) ?d)" for k
  proof (induction k)
    case (Suc k)
    then have k: "k < length hops" by simp
    have len: "length (path_bytes (take k hops)) = k * 4"
      using assms(1) Suc.prems
      by (induction k) (auto simp: path_bytes_def take_Suc_conv_app_nth)
    from Arrange_route_path_step [OF assms(1) k assms(3)]
    obtain sd where "rd_seq (source, 0) (8 + 16 * int k) 8 = Some sd"
      "aschexstr2hex (replicate 8 0) (sd @ [0, 0]) 4 = Some (drop 4 (hops ! k) @ replicate 4 0)"
      by (auto split: bind_splits)
    moreover have "length (drop 4 (hops ! k)) = 4" using assms(1) k by simp
    ultimately show ?case using Suc k len
      by (simp add: foldM_append take_Suc_conv_app_nth path_bytes_def add.commute)
  qed simp
  from this [of "length hops"] assms(2) extract_path_loop_hops [OF assms(1), of "[]" 0 "[]"]
    path_hex_length [OF assms(1)]
  show ?thesis by (simp add: Arrange_route_path_def extract_path_def mult.commute)
qed

theorem Arrange_route_path_agrees_witness:
  "Arrange_route_path (map of_char (path_hex [[1, 2, 3, 4, 5, 6, 7, 8], [9, 10, 11, 12, 13, 14, 15, 255]]) @ [0])
     [0, 0, 0, 0, 0, 0, 0, 0, 77] 2 = Some [5, 6, 7, 8, 13, 14, 15, 255, 77]"
  using Arrange_route_path_agrees [of "[[1, 2, 3, 4, 5, 6, 7, 8], [9, 10, 11, 12, 13, 14, 15, 255]]"
      "[0, 0, 0, 0, 0, 0, 0, 0, 77]" _ "[0]"]
    extract_path_loop_hops [of "[[1, 2, 3, 4, 5, 6, 7, 8], [9, 10, 11, 12, 13, 14, 15, 255]]" "[]" 0 "[]"]
    path_hex_length [of "[[1, 2, 3, 4, 5, 6, 7, 8], [9, 10, 11, 12, 13, 14, 15, 255]]"]
  by (simp add: extract_path_def del: path_hex_simps)

section \<open>Tokens\<close>

fun joined :: "char \<Rightarrow> cstr list \<Rightarrow> cstr" where
  "joined d [] = []"
| "joined d [t] = t"
| "joined d (t # u # ts) = t @ d # joined d (u # ts)"

lemma explode_not_Nil [simp]: "explode str d \<noteq> []"
  by (subst explode.simps) simp

lemma dropWhile_delim:
  "d \<in> set str \<Longrightarrow> d # tl (dropWhile (\<lambda>c. c \<noteq> d) str) = dropWhile (\<lambda>c. c \<noteq> d) str"
  by (induction str) auto

lemma joined_Cons: "ts \<noteq> [] \<Longrightarrow> joined d (t # ts) = t @ d # joined d ts"
  by (cases ts) simp_all

text \<open>\<open>explode\<close> loses nothing: no token contains the delimiter, and joining the tokens
  with it gives the string back.  So a message of the MQTT topic determines its fields.\<close>

theorem explode_joined:
  "joined d (explode str d) = str \<and> list_all (\<lambda>t. d \<notin> set t) (explode str d)"
proof (induction str d rule: explode.induct)
  case (1 str d)
  show ?case
  proof (cases "d \<in> set str")
    case True
    let ?t = "takeWhile (\<lambda>c. c \<noteq> d) str" and ?r = "tl (dropWhile (\<lambda>c. c \<noteq> d) str)"
    have e: "explode str d = ?t # explode ?r d" using True by (subst explode.simps) simp
    have "?t @ d # ?r = str" using dropWhile_delim [OF True] by simp
    then show ?thesis using 1 [OF True] unfolding e
      by (auto simp: joined_Cons dest: set_takeWhileD)
  next
    case False
    then show ?thesis by (subst explode.simps, subst (2) explode.simps) simp
  qed
qed

lemma explode_split:
  "split str d = (if last (explode str d) = [] then butlast (explode str d) else explode str d)"
proof (induction str d rule: explode.induct)
  case (1 str d)
  show ?case
  proof (cases "d \<in> set str")
    case True
    let ?t = "takeWhile (\<lambda>c. c \<noteq> d) str" and ?r = "tl (dropWhile (\<lambda>c. c \<noteq> d) str)"
    have e: "explode str d = ?t # explode ?r d" using True by (subst explode.simps) simp
    have s: "split str d = ?t # split ?r d" using True by (subst split.simps) auto
    show ?thesis using 1 [OF True] unfolding e s by simp
  next
    case False
    then have e: "explode str d = [str]" by (subst explode.simps) simp
    have "split str d = (if str = [] then [] else [str])" using False by (subst split.simps) simp
    then show ?thesis unfolding e by simp
  qed
qed

end
