(* ===== verification/Dlms.thy ===== *)
theory Dlms
  imports Prelude
begin

text \<open>
  DLMS values and records: the types of \<open>HES/inc/helper.h\<close>, \<open>DLMSParser::parseByType\<close> of
  \<open>HES/inc/push.h\<close>, the two record loops \<open>PushData::parseDLMSRecords\<close> and
  \<open>parseBlockLoadDLMSRecords\<close> of \<open>HES/src/push.cpp\<close>, the packet buffers they fill, and the
  readers of \<open>DlmsValueExtractor\<close>.  The lemmas show that the loops stay inside the packet
  whatever it contains, that they store only values whose payload has the type they carry,
  and that they read back every sequence of well-formed records.
\<close>

section \<open>Values\<close>

text \<open>\<open>enum DLMSDataType\<close>; any byte can be cast to it, so a type is a byte.\<close>

abbreviation (input) DLMS_DATA_TYPE_NONE :: u8 where "DLMS_DATA_TYPE_NONE \<equiv> 0x00"
abbreviation (input) DLMS_DATA_TYPE_ARRAY :: u8 where "DLMS_DATA_TYPE_ARRAY \<equiv> 0x01"
abbreviation (input) DLMS_DATA_TYPE_STRUCTURE :: u8 where "DLMS_DATA_TYPE_STRUCTURE \<equiv> 0x02"
abbreviation (input) DLMS_DATA_TYPE_BOOLEAN :: u8 where "DLMS_DATA_TYPE_BOOLEAN \<equiv> 0x03"
abbreviation (input) DLMS_DATA_TYPE_BIT_STRING :: u8 where "DLMS_DATA_TYPE_BIT_STRING \<equiv> 0x04"
abbreviation (input) DLMS_DATA_TYPE_INT32 :: u8 where "DLMS_DATA_TYPE_INT32 \<equiv> 0x05"
abbreviation (input) DLMS_DATA_TYPE_UINT32 :: u8 where "DLMS_DATA_TYPE_UINT32 \<equiv> 0x06"
abbreviation (input) DLMS_DATA_TYPE_OCTET_STRING :: u8 where "DLMS_DATA_TYPE_OCTET_STRING \<equiv> 0x09"
abbreviation (input) DLMS_DATA_TYPE_STRING :: u8 where "DLMS_DATA_TYPE_STRING \<equiv> 0x0A"
abbreviation (input) DLMS_DATA_TYPE_STRING_UTF8 :: u8 where "DLMS_DATA_TYPE_STRING_UTF8 \<equiv> 0x0C"
abbreviation (input) DLMS_DATA_TYPE_INT8 :: u8 where "DLMS_DATA_TYPE_INT8 \<equiv> 0x0F"
abbreviation (input) DLMS_DATA_TYPE_INT16 :: u8 where "DLMS_DATA_TYPE_INT16 \<equiv> 0x10"
abbreviation (input) DLMS_DATA_TYPE_UINT8 :: u8 where "DLMS_DATA_TYPE_UINT8 \<equiv> 0x11"
abbreviation (input) DLMS_DATA_TYPE_UINT16 :: u8 where "DLMS_DATA_TYPE_UINT16 \<equiv> 0x12"
abbreviation (input) DLMS_DATA_TYPE_INT64 :: u8 where "DLMS_DATA_TYPE_INT64 \<equiv> 0x14"
abbreviation (input) DLMS_DATA_TYPE_UINT64 :: u8 where "DLMS_DATA_TYPE_UINT64 \<equiv> 0x15"
abbreviation (input) DLMS_DATA_TYPE_ENUM :: u8 where "DLMS_DATA_TYPE_ENUM \<equiv> 0x16"
abbreviation (input) DLMS_DATA_TYPE_FLOAT32 :: u8 where "DLMS_DATA_TYPE_FLOAT32 \<equiv> 0x17"
abbreviation (input) DLMS_DATA_TYPE_FLOAT64 :: u8 where "DLMS_DATA_TYPE_FLOAT64 \<equiv> 0x18"
abbreviation (input) DLMS_DATA_TYPE_DATETIME :: u8 where "DLMS_DATA_TYPE_DATETIME \<equiv> 0x19"
abbreviation (input) DLMS_DATA_TYPE_DELTA_INT8 :: u8 where "DLMS_DATA_TYPE_DELTA_INT8 \<equiv> 0x1C"
abbreviation (input) DLMS_DATA_TYPE_DELTA_INT16 :: u8 where "DLMS_DATA_TYPE_DELTA_INT16 \<equiv> 0x1D"
abbreviation (input) DLMS_DATA_TYPE_DELTA_INT32 :: u8 where "DLMS_DATA_TYPE_DELTA_INT32 \<equiv> 0x1E"
abbreviation (input) DLMS_DATA_TYPE_DELTA_UINT8 :: u8 where "DLMS_DATA_TYPE_DELTA_UINT8 \<equiv> 0x1F"
abbreviation (input) DLMS_DATA_TYPE_DELTA_UINT16 :: u8 where "DLMS_DATA_TYPE_DELTA_UINT16 \<equiv> 0x20"
abbreviation (input) DLMS_DATA_TYPE_DELTA_UINT32 :: u8 where "DLMS_DATA_TYPE_DELTA_UINT32 \<equiv> 0x21"

text \<open>The union of \<open>DLMSValueStruct\<close>: the member written last.  Signed members keep their
  bits; \<open>sint\<close> reads them.\<close>

datatype payload =
    BoolValue bool
  | Int8Value u8
  | Int16Value u16
  | Int32Value u32
  | Int64Value u64
  | UInt8Value u8
  | UInt16Value u16
  | UInt32Value u32
  | UInt64Value u64
  | Float32Value u32
  | Float64Value u64

record dlms_value =
  vtype :: u8
  typeName :: cstr
  payload :: payload
  octetString :: bytes

definition new_value :: dlms_value where
  "new_value = \<lparr> vtype = DLMS_DATA_TYPE_NONE, typeName = ''NONE'', payload = UInt64Value 0, octetString = [] \<rparr>"

type_synonym record_map = "u8 \<rightharpoonup> dlms_value"

text \<open>\<open>initTypeNames\<close>; a missing entry is created empty by \<open>operator[]\<close>.\<close>

definition typeNames :: "u8 \<Rightarrow> cstr" where
  "typeNames t =
     (if t = 0x00 then ''NONE'' else if t = 0x01 then ''ARRAY'' else if t = 0x02 then ''STRUCTURE''
      else if t = 0x03 then ''BOOLEAN'' else if t = 0x04 then ''BIT_STRING''
      else if t = 0x05 then ''INT32'' else if t = 0x06 then ''UINT32''
      else if t = 0x09 then ''OCTET_STRING'' else if t = 0x0A then ''STRING''
      else if t = 0x0C then ''STRING_UTF8'' else if t = 0x0D then ''BCD''
      else if t = 0x0F then ''INT8'' else if t = 0x10 then ''INT16''
      else if t = 0x11 then ''UINT8'' else if t = 0x12 then ''UINT16''
      else if t = 0x13 then ''COMPACT_ARRAY'' else if t = 0x14 then ''INT64''
      else if t = 0x15 then ''UINT64'' else if t = 0x16 then ''ENUM''
      else if t = 0x17 then ''FLOAT32'' else if t = 0x18 then ''FLOAT64''
      else if t = 0x19 then ''DATETIME'' else if t = 0x1A then ''DATE''
      else if t = 0x1B then ''TIME'' else [])"

section \<open>\<open>parseByType\<close>\<close>

text \<open>\<open>data[offset]\<close> of a \<open>std::vector\<close>: undefined past the end.\<close>

definition dread :: "bytes \<Rightarrow> nat \<Rightarrow> u8 option" where
  "dread data k = (if k < length data then Some (data ! k) else None)"

definition dread16 :: "bytes \<Rightarrow> nat \<Rightarrow> u16 option" where
  "dread16 data k = do {
     a \<leftarrow> dread data k; b \<leftarrow> dread data (k + 1);
     Some (push_bit 8 (ucast a) OR ucast b) }"

definition dread32 :: "bytes \<Rightarrow> nat \<Rightarrow> u32 option" where
  "dread32 data k = do {
     a \<leftarrow> dread data k; b \<leftarrow> dread data (k + 1); c \<leftarrow> dread data (k + 2); d \<leftarrow> dread data (k + 3);
     Some (push_bit 24 (ucast a) OR push_bit 16 (ucast b) OR push_bit 8 (ucast c) OR ucast d) }"

definition dread64 :: "bytes \<Rightarrow> nat \<Rightarrow> u64 option" where
  "dread64 data k = do {
     a \<leftarrow> dread data k; b \<leftarrow> dread data (k + 1); c \<leftarrow> dread data (k + 2); d \<leftarrow> dread data (k + 3);
     e \<leftarrow> dread data (k + 4); f \<leftarrow> dread data (k + 5); g \<leftarrow> dread data (k + 6); h \<leftarrow> dread data (k + 7);
     Some (push_bit 56 (ucast a) OR push_bit 48 (ucast b) OR push_bit 40 (ucast c) OR push_bit 32 (ucast d) OR
           push_bit 24 (ucast e) OR push_bit 16 (ucast f) OR push_bit 8 (ucast g) OR ucast h) }"

text \<open>A numeric case: the size check, the read, the advance.\<close>

definition parse_num :: "bytes \<Rightarrow> nat \<Rightarrow> dlms_value \<Rightarrow> nat \<Rightarrow> payload option \<Rightarrow> (bool \<times> nat \<times> dlms_value) option" where
  "parse_num data offset value n r =
     (if length data < offset + n then Some (False, offset, value)
      else do { p \<leftarrow> r; Some (True, offset + n, value\<lparr>payload := p\<rparr>) })"

text \<open>The string types: a length byte and as many octets.\<close>

definition parse_octets :: "bytes \<Rightarrow> nat \<Rightarrow> dlms_value \<Rightarrow> (bool \<times> nat \<times> dlms_value) option" where
  "parse_octets data offset value =
     (if length data < offset + 1 then Some (False, offset, value)
      else do {
        len \<leftarrow> dread data offset;
        let offset = offset + 1;
        if length data < offset + unat len then Some (False, offset, value)
        else do {
          octets \<leftarrow> mapM (\<lambda>i. dread data (offset + i)) [0..<unat len];
          Some (True, offset + unat len, value\<lparr>octetString := octets\<rparr>)
        }
      })"

text \<open>The result is the flag, the new offset and the value.\<close>

definition parseByType :: "bytes \<Rightarrow> nat \<Rightarrow> u8 \<Rightarrow> dlms_value \<Rightarrow> (bool \<times> nat \<times> dlms_value) option" where
  "parseByType data offset dataType value =
     (if length data \<le> offset then Some (False, offset, value)
      else let value = value\<lparr>vtype := dataType, typeName := typeNames dataType\<rparr>; num = parse_num data offset value in
      if dataType = DLMS_DATA_TYPE_ARRAY then Some (True, offset, value)
      else if dataType = DLMS_DATA_TYPE_BOOLEAN then
        num 1 (map_option (\<lambda>b. BoolValue (b \<noteq> 0)) (dread data offset))
      else if dataType = DLMS_DATA_TYPE_INT32 then num 4 (map_option Int32Value (dread32 data offset))
      else if dataType = DLMS_DATA_TYPE_UINT32 \<or> dataType = DLMS_DATA_TYPE_DATETIME then
        num 4 (map_option UInt32Value (dread32 data offset))
      else if dataType = DLMS_DATA_TYPE_BIT_STRING \<or> dataType = DLMS_DATA_TYPE_OCTET_STRING
           \<or> dataType = DLMS_DATA_TYPE_STRING \<or> dataType = DLMS_DATA_TYPE_STRING_UTF8 then
        parse_octets data offset value
      else if dataType = DLMS_DATA_TYPE_INT8 then num 1 (map_option Int8Value (dread data offset))
      else if dataType = DLMS_DATA_TYPE_INT16 then num 2 (map_option Int16Value (dread16 data offset))
      else if dataType = DLMS_DATA_TYPE_UINT8 then num 1 (map_option UInt8Value (dread data offset))
      else if dataType = DLMS_DATA_TYPE_UINT16 then num 2 (map_option UInt16Value (dread16 data offset))
      else if dataType = DLMS_DATA_TYPE_INT64 then num 8 (map_option Int64Value (dread64 data offset))
      else if dataType = DLMS_DATA_TYPE_UINT64 then num 8 (map_option UInt64Value (dread64 data offset))
      else Some (False, offset, value))"

lemma dread_in: "k < length data \<Longrightarrow> dread data k = Some (data ! k)"
  by (simp add: dread_def)

lemma parse_num_offset:
  "parse_num data offset v n r = Some (ok, offset', v') \<Longrightarrow> offset \<le> offset'"
  by (auto simp: parse_num_def split: if_splits bind_splits)

lemma parse_octets_offset:
  "parse_octets data offset v = Some (ok, offset', v') \<Longrightarrow> offset \<le> offset'"
  by (auto simp: parse_octets_def Let_def split: if_splits bind_splits)

lemma parseByType_offset:
  "parseByType data offset t v = Some (ok, offset', v') \<Longrightarrow> offset \<le> offset'"
  by (auto simp: parseByType_def Let_def dest: parse_num_offset parse_octets_offset split: if_splits)

text \<open>No input makes \<open>parseByType\<close> read outside the vector.\<close>

lemma dread_widths:
  "k + 1 \<le> length data \<Longrightarrow> \<exists>x. dread data k = Some x"
  "k + 2 \<le> length data \<Longrightarrow> \<exists>x. dread16 data k = Some x"
  "k + 4 \<le> length data \<Longrightarrow> \<exists>x. dread32 data k = Some x"
  "k + 8 \<le> length data \<Longrightarrow> \<exists>x. dread64 data k = Some x"
  by (simp_all add: dread_in dread16_def dread32_def dread64_def)

lemma parse_num_widths:
  "parse_num data k v 1 (map_option f1 (dread data k)) \<noteq> None"
  "parse_num data k v 2 (map_option f2 (dread16 data k)) \<noteq> None"
  "parse_num data k v 4 (map_option f4 (dread32 data k)) \<noteq> None"
  "parse_num data k v 8 (map_option f8 (dread64 data k)) \<noteq> None"
  using dread_widths [of k data] by (fastforce simp: parse_num_def not_less)+

lemma mapM_dread:
  "k + n \<le> length data \<Longrightarrow> mapM (\<lambda>i. dread data (k + i)) [0..<n] = Some (map (\<lambda>i. data ! (k + i)) [0..<n])"
  by (rule mapM_Some) (simp add: dread_in)

lemma parse_octets_total: "parse_octets data k v \<noteq> None"
proof (cases "length data < k + 1")
  case False
  then show ?thesis
    using mapM_dread [of "k + 1" "unat (data ! k)" data]
    by (cases "length data < k + 1 + unat (data ! k)")
      (simp_all add: parse_octets_def dread_in Let_def del: not_None_eq)
qed (simp add: parse_octets_def)

lemma parseByType_total: "\<exists>ok offset' v'. parseByType data offset t v = Some (ok, offset', v')"
proof -
  have "parseByType data offset t v \<noteq> None"
    unfolding parseByType_def Let_def
    by (simp add: parse_octets_total parse_num_widths del: not_None_eq One_nat_def split: if_split)
  then show ?thesis by (metis not_None_eq prod_cases3)
qed

section \<open>The record loops\<close>

text \<open>The loop both record parsers run: \<open>store\<close> is what they do with a parsed record; the
  result is \<open>received_records\<close> and the buffer.\<close>

function parse_loop ::
    "(u8 \<Rightarrow> dlms_value \<Rightarrow> 's \<Rightarrow> 's) \<Rightarrow> bytes \<Rightarrow> nat \<Rightarrow> int \<Rightarrow> 's \<Rightarrow> (int \<times> 's) option" where
  "parse_loop store data offset received_records records =
     (if \<not> offset < length data - 1 then Some (received_records, records)
      else if length data < offset + 3 then Some (received_records, records)
      else case (dread data offset, dread data (offset + 1), dread data (offset + 2)) of
        (Some record_id, Some delimiter, Some dtype) \<Rightarrow>
          (if delimiter \<noteq> 0 then Some (received_records, records)
           else case parseByType data (offset + 3) dtype new_value of
             Some (True, offset', value) \<Rightarrow>
               parse_loop store data offset' (received_records + 1) (store record_id value records)
           | Some (False, offset', value) \<Rightarrow> Some (received_records, records)
           | None \<Rightarrow> None)
      | _ \<Rightarrow> None)"
  by pat_completeness auto
termination
  by (relation "measure (\<lambda>(store, data, offset, n, s). length data - offset)")
    (auto dest: parseByType_offset)

declare parse_loop.simps [simp del]

text \<open>\<open>PacketBuffer<DlmsRecordMap>\<close> and \<open>PacketBufferBlockLoad\<close>; a time point is in nanoseconds.\<close>

record packet_buffer =
  total_packets_received :: int
  last_packet_time :: int
  profile_data :: record_map

record packet_buffer_block_load =
  blp_total_packets_received :: int
  blp_last_packet_time :: int
  profiles_data :: "record_map list"
  partial_profile :: record_map

definition empty_buffer :: packet_buffer where
  "empty_buffer = \<lparr> total_packets_received = 0, last_packet_time = 0, profile_data = Map.empty \<rparr>"

definition empty_block_load :: packet_buffer_block_load where
  "empty_block_load = \<lparr> blp_total_packets_received = 0, blp_last_packet_time = 0,
     profiles_data = [], partial_profile = Map.empty \<rparr>"

text \<open>\<open>clear\<close>: the template resets everything, the block-load buffer keeps its time.\<close>

definition clear_buffer :: "packet_buffer \<Rightarrow> packet_buffer" where
  "clear_buffer b = empty_buffer"

definition clear_block_load :: "packet_buffer_block_load \<Rightarrow> packet_buffer_block_load" where
  "clear_block_load b = b\<lparr> profiles_data := [], partial_profile := Map.empty, blp_total_packets_received := 0 \<rparr>"

definition store_record :: "u8 \<Rightarrow> dlms_value \<Rightarrow> packet_buffer \<Rightarrow> packet_buffer" where
  "store_record record_id value b = b\<lparr> profile_data := (profile_data b)(record_id \<mapsto> value) \<rparr>"

text \<open>Record 0x06 completes a block.\<close>

definition store_block_record :: "u8 \<Rightarrow> dlms_value \<Rightarrow> packet_buffer_block_load \<Rightarrow> packet_buffer_block_load" where
  "store_block_record record_id value b =
     (let b' = b\<lparr> partial_profile := (partial_profile b)(record_id \<mapsto> value) \<rparr>
      in if record_id = 0x06
         then b'\<lparr> profiles_data := profiles_data b' @ [partial_profile b'], partial_profile := Map.empty \<rparr>
         else b')"

abbreviation (input) pmesh_header_size :: nat where "pmesh_header_size \<equiv> 17"
abbreviation (input) dlms_header_size :: nat where "dlms_header_size \<equiv> 9"

definition parse_records ::
    "(u8 \<Rightarrow> dlms_value \<Rightarrow> 's \<Rightarrow> 's) \<Rightarrow> bytes \<Rightarrow> u8 \<Rightarrow> 's \<Rightarrow> (int \<times> 's) option" where
  "parse_records store data number_of_records records =
     (if length data < pmesh_header_size + dlms_header_size then Some (FAILURE, records)
      else do {
        (received_records, records') \<leftarrow> parse_loop store data (pmesh_header_size + dlms_header_size) 0 records;
        Some (if received_records = uint number_of_records then SUCCESS else FAILURE, records')
      })"

definition parseDLMSRecords :: "bytes \<Rightarrow> u8 \<Rightarrow> packet_buffer \<Rightarrow> (int \<times> packet_buffer) option" where
  "parseDLMSRecords = parse_records store_record"

definition parseBlockLoadDLMSRecords ::
    "bytes \<Rightarrow> u8 \<Rightarrow> packet_buffer_block_load \<Rightarrow> (int \<times> packet_buffer_block_load) option" where
  "parseBlockLoadDLMSRecords = parse_records store_block_record"

section \<open>The loops stay inside the packet\<close>

lemma parse_loop_step:
  assumes "offset < length data - 1" and "offset + 3 \<le> length data" and "data ! (offset + 1) = 0"
    and "parseByType data (offset + 3) (data ! (offset + 2)) new_value = Some (True, offset', v)"
  shows "parse_loop store data offset n s
    = parse_loop store data offset' (n + 1) (store (data ! offset) v s)"
  using assms by (subst parse_loop.simps) (simp add: dread_in)

text \<open>An iteration either ends the loop or consumes a record.\<close>

lemma parse_loop_cases:
  obtains (stop) "\<And>n s. parse_loop store data offset n s = Some (n, s)"
  | (step) offset' v where "offset < length data - 1" "offset < offset'"
      "parseByType data (offset + 3) (data ! (offset + 2)) new_value = Some (True, offset', v)"
      "\<And>n s. parse_loop store data offset n s = parse_loop store data offset' (n + 1) (store (data ! offset) v s)"
proof -
  obtain ok offset' v where p: "parseByType data (offset + 3) (data ! (offset + 2)) new_value = Some (ok, offset', v)"
    using parseByType_total by blast
  show ?thesis
  proof (cases "offset < length data - 1 \<and> offset + 3 \<le> length data \<and> data ! (offset + 1) = 0 \<and> ok")
    case True
    with p parse_loop_step [of offset data offset' v store] parseByType_offset [OF p] show ?thesis
      by (intro step [of offset' v]) auto
  next
    case False
    have "parse_loop store data offset n s = Some (n, s)" for n s
    proof (cases "offset < length data - 1 \<and> offset + 3 \<le> length data")
      case True
      then show ?thesis
        using False p by (subst parse_loop.simps) (auto simp: dread_in simp del: One_nat_def add_2_eq_Suc')
    qed (subst parse_loop.simps, auto)
    then show ?thesis by (rule stop)
  qed
qed

lemma parse_loop_total: "\<exists>r. parse_loop store data offset n s = Some r"
proof (induction "length data - offset" arbitrary: offset n s rule: less_induct)
  case less
  show ?case
  proof (cases store data offset rule: parse_loop_cases)
    case (step offset' v)
    then have "length data - offset' < length data - offset" by simp
    from less [OF this] show ?thesis by (simp add: step(4))
  qed simp
qed

lemma parse_records_total: "\<exists>ret s'. parse_records store data n s = Some (ret, s') \<and> (ret = SUCCESS \<or> ret = FAILURE)"
  using parse_loop_total [of store data "26" 0 s] by (auto simp: parse_records_def)

text \<open>What a loop keeps, whatever the packet holds.\<close>

lemma parse_loop_inv:
  assumes "parse_loop store data offset n s = Some (n', s')" and "P s"
    and "\<And>record_id t k k' value s. P s \<Longrightarrow> parseByType data k t new_value = Some (True, k', value) \<Longrightarrow> P (store record_id value s)"
  shows "P s'"
  using assms(1,2)
proof (induction "length data - offset" arbitrary: offset n s rule: less_induct)
  case less
  show ?case
  proof (cases store data offset rule: parse_loop_cases)
    case stop
    with less.prems show ?thesis by simp
  next
    case (step offset' v)
    then have "length data - offset' < length data - offset" by simp
    moreover have "parse_loop store data offset' (n + 1) (store (data ! offset) v s) = Some (n', s')"
      using less.prems(1) by (simp only: step(4))
    moreover have "P (store (data ! offset) v s)"
      using less.prems(2) step(3) by (rule assms(3))
    ultimately show ?thesis by (rule less.hyps)
  qed
qed

section \<open>Values carry the payload of their type\<close>

definition string_type :: "u8 \<Rightarrow> bool" where
  "string_type t \<longleftrightarrow> t = DLMS_DATA_TYPE_BIT_STRING \<or> t = DLMS_DATA_TYPE_OCTET_STRING
     \<or> t = DLMS_DATA_TYPE_STRING \<or> t = DLMS_DATA_TYPE_STRING_UTF8"

text \<open>The types the parser accepts for each union member.\<close>

fun payload_type :: "payload \<Rightarrow> u8 \<Rightarrow> bool" where
  "payload_type (BoolValue b) t \<longleftrightarrow> t = DLMS_DATA_TYPE_BOOLEAN"
| "payload_type (Int8Value w) t \<longleftrightarrow> t = DLMS_DATA_TYPE_INT8"
| "payload_type (Int16Value w) t \<longleftrightarrow> t = DLMS_DATA_TYPE_INT16"
| "payload_type (Int32Value w) t \<longleftrightarrow> t = DLMS_DATA_TYPE_INT32"
| "payload_type (Int64Value w) t \<longleftrightarrow> t = DLMS_DATA_TYPE_INT64"
| "payload_type (UInt8Value w) t \<longleftrightarrow> t = DLMS_DATA_TYPE_UINT8"
| "payload_type (UInt16Value w) t \<longleftrightarrow> t = DLMS_DATA_TYPE_UINT16"
| "payload_type (UInt32Value w) t \<longleftrightarrow> t = DLMS_DATA_TYPE_UINT32 \<or> t = DLMS_DATA_TYPE_DATETIME"
| "payload_type (UInt64Value w) t \<longleftrightarrow> t = DLMS_DATA_TYPE_UINT64"
| "payload_type (Float32Value w) t \<longleftrightarrow> False"
| "payload_type (Float64Value w) t \<longleftrightarrow> False"

definition wf_value :: "dlms_value \<Rightarrow> bool" where
  "wf_value v \<longleftrightarrow> typeName v = typeNames (vtype v) \<and> length (octetString v) < 256 \<and>
     (if string_type (vtype v) then payload v = UInt64Value 0
      else octetString v = [] \<and>
        (if vtype v = DLMS_DATA_TYPE_ARRAY then payload v = UInt64Value 0
         else payload_type (payload v) (vtype v)))"

definition wf_map :: "record_map \<Rightarrow> bool" where
  "wf_map m \<longleftrightarrow> (\<forall>tag v. m tag = Some v \<longrightarrow> wf_value v)"

definition yields_wf :: "(bool \<times> nat \<times> dlms_value) option \<Rightarrow> bool" where
  "yields_wf r \<longleftrightarrow> (case r of Some (True, k, v) \<Rightarrow> wf_value v | _ \<Rightarrow> True)"

lemma yields_wf_simps [simp]:
  "yields_wf (Some (False, k, v))" "yields_wf None" "yields_wf (Some (True, k, v)) \<longleftrightarrow> wf_value v"
  by (simp_all add: yields_wf_def)

lemma parse_num_wf:
  assumes "typeName v = typeNames (vtype v)" "octetString v = []" "\<not> string_type (vtype v)"
    and "vtype v \<noteq> DLMS_DATA_TYPE_ARRAY" "\<And>x. payload_type (f x) (vtype v)"
  shows "yields_wf (parse_num data k v n (map_option f r))"
  using assms by (cases r) (simp_all add: parse_num_def wf_value_def)

lemma parse_octets_wf:
  assumes "typeName v = typeNames (vtype v)" "string_type (vtype v)" "payload v = UInt64Value 0"
  shows "yields_wf (parse_octets data k v)"
proof (cases "length data < k + 1 + unat (data ! k)")
  case False
  then show ?thesis
    using assms mapM_dread [of "k + 1" "unat (data ! k)" data] unsigned_less [of "data ! k", where ?'a = nat]
    by (simp add: parse_octets_def dread_in Let_def wf_value_def)
qed (cases "length data < k + 1", simp_all add: parse_octets_def dread_in Let_def)

lemma parseByType_yields_wf: "yields_wf (parseByType data k t new_value)"
proof -
  define V where "V = new_value\<lparr>vtype := t, typeName := typeNames t\<rparr>"
  have V: "vtype V = t" "typeName V = typeNames (vtype V)" "octetString V = []" "payload V = UInt64Value 0"
    by (simp_all add: V_def new_value_def)
  then have "t = DLMS_DATA_TYPE_ARRAY \<Longrightarrow> wf_value V" by (simp add: wf_value_def string_type_def)
  then show ?thesis
    unfolding parseByType_def Let_def V_def [symmetric]
    by (simp add: parse_num_wf parse_octets_wf V string_type_def split: if_split)
qed

lemma parseByType_wf: "parseByType data k t new_value = Some (True, k', v) \<Longrightarrow> wf_value v"
  using parseByType_yields_wf [of data k t] by simp

lemma wf_map_update: "wf_map m \<Longrightarrow> wf_value v \<Longrightarrow> wf_map (m(tag \<mapsto> v))"
  by (auto simp: wf_map_def)

lemma wf_map_empty [simp]: "wf_map Map.empty"
  by (simp add: wf_map_def)

lemma parse_records_inv:
  assumes "parse_records store data n s = Some (ret, s')" and "P s"
    and "\<And>record_id value s. P s \<Longrightarrow> wf_value value \<Longrightarrow> P (store record_id value s)"
  shows "P s'"
proof (cases "length data < 26")
  case True
  with assms(1,2) show ?thesis by (simp add: parse_records_def)
next
  case False
  with assms(1) obtain k where "parse_loop store data 26 0 s = Some (k, s')"
    by (auto simp: parse_records_def split: bind_splits)
  then show ?thesis using assms(2)
    by (rule parse_loop_inv) (use assms(3) parseByType_wf in blast)
qed

definition wf_block_load :: "packet_buffer_block_load \<Rightarrow> bool" where
  "wf_block_load b \<longleftrightarrow> wf_map (partial_profile b) \<and> list_all wf_map (profiles_data b)"

lemma parseDLMSRecords_wf:
  assumes "parseDLMSRecords data n b = Some (ret, b')" and "wf_map (profile_data b)"
  shows "wf_map (profile_data b')"
  using assms unfolding parseDLMSRecords_def
  by (rule parse_records_inv [where P = "\<lambda>b. wf_map (profile_data b)"]) (auto simp: store_record_def wf_map_update)

lemma parseBlockLoadDLMSRecords_wf:
  assumes "parseBlockLoadDLMSRecords data n b = Some (ret, b')" and "wf_block_load b"
  shows "wf_block_load b'"
  using assms unfolding parseBlockLoadDLMSRecords_def
  by (rule parse_records_inv [where P = wf_block_load])
    (auto simp: store_block_record_def wf_block_load_def wf_map_update Let_def)

text \<open>The counters and times of the buffers are not the parser's business.\<close>

lemma parseDLMSRecords_frame:
  assumes "parseDLMSRecords data n b = Some (ret, b')"
  shows "total_packets_received b' = total_packets_received b \<and> last_packet_time b' = last_packet_time b"
  using assms unfolding parseDLMSRecords_def
  by (rule parse_records_inv [where P = "\<lambda>b'. total_packets_received b' = total_packets_received b
        \<and> last_packet_time b' = last_packet_time b"]) (auto simp: store_record_def)

lemma parseBlockLoadDLMSRecords_frame:
  assumes "parseBlockLoadDLMSRecords data n b = Some (ret, b')"
  shows "blp_total_packets_received b' = blp_total_packets_received b \<and> blp_last_packet_time b' = blp_last_packet_time b"
  using assms unfolding parseBlockLoadDLMSRecords_def
  by (rule parse_records_inv [where P = "\<lambda>b'. blp_total_packets_received b' = blp_total_packets_received b
        \<and> blp_last_packet_time b' = blp_last_packet_time b"]) (auto simp: store_block_record_def Let_def)

text \<open>C3: whatever bytes a packet holds, \<open>parseDLMSRecords\<close> reads no byte outside it,
  ends with SUCCESS or FAILURE, leaves the page counter alone and stores only values whose
  payload is the union member that their type announces.\<close>

theorem parseDLMSRecords_safe:
  assumes "wf_map (profile_data b)"
  shows "\<exists>ret b'. parseDLMSRecords data n b = Some (ret, b') \<and> ret \<in> {SUCCESS, FAILURE} \<and>
    wf_map (profile_data b') \<and> total_packets_received b' = total_packets_received b"
proof -
  obtain ret b' where "parseDLMSRecords data n b = Some (ret, b')" "ret = SUCCESS \<or> ret = FAILURE"
    using parse_records_total [of store_record data n b] by (auto simp: parseDLMSRecords_def)
  with parseDLMSRecords_wf [OF this(1) assms] parseDLMSRecords_frame [OF this(1)] show ?thesis by blast
qed

theorem parseDLMSRecords_safe_witness:
  "\<exists>ret b'. parseDLMSRecords [7, 0, 9, 255] 3 empty_buffer = Some (ret, b') \<and> ret \<in> {SUCCESS, FAILURE} \<and>
    wf_map (profile_data b') \<and> total_packets_received b' = total_packets_received empty_buffer"
  by (rule parseDLMSRecords_safe) (simp add: empty_buffer_def)

section \<open>Round trip\<close>

text \<open>What a meter sends: the big-endian encoding of a value and of a record.\<close>

definition enc16 :: "u16 \<Rightarrow> bytes" where
  "enc16 w = [ucast (drop_bit 8 w), ucast w]"

definition enc32 :: "u32 \<Rightarrow> bytes" where
  "enc32 w = [ucast (drop_bit 24 w), ucast (drop_bit 16 w), ucast (drop_bit 8 w), ucast w]"

definition enc64 :: "u64 \<Rightarrow> bytes" where
  "enc64 w = [ucast (drop_bit 56 w), ucast (drop_bit 48 w), ucast (drop_bit 40 w), ucast (drop_bit 32 w),
     ucast (drop_bit 24 w), ucast (drop_bit 16 w), ucast (drop_bit 8 w), ucast w]"

fun enc_payload :: "payload \<Rightarrow> bytes" where
  "enc_payload (BoolValue b) = [if b then 1 else 0]"
| "enc_payload (Int8Value w) = [w]"
| "enc_payload (Int16Value w) = enc16 w"
| "enc_payload (Int32Value w) = enc32 w"
| "enc_payload (Int64Value w) = enc64 w"
| "enc_payload (UInt8Value w) = [w]"
| "enc_payload (UInt16Value w) = enc16 w"
| "enc_payload (UInt32Value w) = enc32 w"
| "enc_payload (UInt64Value w) = enc64 w"
| "enc_payload (Float32Value w) = enc32 w"
| "enc_payload (Float64Value w) = enc64 w"

definition enc_value :: "dlms_value \<Rightarrow> bytes" where
  "enc_value v =
     (if string_type (vtype v) then word_of_nat (length (octetString v)) # octetString v
      else if vtype v = DLMS_DATA_TYPE_ARRAY then [] else enc_payload (payload v))"

definition enc_record :: "u8 \<times> dlms_value \<Rightarrow> bytes" where
  "enc_record r = [fst r, 0, vtype (snd r)] @ enc_value (snd r)"

lemma bit_byte:
  fixes w :: "'a :: len word"
  shows "bit (push_bit k (ucast (ucast (drop_bit k w) :: u8)) :: 'a word) n \<longleftrightarrow> k \<le> n \<and> n < k + 8 \<and> bit w n"
proof (cases "k \<le> n")
  case True
  then show ?thesis by (auto simp: bit_simps dest: bit_imp_le_length)
qed (auto simp: bit_simps)

lemmas bit_byte_0 = bit_byte [of 0, simplified]

lemma word_bytes_16: "push_bit 8 (ucast (ucast (drop_bit 8 w) :: u8)) OR ucast (ucast w :: u8) = (w :: u16)"
  by (rule bit_word_eqI) (simp only: bit_or_iff bit_byte bit_byte_0 len_num1 len_bit0 len_bit1; linarith)

lemma word_bytes_32:
  "push_bit 24 (ucast (ucast (drop_bit 24 w) :: u8)) OR push_bit 16 (ucast (ucast (drop_bit 16 w) :: u8)) OR
   push_bit 8 (ucast (ucast (drop_bit 8 w) :: u8)) OR ucast (ucast w :: u8) = (w :: u32)"
  by (rule bit_word_eqI) (auto simp: bit_or_iff bit_byte bit_byte_0)

lemma word_bytes_64:
  "push_bit 56 (ucast (ucast (drop_bit 56 w) :: u8)) OR push_bit 48 (ucast (ucast (drop_bit 48 w) :: u8)) OR
   push_bit 40 (ucast (ucast (drop_bit 40 w) :: u8)) OR push_bit 32 (ucast (ucast (drop_bit 32 w) :: u8)) OR
   push_bit 24 (ucast (ucast (drop_bit 24 w) :: u8)) OR push_bit 16 (ucast (ucast (drop_bit 16 w) :: u8)) OR
   push_bit 8 (ucast (ucast (drop_bit 8 w) :: u8)) OR ucast (ucast w :: u8) = (w :: u64)"
  by (rule bit_word_eqI) (auto simp: bit_or_iff bit_byte bit_byte_0)

lemma dread_pre: "dread (pre @ x # xs) (length pre) = Some x"
  by (simp add: dread_def)

lemma dread_pre_add: "dread (pre @ xs) (length pre + k) = dread xs k"
  by (simp add: dread_def)

lemma dread_enc16: "dread16 (pre @ enc16 a @ post) (length pre) = Some a"
  by (simp add: dread16_def enc16_def dread_def nth_append word_bytes_16)

lemma dread_enc32: "dread32 (pre @ enc32 a @ post) (length pre) = Some a"
  by (simp add: dread32_def enc32_def dread_def nth_append word_bytes_32)

lemma dread_enc64: "dread64 (pre @ enc64 a @ post) (length pre) = Some a"
  by (simp add: dread64_def enc64_def dread_def nth_append word_bytes_64)

lemma parse_num_at:
  "length bs = n \<Longrightarrow> parse_num (pre @ bs @ post) (length pre) v n (Some p) = Some (True, length pre + n, v\<lparr>payload := p\<rparr>)"
  by (simp add: parse_num_def)

lemma enc_lengths [simp]: "length (enc16 a) = 2" "length (enc32 b) = 4" "length (enc64 c) = 8"
  by (simp_all add: enc16_def enc32_def enc64_def)

lemma parse_octets_at:
  assumes "length os < 256"
  shows "parse_octets (pre @ (word_of_nat (length os) # os) @ post) (length pre) v
    = Some (True, length pre + 1 + length os, v\<lparr>octetString := os\<rparr>)"
proof -
  let ?data = "pre @ (word_of_nat (length os) # os) @ post"
  have len: "unat (word_of_nat (length os) :: u8) = length os"
    using assms by (simp add: unat_of_nat)
  have "map (\<lambda>i. ?data ! (length pre + 1 + i)) [0..<length os] = os"
    by (rule nth_equalityI) (simp_all add: nth_append)
  moreover have "mapM (\<lambda>i. dread ?data (length pre + 1 + i)) [0..<length os]
      = Some (map (\<lambda>i. ?data ! (length pre + 1 + i)) [0..<length os])"
    by (rule mapM_dread) simp
  ultimately have m: "mapM (\<lambda>i. dread ?data (length pre + 1 + i)) [0..<length os] = Some os" by (simp only:)
  then show ?thesis by (simp add: parse_octets_def dread_pre len)
qed

lemma wf_value_types:
  assumes "wf_value v" and "\<not> string_type (vtype v)" and "vtype v \<noteq> DLMS_DATA_TYPE_ARRAY"
  shows "payload_type (payload v) (vtype v)" "octetString v = []" "typeName v = typeNames (vtype v)"
  using assms by (simp_all add: wf_value_def)

lemma parseByType_enc:
  assumes "wf_value v" and "post \<noteq> []"
  shows "parseByType (pre @ enc_value v @ post) (length pre) (vtype v) new_value
    = Some (True, length pre + length (enc_value v), v)"
proof -
  have post: "0 < length post" using assms(2) by simp
  define V where "V = new_value\<lparr>vtype := vtype v, typeName := typeNames (vtype v)\<rparr>"
  show ?thesis
  proof (cases "string_type (vtype v)")
    case True
    then have "V\<lparr>octetString := octetString v\<rparr> = v" "length (octetString v) < 256"
      using assms(1) by (simp_all add: wf_value_def V_def new_value_def)
    then show ?thesis
      using True post parse_octets_at [of "octetString v" pre post V]
      unfolding parseByType_def Let_def V_def [symmetric]
      by (auto simp: enc_value_def string_type_def)
  next
    case ns: False
    show ?thesis
    proof (cases "vtype v = DLMS_DATA_TYPE_ARRAY")
      case True
      then have "V = v" using assms(1) ns by (simp add: wf_value_def V_def new_value_def)
      then show ?thesis using True ns post
        unfolding parseByType_def Let_def V_def [symmetric] by (simp add: enc_value_def)
    next
      case False
      have v: "v = V\<lparr>payload := payload v\<rparr>"
        using wf_value_types(2,3) [OF assms(1) ns False] by (simp add: V_def new_value_def)
      have e: "enc_value v = enc_payload (payload v)" using ns False by (simp add: enc_value_def)
      have "parseByType (pre @ enc_payload (payload v) @ post) (length pre) (vtype v) new_value
          = Some (True, length pre + length (enc_payload (payload v)), V\<lparr>payload := payload v\<rparr>)"
        using wf_value_types(1) [OF assms(1) ns False] post
        unfolding parseByType_def Let_def V_def [symmetric]
        by (cases "payload v")
          (auto simp: dread_pre dread_enc16 dread_enc32 dread_enc64 parse_num_def split: if_splits)
      then show ?thesis unfolding e v [symmetric] .
    qed
  qed
qed

lemma parse_loop_enc:
  assumes "\<And>r. r \<in> set rs \<Longrightarrow> wf_value (snd r)"
  shows "parse_loop store (pre @ concat (map enc_record rs) @ [chk]) (length pre) n s
    = Some (n + int (length rs), fold (\<lambda>r. store (fst r) (snd r)) rs s)"
  using assms
proof (induction rs arbitrary: pre n s)
  case Nil
  show ?case by (subst parse_loop.simps) simp
next
  case (Cons r rs)
  obtain tag v where r: "r = (tag, v)" by (cases r)
  let ?hdr = "[tag, 0, vtype v]" and ?post = "concat (map enc_record rs) @ [chk]"
  let ?data = "pre @ concat (map enc_record (r # rs)) @ [chk]"
  have d: "?data = (pre @ ?hdr) @ enc_value v @ ?post" by (simp add: r enc_record_def)
  have "parseByType ?data (length pre + 3) (?data ! (length pre + 2)) new_value
      = Some (True, length pre + 3 + length (enc_value v), v)"
    using parseByType_enc [of v ?post "pre @ ?hdr"] Cons.prems [of r] unfolding d by (simp add: r nth_append numeral_3_eq_3)
  moreover have "?data ! length pre = tag" "?data ! (length pre + 1) = 0"
    unfolding d by (simp_all add: nth_append)
  ultimately have "parse_loop store ?data (length pre) n s
      = parse_loop store ?data (length pre + 3 + length (enc_value v)) (n + 1) (store tag v s)"
    using parse_loop_step [of "length pre" ?data "length pre + 3 + length (enc_value v)" v store n s]
    unfolding d by simp
  also have "\<dots> = Some (n + 1 + int (length rs), fold (\<lambda>r. store (fst r) (snd r)) rs (store tag v s))"
    using Cons.IH [of "pre @ ?hdr @ enc_value v" "n + 1" "store tag v s"] Cons.prems
    unfolding d by (simp add: add.assoc numeral_3_eq_3)
  finally show ?case by (simp add: r)
qed

lemma parse_records_enc:
  assumes "\<And>r. r \<in> set rs \<Longrightarrow> wf_value (snd r)" and "length hdr = 26"
  shows "parse_records store (hdr @ concat (map enc_record rs) @ [chk]) n s
    = Some (if length rs = unat n then SUCCESS else FAILURE, fold (\<lambda>r. store (fst r) (snd r)) rs s)"
proof -
  have "int (length rs) = uint n \<longleftrightarrow> length rs = unat n" by (metis of_nat_eq_iff uint_nat)
  then show ?thesis
    using parse_loop_enc [of rs store hdr chk 0 s] assms by (simp add: parse_records_def)
qed

lemma fold_store_record:
  "fold (\<lambda>r. store_record (fst r) (snd r)) rs b = b\<lparr>profile_data := profile_data b ++ map_of (rev rs)\<rparr>"
  by (induction rs arbitrary: b) (auto simp: store_record_def map_add_upd_left fun_eq_iff map_add_def split: option.split)

text \<open>C4: round trip of a page.  From a packet whose 26 header bytes are followed by the
  encoding of the records \<open>rs\<close> and a checksum byte, \<open>parseDLMSRecords\<close> stores exactly these records
  (the last one of a tag winning) on top of what the buffer held, and reports SUCCESS exactly
  when the header announced their number.\<close>

theorem parseDLMSRecords_roundtrip:
  assumes "list_all (wf_value \<circ> snd) rs" and "length hdr = 26"
  shows "parseDLMSRecords (hdr @ concat (map enc_record rs) @ [chk]) n b
    = Some (if length rs = unat n then SUCCESS else FAILURE, b\<lparr>profile_data := profile_data b ++ map_of (rev rs)\<rparr>)"
  using assms parse_records_enc [of rs hdr store_record chk n b]
  by (simp add: parseDLMSRecords_def fold_store_record list_all_iff)

definition example_records :: "(u8 \<times> dlms_value) list" where
  "example_records =
     [(1, \<lparr>vtype = 0x12, typeName = ''UINT16'', payload = UInt16Value 0x1234, octetString = []\<rparr>),
      (2, \<lparr>vtype = 0x09, typeName = ''OCTET_STRING'', payload = UInt64Value 0, octetString = [7, 8]\<rparr>)]"

theorem parseDLMSRecords_roundtrip_witness:
  "parseDLMSRecords (replicate 26 0 @ [1, 0, 0x12, 0x12, 0x34, 2, 0, 0x09, 2, 7, 8] @ [99]) 2 empty_buffer
    = Some (SUCCESS, empty_buffer\<lparr>profile_data := map_of (rev example_records)\<rparr>)"
proof -
  have e: "concat (map enc_record example_records) = [1, 0, 0x12, 0x12, 0x34, 2, 0, 0x09, 2, 7, 8]"
    by (simp add: example_records_def enc_record_def enc_value_def string_type_def enc16_def drop_bit_eq_div)
  have w: "list_all (wf_value \<circ> snd) example_records"
    by (simp add: example_records_def wf_value_def string_type_def typeNames_def)
  show ?thesis
    using parseDLMSRecords_roundtrip [OF w, of "replicate 26 0" 99 2 empty_buffer] unfolding e
    by (simp add: example_records_def empty_buffer_def)
qed

text \<open>A completed block: its last record, and no other, has the identifier 0x06.\<close>

definition block_of :: "(u8 \<times> dlms_value) list \<Rightarrow> bool" where
  "block_of blk \<longleftrightarrow> blk \<noteq> [] \<and> fst (last blk) = 6 \<and> 6 \<notin> fst ` set (butlast blk)"

lemma fold_store_partial:
  "6 \<notin> fst ` set rs \<Longrightarrow> fold (\<lambda>r. store_block_record (fst r) (snd r)) rs b
    = b\<lparr>partial_profile := partial_profile b ++ map_of (rev rs)\<rparr>"
  by (induction rs arbitrary: b)
    (auto simp: store_block_record_def Let_def fun_eq_iff map_add_def split: option.split)

lemma fold_store_block:
  assumes "block_of blk"
  shows "fold (\<lambda>r. store_block_record (fst r) (snd r)) blk b
    = b\<lparr>profiles_data := profiles_data b @ [partial_profile b ++ map_of (rev blk)], partial_profile := Map.empty\<rparr>"
proof -
  have "blk = butlast blk @ [(6, snd (last blk))]"
    using assms by (metis append_butlast_last_id block_of_def prod.collapse)
  then obtain rs v where "blk = rs @ [(6, v)]" "6 \<notin> fst ` set rs"
    using assms by (metis block_of_def butlast_snoc)
  then show ?thesis by (simp add: fold_store_partial store_block_record_def Let_def)
qed

lemma fold_store_blocks:
  "list_all block_of blks \<Longrightarrow> partial_profile b = Map.empty \<Longrightarrow>
    fold (\<lambda>r. store_block_record (fst r) (snd r)) (concat blks) b
    = b\<lparr>profiles_data := profiles_data b @ map (\<lambda>blk. map_of (rev blk)) blks\<rparr>"
  by (induction blks arbitrary: b) (simp_all add: fold_store_block)

text \<open>C6: a block-load page made of complete blocks and the beginning of a further one is
  parsed into one profile per block, in order, and the rest stays in the partial profile, from
  where the next page continues.\<close>

theorem parseBlockLoadDLMSRecords_roundtrip:
  assumes "list_all (wf_value \<circ> snd) (concat blks @ rest)" and "length hdr = 26"
    and "list_all block_of blks" and "6 \<notin> fst ` set rest" and "partial_profile b = Map.empty"
  shows "parseBlockLoadDLMSRecords (hdr @ concat (map enc_record (concat blks @ rest)) @ [chk]) n b
    = Some (if length (concat blks @ rest) = unat n then SUCCESS else FAILURE,
        b\<lparr>profiles_data := profiles_data b @ map (\<lambda>blk. map_of (rev blk)) blks,
          partial_profile := map_of (rev rest)\<rparr>)"
proof -
  have "fold (\<lambda>r. store_block_record (fst r) (snd r)) (concat blks @ rest) b
      = b\<lparr>profiles_data := profiles_data b @ map (\<lambda>blk. map_of (rev blk)) blks,
          partial_profile := map_of (rev rest)\<rparr>"
    using assms(3-5) by (simp add: fold_store_blocks fold_store_partial)
  then show ?thesis
    using parse_records_enc [of "concat blks @ rest" hdr store_block_record chk n b] assms(1,2)
    by (simp add: parseBlockLoadDLMSRecords_def list_all_iff)
qed

theorem parseBlockLoadDLMSRecords_roundtrip_witness:
  "let v = \<lparr>vtype = 0x11, typeName = ''UINT8'', payload = UInt8Value 5, octetString = []\<rparr> in
   parseBlockLoadDLMSRecords (replicate 26 0 @ [1, 0, 0x11, 5, 6, 0, 0x11, 5, 2, 0, 0x11, 5] @ [99]) 3 empty_block_load
    = Some (SUCCESS, empty_block_load\<lparr>profiles_data := [[6 \<mapsto> v, 1 \<mapsto> v]], partial_profile := [2 \<mapsto> v]\<rparr>)"
  using parseBlockLoadDLMSRecords_roundtrip [of
      "[[(1, \<lparr>vtype = 0x11, typeName = ''UINT8'', payload = UInt8Value 5, octetString = []\<rparr>),
         (6, \<lparr>vtype = 0x11, typeName = ''UINT8'', payload = UInt8Value 5, octetString = []\<rparr>)]]"
      "[(2, \<lparr>vtype = 0x11, typeName = ''UINT8'', payload = UInt8Value 5, octetString = []\<rparr>)]"
      "replicate 26 0" empty_block_load 99 3]
  by (simp add: enc_record_def enc_value_def string_type_def block_of_def wf_value_def typeNames_def
      empty_block_load_def Let_def fun_upd_twist)

section \<open>\<open>DlmsValueExtractor\<close>\<close>

text \<open>A \<open>double\<close> made from a value: a cast of an integer (rounded beyond 53 bits), of a
  \<open>float\<close>, or the \<open>double\<close> itself.  Reading a union member other than the one written last
  is \<open>None\<close>.\<close>

datatype number = CastInt int | CastFloat u32 | Double u64

definition int_member :: "payload \<Rightarrow> u8 \<Rightarrow> int option" where
  "int_member p t =
     (case p of
        BoolValue b \<Rightarrow> if t = DLMS_DATA_TYPE_BOOLEAN then Some (if b then 1 else 0) else None
      | Int8Value w \<Rightarrow> if t = DLMS_DATA_TYPE_INT8 \<or> t = DLMS_DATA_TYPE_DELTA_INT8 then Some (sint w) else None
      | UInt8Value w \<Rightarrow>
          if t = DLMS_DATA_TYPE_UINT8 \<or> t = DLMS_DATA_TYPE_DELTA_UINT8 \<or> t = DLMS_DATA_TYPE_ENUM
          then Some (uint w) else None
      | Int16Value w \<Rightarrow> if t = DLMS_DATA_TYPE_INT16 \<or> t = DLMS_DATA_TYPE_DELTA_INT16 then Some (sint w) else None
      | UInt16Value w \<Rightarrow> if t = DLMS_DATA_TYPE_UINT16 \<or> t = DLMS_DATA_TYPE_DELTA_UINT16 then Some (uint w) else None
      | Int32Value w \<Rightarrow> if t = DLMS_DATA_TYPE_INT32 \<or> t = DLMS_DATA_TYPE_DELTA_INT32 then Some (sint w) else None
      | UInt32Value w \<Rightarrow>
          if t = DLMS_DATA_TYPE_UINT32 \<or> t = DLMS_DATA_TYPE_DELTA_UINT32 \<or> t = DLMS_DATA_TYPE_DATETIME
          then Some (uint w) else None
      | Int64Value w \<Rightarrow> if t = DLMS_DATA_TYPE_INT64 then Some (sint w) else None
      | UInt64Value w \<Rightarrow> if t = DLMS_DATA_TYPE_UINT64 then Some (uint w) else None
      | _ \<Rightarrow> None)"

text \<open>The types of the switch in \<open>get_numeric\<close> and in \<open>apply_to_numeric\<close>, which lists all of
  them but \<open>DLMS_DATA_TYPE_DATETIME\<close>.\<close>

definition apply_types :: "u8 \<Rightarrow> bool" where
  "apply_types t \<longleftrightarrow> t \<in> {0x03, 0x0F, 0x1C, 0x11, 0x1F, 0x16, 0x10, 0x1D, 0x12, 0x20, 0x05, 0x1E, 0x06, 0x21, 0x14, 0x15}"

definition numeric_types :: "u8 \<Rightarrow> bool" where
  "numeric_types t \<longleftrightarrow> apply_types t \<or> t = DLMS_DATA_TYPE_DATETIME"

text \<open>The outer option is the definedness of the read, the inner one is \<open>std::optional\<close>.\<close>

definition get_numeric :: "record_map \<Rightarrow> u8 \<Rightarrow> number option option" where
  "get_numeric records tag =
     (case records tag of None \<Rightarrow> Some None
      | Some val \<Rightarrow>
         if numeric_types (vtype val) then map_option (Some \<circ> CastInt) (int_member (payload val) (vtype val))
         else if vtype val = DLMS_DATA_TYPE_FLOAT32 then
           (case payload val of Float32Value f \<Rightarrow> Some (Some (CastFloat f)) | _ \<Rightarrow> None)
         else if vtype val = DLMS_DATA_TYPE_FLOAT64 then
           (case payload val of Float64Value f \<Rightarrow> Some (Some (Double f)) | _ \<Rightarrow> None)
         else Some None)"

definition apply_to_numeric :: "record_map \<Rightarrow> u8 \<Rightarrow> (number \<Rightarrow> 'a) \<Rightarrow> 'a option" where
  "apply_to_numeric records tag func =
     (case records tag of None \<Rightarrow> Some (func (CastInt 0))
      | Some val \<Rightarrow>
         if apply_types (vtype val) then map_option (func \<circ> CastInt) (int_member (payload val) (vtype val))
         else if vtype val = DLMS_DATA_TYPE_FLOAT32 then
           (case payload val of Float32Value f \<Rightarrow> Some (func (CastFloat f)) | _ \<Rightarrow> None)
         else if vtype val = DLMS_DATA_TYPE_FLOAT64 then
           (case payload val of Float64Value f \<Rightarrow> Some (func (Double f)) | _ \<Rightarrow> None)
         else Some (func (CastInt 0)))"

text \<open>A \<open>double\<close> compares equal to 0.0 for both zeros.\<close>

fun nonzero :: "number \<Rightarrow> bool" where
  "nonzero (CastInt i) \<longleftrightarrow> i \<noteq> 0"
| "nonzero (CastFloat w) \<longleftrightarrow> w AND 0x7FFFFFFF \<noteq> 0"
| "nonzero (Double w) \<longleftrightarrow> w AND 0x7FFFFFFFFFFFFFFF \<noteq> 0"

definition get_bool :: "record_map \<Rightarrow> u8 \<Rightarrow> bool \<Rightarrow> bool option" where
  "get_bool records tag default_value =
     (case records tag of None \<Rightarrow> Some default_value
      | Some val \<Rightarrow>
         if vtype val = DLMS_DATA_TYPE_BOOLEAN then (case payload val of BoolValue b \<Rightarrow> Some b | _ \<Rightarrow> None)
         else map_option (\<lambda>num. case num of Some d \<Rightarrow> nonzero d | None \<Rightarrow> default_value) (get_numeric records tag))"

definition get_octet_string :: "record_map \<Rightarrow> u8 \<Rightarrow> bytes" where
  "get_octet_string records tag =
     (case records tag of None \<Rightarrow> [] | Some val \<Rightarrow> if string_type (vtype val) then octetString val else [])"

definition has_tag :: "record_map \<Rightarrow> u8 \<Rightarrow> bool" where
  "has_tag records tag = (records tag \<noteq> None)"

definition get_type_name :: "record_map \<Rightarrow> u8 \<Rightarrow> cstr" where
  "get_type_name records tag = (case records tag of Some val \<Rightarrow> typeName val | None \<Rightarrow> ''NOT_FOUND'')"

lemma wf_int_member:
  "wf_value v \<Longrightarrow> numeric_types (vtype v) \<Longrightarrow> \<exists>i. int_member (payload v) (vtype v) = Some i"
  by (cases "payload v")
    (auto simp: wf_value_def numeric_types_def apply_types_def string_type_def int_member_def split: if_splits)

lemma wf_not_float:
  "wf_value v \<Longrightarrow> vtype v \<noteq> DLMS_DATA_TYPE_FLOAT32 \<and> vtype v \<noteq> DLMS_DATA_TYPE_FLOAT64"
  by (cases "payload v") (auto simp: wf_value_def string_type_def split: if_splits)

text \<open>On parsed records both readers read only the union member that was written.  They
  agree, with 0 for a missing number, on every type except \<open>DLMS_DATA_TYPE_DATETIME\<close>: there
  \<open>get_numeric\<close> gives the time stamp and \<open>apply_to_numeric\<close> gives 0.\<close>

theorem extractors_agree:
  assumes "wf_map records"
  shows "\<exists>r. get_numeric records tag = Some r \<and>
    apply_to_numeric records tag func = Some (func
      (if map_option vtype (records tag) = Some DLMS_DATA_TYPE_DATETIME then CastInt 0
       else case r of Some x \<Rightarrow> x | None \<Rightarrow> CastInt 0))"
proof (cases "records tag")
  case None
  then show ?thesis by (simp add: get_numeric_def apply_to_numeric_def)
next
  case (Some v)
  then have wf: "wf_value v" using assms by (auto simp: wf_map_def)
  show ?thesis
  proof (cases "numeric_types (vtype v)")
    case True
    with wf_int_member [OF wf] obtain i where "int_member (payload v) (vtype v) = Some i" by blast
    with True Some show ?thesis
      by (auto simp: get_numeric_def apply_to_numeric_def numeric_types_def apply_types_def)
  next
    case False
    with wf_not_float [OF wf] Some show ?thesis
      by (simp add: get_numeric_def apply_to_numeric_def numeric_types_def)
  qed
qed

theorem extractors_agree_witness:
  "let m = [1 \<mapsto> \<lparr>vtype = 0x19, typeName = ''DATETIME'', payload = UInt32Value 77, octetString = []\<rparr>] in
   get_numeric m 1 = Some (Some (CastInt 77)) \<and> apply_to_numeric m 1 Some = Some (Some (CastInt 0))"
proof -
  let ?m = "[1 \<mapsto> \<lparr>vtype = 0x19, typeName = ''DATETIME'', payload = UInt32Value 77, octetString = []\<rparr>] :: record_map"
  have "wf_map ?m" by (simp add: wf_map_def wf_value_def string_type_def typeNames_def)
  from extractors_agree [OF this, of 1 Some] show ?thesis
    by (simp add: get_numeric_def numeric_types_def apply_types_def int_member_def)
qed

end
