(* ===== verification/Cycles.thy ===== *)
theory Cycles
  imports Prelude "HOL-Library.Signed_Division" "HOL-Library.Sublist"
begin

text \<open>
  Times and cycles: \<open>calculate_cycle_id\<close> and \<open>calculate_cycle_id_for_block_load\<close> of
  \<open>HES/src/database.cpp\<close>, and the scheduling of the pull cycles of \<open>HES/src/client.cpp\<close>
  (\<open>client_hes_cycle_schedule\<close>, \<open>mark_hes_cycle_done\<close> and the branch of
  \<open>poll_timeout_handler\<close> that calls them).

  The local time of an instant depends on the time zone of the host, so it is a function in
  the environment of every operation that asks for it.
\<close>

record tm =
  tm_sec :: int
  tm_min :: int
  tm_hour :: int
  tm_mday :: int
  tm_mon :: int
  tm_year :: int
  tm_isdst :: int

text \<open>The environment: \<open>system_clock::now()\<close> in nanoseconds, \<open>localtime_r\<close>, and \<open>mktime\<close>, which
  returns the instant and normalises its argument.\<close>

record env =
  now_ns :: int
  localtime :: "int \<Rightarrow> tm"
  mktime :: "tm \<Rightarrow> int \<times> tm"

definition time_now :: "env \<Rightarrow> int" where
  "time_now e = now_ns e div 1000000000"

text \<open>The documented range of the fields.\<close>

definition tm_ok :: "tm \<Rightarrow> bool" where
  "tm_ok t \<longleftrightarrow> 0 \<le> tm_hour t \<and> tm_hour t \<le> 23 \<and> 0 \<le> tm_min t \<and> tm_min t \<le> 59"

definition calculate_cycle_id_for_block_load :: "env \<Rightarrow> int" where
  "calculate_cycle_id_for_block_load e = tm_hour (localtime e (time_now e)) * 4 + 4"

definition calculate_cycle_id :: "env \<Rightarrow> int \<Rightarrow> int" where
  "calculate_cycle_id e subtract_cycles =
     (let subtract_cycles = (if subtract_cycles < 0 \<or> 3 < subtract_cycles then 0 else subtract_cycles);
          now = time_now e - subtract_cycles * 15 * 60;
          local_time = localtime e now;
          total_minutes = tm_hour local_time * 60 + tm_min local_time;
          cycle = (total_minutes + 5) sdiv 15;
          cycle_id = cycle + 1
      in if cycle_id < 1 then 96
         else if 96 < cycle_id then (cycle_id - 1) smod 96 + 1
         else cycle_id)"

lemma calculate_cycle_id_value:
  fixes e :: env
  defines "t n \<equiv> localtime e (time_now e - n * 900)"
  assumes "0 \<le> n" and "n \<le> 3" and "tm_ok (t n)"
  shows "calculate_cycle_id e n = (tm_hour (t n) * 60 + tm_min (t n) + 5) div 15 mod 96 + 1
    \<and> 1 \<le> calculate_cycle_id e n \<and> calculate_cycle_id e n \<le> 96"
proof -
  let ?m = "tm_hour (t n) * 60 + tm_min (t n) + 5"
  have m: "5 \<le> ?m" "?m \<le> 1444" using assms by (auto simp: tm_ok_def)
  have c: "calculate_cycle_id e n = (if 96 < ?m div 15 + 1 then (?m div 15) smod 96 + 1 else ?m div 15 + 1)"
    using assms(2,3) m by (auto simp: calculate_cycle_id_def Let_def t_def signed_divide_int_eq_divide_int algebra_simps)
  have d: "0 \<le> ?m div 15" "?m div 15 \<le> 96" using m by auto
  then have "(if 96 < ?m div 15 + 1 then (?m div 15) smod 96 + 1 else ?m div 15 + 1) = ?m div 15 mod 96 + 1"
    by (cases "?m div 15 = 96") (auto simp: signed_modulo_int_eq_modulo_int)
  moreover have "0 \<le> ?m div 15 mod 96" "?m div 15 mod 96 < 96" by simp_all
  ultimately show ?thesis using c by auto
qed

text \<open>A cycle identifier is the number of the quarter hour (from 1 to 96) that the
  minute of the day, advanced by five minutes, falls in; the last five minutes of a day belong
  to cycle 1 of the next.\<close>

theorem calculate_cycle_id_quarter:
  fixes e :: env
  defines "t n \<equiv> localtime e (time_now e - n * 900)"
  assumes "0 \<le> n" and "n \<le> 3" and "tm_ok (t n)"
  shows "calculate_cycle_id e n = (tm_hour (t n) * 60 + tm_min (t n) + 5) div 15 mod 96 + 1
    \<and> 1 \<le> calculate_cycle_id e n \<and> calculate_cycle_id e n \<le> 96"
  using assms(2-) unfolding assms(1) by (rule calculate_cycle_id_value)

definition example_env :: env where
  "example_env = \<lparr>now_ns = 0,
     localtime = (\<lambda>t. \<lparr>tm_sec = t mod 60, tm_min = t div 60 mod 60, tm_hour = t div 3600 mod 24,
       tm_mday = t div 86400, tm_mon = 0, tm_year = 70, tm_isdst = 0\<rparr>),
     mktime = (\<lambda>t. (((tm_mday t * 24 + tm_hour t) * 60 + tm_min t) * 60 + tm_sec t, t))\<rparr>"

theorem calculate_cycle_id_quarter_witness:
  "calculate_cycle_id example_env 1 = 96"
  using calculate_cycle_id_quarter [of 1 example_env]
  by (simp add: example_env_def tm_ok_def time_now_def)

section \<open>Scheduling of the pull cycles\<close>

record hes_state =
  last_hour :: int
  current_cycle_id :: int
  done_mask :: u8

definition initial_hes_state :: hes_state where
  "initial_hes_state = \<lparr>last_hour = - 1, current_cycle_id = - 1, done_mask = 0\<rparr>"

text \<open>\<open>1 << n\<close>, truncated to the byte it is combined with.\<close>

definition one_shl :: "int \<Rightarrow> u8" where
  "one_shl n = push_bit (nat n) 1"

definition mark_hes_cycle_done :: "hes_state \<Rightarrow> hes_state" where
  "mark_hes_cycle_done s =
     (if 0 \<le> current_cycle_id s
      then s\<lparr>done_mask := done_mask s OR one_shl (current_cycle_id s), current_cycle_id := - 1\<rparr>
      else s)"

definition get_cycle_id_from_minute :: "int \<Rightarrow> int" where
  "get_cycle_id_from_minute minute =
     (if 6 \<le> minute \<and> minute \<le> 9 then 0
      else if 18 \<le> minute \<and> minute \<le> 24 then 1
      else if 33 \<le> minute \<and> minute \<le> 39 then 2
      else if 48 \<le> minute \<and> minute \<le> 54 then 3
      else - 1)"

definition client_hes_cycle_schedule :: "env \<Rightarrow> hes_state \<Rightarrow> int \<times> hes_state" where
  "client_hes_cycle_schedule e s =
     (let timeinfo = localtime e (time_now e);
          minute = tm_min timeinfo;
          hour = tm_hour timeinfo;
          s = (if last_hour s \<noteq> hour then s\<lparr>last_hour := hour, done_mask := 0, current_cycle_id := - 1\<rparr> else s);
          cycle_id = get_cycle_id_from_minute minute
      in if cycle_id < 0 then (FAILURE, s)
         else if done_mask s AND one_shl cycle_id \<noteq> 0 then (FAILURE, s)
         else (SUCCESS, s\<lparr>current_cycle_id := cycle_id\<rparr>))"

text \<open>The branch \<open>TIMER_NONE\<close> of \<open>poll_timeout_handler\<close> as far as it concerns the cycles:
  \<open>odm\<close> is \<open>ODM_Flag == 1\<close>, \<open>activity\<close> the result of \<open>hes_start_cycle_activiy\<close>.  The list is
  what happened to the cycles, in order.\<close>

datatype hes_event = HourChange int | Done int

definition poll_cycle :: "env \<Rightarrow> bool \<Rightarrow> int \<Rightarrow> hes_state \<Rightarrow> hes_state \<times> hes_event list" where
  "poll_cycle e odm activity s =
     (if odm then (s, [])
      else let (ret, s1) = client_hes_cycle_schedule e s;
               h = (if last_hour s1 \<noteq> last_hour s then [HourChange (last_hour s1)] else [])
           in if ret = SUCCESS \<and> activity = SUCCESS
              then (mark_hes_cycle_done s1, h @ [Done (current_cycle_id s1)])
              else (s1, h))"

text \<open>The states a client reaches with the events of its life so far.\<close>

inductive hes_reach :: "hes_state \<Rightarrow> hes_event list \<Rightarrow> bool" where
  start: "hes_reach initial_hes_state []"
| poll: "hes_reach s evs \<Longrightarrow> poll_cycle e odm activity s = (s', new) \<Longrightarrow> hes_reach s' (evs @ new)"

fun done_id :: "hes_event \<Rightarrow> int option" where
  "done_id (Done c) = Some c"
| "done_id (HourChange h) = None"

text \<open>The cycles completed since the hour last changed, latest first.\<close>

definition current_hour :: "hes_event list \<Rightarrow> int list" where
  "current_hour evs = map (the \<circ> done_id) (takeWhile (\<lambda>x. done_id x \<noteq> None) (rev evs))"

lemma current_hour_simps [simp]:
  "current_hour [] = []"
  "current_hour (evs @ [HourChange h]) = []"
  "current_hour (evs @ [Done c]) = c # current_hour evs"
  by (simp_all add: current_hour_def)

definition hes_inv :: "hes_state \<Rightarrow> hes_event list \<Rightarrow> bool" where
  "hes_inv s evs \<longleftrightarrow> distinct (current_hour evs) \<and> set (current_hour evs) \<subseteq> {0..3} \<and>
     (\<forall>c \<in> {0..3}. bit (done_mask s) (nat c) \<longleftrightarrow> c \<in> set (current_hour evs))"

lemma minute_cycle_range: "get_cycle_id_from_minute m < 0 \<or> get_cycle_id_from_minute m \<in> {0..3}"
  by (simp add: get_cycle_id_from_minute_def)

lemma bit_one_shl: "bit (one_shl c) n \<longleftrightarrow> n = nat c \<and> n < 8"
  by (auto simp: one_shl_def bit_simps)

lemma and_one_shl: "c < 8 \<Longrightarrow> (w AND one_shl c \<noteq> 0) = bit w (nat c)"
proof -
  assume "c < 8"
  have "w AND one_shl c = (if bit w (nat c) then one_shl c else 0)"
    by (rule bit_word_eqI) (auto simp: bit_and_iff bit_one_shl)
  moreover have "one_shl c \<noteq> 0"
  proof
    assume "one_shl c = 0"
    then have "\<not> bit (one_shl c) (nat c)" by simp
    with \<open>c < 8\<close> show False by (simp add: bit_one_shl)
  qed
  ultimately show ?thesis by simp
qed

text \<open>The scheduler alone: it keeps the invariant once the change of the hour is recorded.\<close>

lemma schedule_inv:
  assumes "hes_inv s evs" and "client_hes_cycle_schedule e s = (ret, s1)"
    and "h = (if last_hour s1 \<noteq> last_hour s then [HourChange (last_hour s1)] else [])"
  shows "hes_inv s1 (evs @ h)"
    and "ret = SUCCESS \<Longrightarrow> current_cycle_id s1 \<in> {0..3} \<and> current_cycle_id s1 \<notin> set (current_hour (evs @ h))"
proof -
  define hour where "hour = tm_hour (localtime e (time_now e))"
  define minute where "minute = tm_min (localtime e (time_now e))"
  define s0 where "s0 = (if last_hour s \<noteq> hour then s\<lparr>last_hour := hour, done_mask := 0, current_cycle_id := - 1\<rparr> else s)"
  let ?c = "get_cycle_id_from_minute minute"
  have r: "(ret, s1) = (if ?c < 0 then (FAILURE, s0)
      else if done_mask s0 AND one_shl ?c \<noteq> 0 then (FAILURE, s0) else (SUCCESS, s0\<lparr>current_cycle_id := ?c\<rparr>))"
    using assms(2) unfolding client_hes_cycle_schedule_def Let_def hour_def [symmetric] minute_def [symmetric]
      s0_def [symmetric] by simp
  then have lh: "last_hour s1 = hour" and dm: "done_mask s1 = done_mask s0"
    by (auto simp: s0_def split: if_splits)
  have inv: "hes_inv s0 (evs @ h)"
    using assms(1) by (auto simp: assms(3) lh s0_def hes_inv_def)
  then show "hes_inv s1 (evs @ h)" by (simp add: hes_inv_def dm)
  assume "ret = SUCCESS"
  with r have "\<not> ?c < 0" "\<not> bit (done_mask s0) (nat ?c)" "current_cycle_id s1 = ?c"
    using minute_cycle_range [of minute] by (auto simp: and_one_shl split: if_splits)
  with inv minute_cycle_range [of minute]
  show "current_cycle_id s1 \<in> {0..3} \<and> current_cycle_id s1 \<notin> set (current_hour (evs @ h))"
    by (auto simp: hes_inv_def)
qed

lemma mark_inv:
  assumes "hes_inv s evs" and "current_cycle_id s \<in> {0..3}" and "current_cycle_id s \<notin> set (current_hour evs)"
  shows "hes_inv (mark_hes_cycle_done s) (evs @ [Done (current_cycle_id s)])"
proof -
  have "bit (done_mask (mark_hes_cycle_done s)) (nat c) \<longleftrightarrow> bit (done_mask s) (nat c) \<or> c = current_cycle_id s"
    if "c \<in> {0..3}" for c
    using that assms(2) by (auto simp: mark_hes_cycle_done_def bit_or_iff bit_one_shl nat_eq_iff)
  with assms show ?thesis by (auto simp: hes_inv_def)
qed

lemma poll_inv:
  assumes "hes_inv s evs" and "poll_cycle e odm activity s = (s', new)"
  shows "hes_inv s' (evs @ new)"
proof (cases odm)
  case False
  obtain ret s1 where r: "client_hes_cycle_schedule e s = (ret, s1)" by fastforce
  define h where "h = (if last_hour s1 \<noteq> last_hour s then [HourChange (last_hour s1)] else [])"
  note sched = schedule_inv [OF assms(1) r h_def]
  show ?thesis
  proof (cases "ret = SUCCESS \<and> activity = SUCCESS")
    case True
    then have "s' = mark_hes_cycle_done s1" "new = h @ [Done (current_cycle_id s1)]"
      using assms(2) False by (simp_all add: poll_cycle_def r h_def Let_def)
    with mark_inv [OF sched(1)] sched(2) True show ?thesis by simp
  next
    case False
    then have "s' = s1" "new = h"
      using assms(2) \<open>\<not> odm\<close> by (auto simp: poll_cycle_def r h_def Let_def)
    with sched(1) show ?thesis by simp
  qed
qed (use assms in \<open>simp add: poll_cycle_def\<close>)

lemma hes_reach_inv: "hes_reach s evs \<Longrightarrow> hes_inv s evs"
proof (induction rule: hes_reach.induct)
  case start
  show ?case by (simp add: hes_inv_def initial_hes_state_def)
next
  case (poll s evs e odm activity s' new)
  then show ?case by (blast intro: poll_inv)
qed

text \<open>Every prefix of the events of a client is as good as its end.\<close>

definition hour_ok :: "hes_event list \<Rightarrow> bool" where
  "hour_ok evs \<longleftrightarrow> distinct (current_hour evs) \<and> set (current_hour evs) \<subseteq> {0..3}"

lemma poll_cycle_events:
  assumes "poll_cycle e odm activity s = (s', new)"
  obtains "new = []" | h where "new = [HourChange h]" | c where "new = [Done c]" | h c where "new = [HourChange h, Done c]"
  using assms by (auto simp: poll_cycle_def Let_def split: if_splits prod.splits)

lemma hes_reach_prefix: "hes_reach s evs \<Longrightarrow> prefix pre evs \<Longrightarrow> hour_ok pre"
proof (induction arbitrary: pre rule: hes_reach.induct)
  case start
  then show ?case by (simp add: hour_ok_def)
next
  case (poll s evs e odm activity s' new)
  have "hes_inv s' (evs @ new)" using poll.hyps by (blast intro: hes_reach.intros hes_reach_inv)
  then have ok: "hour_ok (evs @ new)" by (simp add: hes_inv_def hour_ok_def)
  have "hour_ok (evs @ [HourChange h])" for h by (simp add: hour_ok_def)
  with ok poll.hyps(2) poll.prems poll.IH show ?case
    by (auto elim!: poll_cycle_events simp: prefix_append prefix_Cons)
qed



end
