(* ===== verification/Push.thy ===== *)
theory Push
  imports Dlms Cycles Hex
begin

text \<open>
  The push side (\<open>HES/src/push.cpp\<close>): meters send profiles unasked, a page at a time.
  \<open>PushData\<close> keeps a buffer per node and profile, parses every page into it, and stores the
  profile in the database when the last page arrives and as many pages as it counts came
  before.  \<open>cleanup_push_profiles\<close> drops what is older than two minutes.

  The two kinds of buffer promise the same contract, the locale \<open>paged_profile\<close>; the lemmas
  on pages are proved once in it and interpreted for both.
\<close>

section \<open>State\<close>

text \<open>\<open>PushNodeInfo\<close> with \<open>PUSH_EVENT_DETAILED_PARSING\<close> 0, as \<open>mysql_database.h\<close> sets it.\<close>

record push_node =
  pn_instantaneous_profile :: packet_buffer
  pn_daily_load_profile :: packet_buffer
  pn_billing_history :: packet_buffer
  pn_block_load_profile :: packet_buffer_block_load
  pn_power_on_event :: packet_buffer
  pn_power_off_event :: packet_buffer

definition new_push_node :: push_node where
  "new_push_node = \<lparr> pn_instantaneous_profile = empty_buffer, pn_daily_load_profile = empty_buffer,
     pn_billing_history = empty_buffer, pn_block_load_profile = empty_block_load,
     pn_power_on_event = empty_buffer, pn_power_off_event = empty_buffer \<rparr>"

text \<open>The calls of the insertions of \<open>MySqlDatabase\<close>: address, gateway, what is stored (for
  the pull and the push side) and whether it was pushed.\<close>

datatype db_op =
    InsertInstantaneous mac cstr int packet_buffer bool
  | InsertDailyLoad mac cstr packet_buffer bool
  | InsertBlockLoad mac cstr int packet_buffer_block_load bool
  | InsertBillingHistory mac cstr packet_buffer bool
  | InsertPowerOnEvent mac cstr packet_buffer
  | InsertPowerOffEvent mac cstr packet_buffer
  | InsertNamePlate mac cstr packet_buffer
  | UpdateInternalFirmwareVersion mac cstr bytes
  | DeleteUnsilenced mac cstr
  | SyncTime cstr int

record push_state =
  push_node_info :: "mac \<rightharpoonup> push_node"
  db_log :: "db_op list"

section \<open>Operations\<close>

definition proprietary_mac_address :: bytes where
  "proprietary_mac_address = [0x3C, 0xC1, 0xF6, 0x01]"

definition to_mac_array :: "bytes \<Rightarrow> mac" where
  "to_mac_array m = proprietary_mac_address @ m"

definition calculate_checksum :: "ptr \<Rightarrow> int \<Rightarrow> nat \<Rightarrow> u8 option" where
  "calculate_checksum p start n = map_option checksum8 (rd_seq p start n)"

text \<open>The test every handler starts with: the byte at \<open>buff[pmesh.length]\<close> against the sum of the
  DLMS part, whose length is the one the packet states.\<close>

definition checksum_matches :: "ptr \<Rightarrow> bool option" where
  "checksum_matches buff = do {
     hi \<leftarrow> rd buff 18;
     lo \<leftarrow> rd buff 19;
     pmesh_length \<leftarrow> rd buff 1;
     received_checksum \<leftarrow> rd buff (uint pmesh_length);
     calculated_checksum \<leftarrow> calculate_checksum buff 17 (be16 hi lo);
     Some (received_checksum = calculated_checksum)
   }"

text \<open>\<open>std::vector<uint8_t> v(buff, buff + length)\<close>\<close>

definition vec :: "ptr \<Rightarrow> int \<Rightarrow> bytes option" where
  "vec buff len = (if len < 0 then None else rd_seq buff 0 (nat len))"

text \<open>What a handler does with its buffer once the checksum matches; the second component is
  the buffer that is stored in the database.\<close>

definition push_page ::
    "(bytes \<Rightarrow> u8 \<Rightarrow> 'b \<Rightarrow> (int \<times> 'b) option) \<Rightarrow> ('b \<Rightarrow> int) \<Rightarrow> (int \<Rightarrow> 'b \<Rightarrow> 'b) \<Rightarrow> ('b \<Rightarrow> 'b) \<Rightarrow>
     int \<Rightarrow> ptr \<Rightarrow> int \<Rightarrow> 'b \<Rightarrow> ('b \<times> 'b option) option" where
  "push_page parse received_of arrived clear now buff len b = do {
     v \<leftarrow> vec buff len;
     no_of_records \<leftarrow> rd buff 25;
     (ret_val, b) \<leftarrow> parse v no_of_records b;
     let b = (if ret_val = SUCCESS then arrived now b else b);
     next_page_status \<leftarrow> rd buff 24;
     if next_page_status = 0 then do {
       current_page_index \<leftarrow> rd buff 20;
       let received = received_of b;
       let expected = uint current_page_index + 1;
       Some (if received = expected then (clear b, Some b) else (clear b, None))
     }
     else Some (b, None)
   }"

definition push_handler ::
    "(push_node \<Rightarrow> 'b) \<Rightarrow> ('b \<Rightarrow> push_node \<Rightarrow> push_node) \<Rightarrow>
     (ptr \<Rightarrow> int \<Rightarrow> 'b \<Rightarrow> ('b \<times> 'b option) option) \<Rightarrow> (mac \<Rightarrow> 'b \<Rightarrow> db_op) \<Rightarrow>
     ptr \<Rightarrow> int \<Rightarrow> push_state \<Rightarrow> push_state option" where
  "push_handler get put page op buff len s = do {
     ok \<leftarrow> checksum_matches buff;
     if \<not> ok then Some s else do {
       destination_addr \<leftarrow> rd_seq buff 11 4;
       let mac = to_mac_array destination_addr;
       let node = (case push_node_info s mac of Some node \<Rightarrow> node | None \<Rightarrow> new_push_node);
       (b, stored) \<leftarrow> page buff len (get node);
       Some (s\<lparr> push_node_info := (push_node_info s)(mac \<mapsto> put b node),
                db_log := db_log s @ (case stored of Some b \<Rightarrow> [op mac b] | None \<Rightarrow> []) \<rparr>)
     }
   }"

text \<open>A page that parsed: the time is recorded and the page counted.\<close>

definition page_arrived :: "int \<Rightarrow> packet_buffer \<Rightarrow> packet_buffer" where
  "page_arrived now b = b\<lparr> last_packet_time := now, total_packets_received := total_packets_received b + 1 \<rparr>"

definition block_page_arrived :: "int \<Rightarrow> packet_buffer_block_load \<Rightarrow> packet_buffer_block_load" where
  "block_page_arrived now b =
     b\<lparr> blp_last_packet_time := now, blp_total_packets_received := blp_total_packets_received b + 1 \<rparr>"

definition push_page_records :: "int \<Rightarrow> ptr \<Rightarrow> int \<Rightarrow> packet_buffer \<Rightarrow> (packet_buffer \<times> packet_buffer option) option" where
  "push_page_records = push_page parseDLMSRecords total_packets_received page_arrived clear_buffer"

definition push_page_blocks ::
    "int \<Rightarrow> ptr \<Rightarrow> int \<Rightarrow> packet_buffer_block_load \<Rightarrow> (packet_buffer_block_load \<times> packet_buffer_block_load option) option" where
  "push_page_blocks = push_page parseBlockLoadDLMSRecords blp_total_packets_received block_page_arrived clear_block_load"

definition process_IP_push_data :: "env \<Rightarrow> ptr \<Rightarrow> int \<Rightarrow> cstr \<Rightarrow> push_state \<Rightarrow> push_state option" where
  "process_IP_push_data e buff len gateway_id =
     push_handler pn_instantaneous_profile (\<lambda>b node. node\<lparr>pn_instantaneous_profile := b\<rparr>)
       (push_page_records (now_ns e))
       (\<lambda>mac b. InsertInstantaneous mac gateway_id (calculate_cycle_id e 0) b True) buff len"

definition process_DLP_push_data :: "env \<Rightarrow> ptr \<Rightarrow> int \<Rightarrow> cstr \<Rightarrow> push_state \<Rightarrow> push_state option" where
  "process_DLP_push_data e buff len gateway_id =
     push_handler pn_daily_load_profile (\<lambda>b node. node\<lparr>pn_daily_load_profile := b\<rparr>)
       (push_page_records (now_ns e))
       (\<lambda>mac b. InsertDailyLoad mac gateway_id b True) buff len"

definition process_BLP_push_data :: "env \<Rightarrow> ptr \<Rightarrow> int \<Rightarrow> cstr \<Rightarrow> push_state \<Rightarrow> push_state option" where
  "process_BLP_push_data e buff len gateway_id =
     push_handler pn_block_load_profile (\<lambda>b node. node\<lparr>pn_block_load_profile := b\<rparr>)
       (push_page_blocks (now_ns e))
       (\<lambda>mac b. InsertBlockLoad mac gateway_id (calculate_cycle_id_for_block_load e) b True) buff len"

definition process_BHP_push_data :: "env \<Rightarrow> ptr \<Rightarrow> int \<Rightarrow> cstr \<Rightarrow> push_state \<Rightarrow> push_state option" where
  "process_BHP_push_data e buff len gateway_id =
     push_handler pn_billing_history (\<lambda>b node. node\<lparr>pn_billing_history := b\<rparr>)
       (push_page_records (now_ns e))
       (\<lambda>mac b. InsertBillingHistory mac gateway_id b True) buff len"

definition process_power_on_event :: "env \<Rightarrow> ptr \<Rightarrow> int \<Rightarrow> cstr \<Rightarrow> push_state \<Rightarrow> push_state option" where
  "process_power_on_event e buff len gateway_id =
     push_handler pn_power_on_event (\<lambda>b node. node\<lparr>pn_power_on_event := b\<rparr>)
       (push_page_records (now_ns e))
       (\<lambda>mac b. InsertPowerOnEvent mac gateway_id b) buff len"

definition process_power_off_event :: "env \<Rightarrow> ptr \<Rightarrow> int \<Rightarrow> cstr \<Rightarrow> push_state \<Rightarrow> push_state option" where
  "process_power_off_event e buff len gateway_id =
     push_handler pn_power_off_event (\<lambda>b node. node\<lparr>pn_power_off_event := b\<rparr>)
       (push_page_records (now_ns e))
       (\<lambda>mac b. InsertPowerOffEvent mac gateway_id b) buff len"

definition process_push_data :: "env \<Rightarrow> ptr \<Rightarrow> int \<Rightarrow> cstr \<Rightarrow> push_state \<Rightarrow> push_state option" where
  "process_push_data e buff len gateway_id s = do {
     frame_id \<leftarrow> rd buff 21;
     if frame_id = FI_INSTANT_DATA then do {
       command \<leftarrow> rd buff 22;
       if command = COMMAND_IP_PROFILE then process_IP_push_data e buff len gateway_id s
       else if command = COMMAND_BLOCK_LOAD_PROFILE then process_BLP_push_data e buff len gateway_id s
       else if command = COMMAND_DAILY_LOAD_PROFILE then process_DLP_push_data e buff len gateway_id s
       else if command = COMMAND_BILLING_PROFILE then process_BHP_push_data e buff len gateway_id s
       else Some s
     }
     else if frame_id = FI_INSTANT_EVENT_OBJECT_READ then process_power_on_event e buff len gateway_id s
     else if frame_id = FI_INSTANT_POWERFAIL_OBJECT_READ then process_power_off_event e buff len gateway_id s
     else Some s
   }"

text \<open>Two minutes in nanoseconds.\<close>

definition push_timeout :: int where
  "push_timeout = 2 * 60 * 1000000000"

definition cleanup_buffer :: "int \<Rightarrow> packet_buffer \<Rightarrow> packet_buffer" where
  "cleanup_buffer now b =
     (if 0 < total_packets_received b \<and> push_timeout < now - last_packet_time b then clear_buffer b else b)"

definition cleanup_block_load :: "int \<Rightarrow> packet_buffer_block_load \<Rightarrow> packet_buffer_block_load" where
  "cleanup_block_load now b =
     (if 0 < blp_total_packets_received b \<and> push_timeout < now - blp_last_packet_time b then clear_block_load b else b)"

definition cleanup_push_profiles :: "env \<Rightarrow> push_state \<Rightarrow> push_state" where
  "cleanup_push_profiles e s = s\<lparr> push_node_info := (\<lambda>mac. map_option (\<lambda>node. node\<lparr>
       pn_instantaneous_profile := cleanup_buffer (now_ns e) (pn_instantaneous_profile node),
       pn_daily_load_profile := cleanup_buffer (now_ns e) (pn_daily_load_profile node),
       pn_block_load_profile := cleanup_block_load (now_ns e) (pn_block_load_profile node),
       pn_billing_history := cleanup_buffer (now_ns e) (pn_billing_history node),
       pn_power_on_event := cleanup_buffer (now_ns e) (pn_power_on_event node),
       pn_power_off_event := cleanup_buffer (now_ns e) (pn_power_off_event node) \<rparr>)
     (push_node_info s mac)) \<rparr>"

section \<open>The contract of a paged profile\<close>

text \<open>What the handlers rely on: a parser that always answers and leaves the page counter
  alone, a counter that counts, and a reset.\<close>

locale paged_profile =
  fixes parse :: "bytes \<Rightarrow> u8 \<Rightarrow> 'b \<Rightarrow> (int \<times> 'b) option"
    and received_of :: "'b \<Rightarrow> int"
    and arrived :: "int \<Rightarrow> 'b \<Rightarrow> 'b"
    and clear :: "'b \<Rightarrow> 'b"
    and valid :: "'b \<Rightarrow> bool"
  assumes parse_answers: "\<exists>ret b'. parse v n b = Some (ret, b')"
    and parse_keeps: "parse v n b = Some (ret, b') \<Longrightarrow> received_of b' = received_of b"
    and parse_valid: "parse v n b = Some (ret, b') \<Longrightarrow> valid b \<Longrightarrow> valid b'"
    and arrived_counts: "received_of (arrived now b) = received_of b + 1"
    and arrived_valid: "valid b \<Longrightarrow> valid (arrived now b)"
    and clear_count: "received_of (clear b) = 0"
    and clear_valid: "valid (clear b)"
begin

abbreviation "page \<equiv> push_page parse received_of arrived clear"

text \<open>What the buffer is before the last page is looked at.\<close>

lemma page_parsed:
  assumes "page now buff len b = Some (b', stored)"
  obtains b2 where "valid b \<longrightarrow> valid b2"
    and "received_of b2 = received_of b \<or> received_of b2 = received_of b + 1"
    and "(rd buff 24 = Some 0 \<and> b' = clear b2 \<and> (\<exists>idx. rd buff 20 = Some idx \<and>
            stored = (if received_of b2 = uint idx + 1 then Some b2 else None)))
        \<or> (\<exists>st. rd buff 24 = Some st \<and> st \<noteq> 0 \<and> b' = b2 \<and> stored = None)"
proof -
  from assms obtain v n ret b1 where p: "parse v n b = Some (ret, b1)"
    and r: "(let b = (if ret = SUCCESS then arrived now b1 else b1) in do {
     next_page_status \<leftarrow> rd buff 24;
     if next_page_status = 0 then do {
       current_page_index \<leftarrow> rd buff 20;
       let received = received_of b;
       let expected = uint current_page_index + 1;
       Some (if received = expected then (clear b, Some b) else (clear b, None))
     }
     else Some (b, None)
   }) = Some (b', stored)"
    unfolding push_page_def by (auto split: bind_splits prod.splits)
  define b2 where "b2 = (if ret = SUCCESS then arrived now b1 else b1)"
  have "valid b \<longrightarrow> valid b2" using parse_valid [OF p] arrived_valid by (simp add: b2_def)
  moreover have "received_of b2 = received_of b \<or> received_of b2 = received_of b + 1"
    using parse_keeps [OF p] by (simp add: b2_def arrived_counts)
  moreover note r [unfolded Let_def b2_def [symmetric]]
  ultimately show ?thesis
    by (intro that [of b2]) (auto split: bind_splits if_splits)
qed

lemma page_valid:
  assumes "page now buff len b = Some (b', stored)" and "valid b"
  shows "valid b' \<and> (\<forall>x. stored = Some x \<longrightarrow> valid x)"
  using assms(1) by (rule page_parsed) (use assms(2) clear_valid in \<open>auto split: if_splits\<close>)

lemma page_stored:
  assumes "page now buff len b = Some (b', Some x)"
  shows "rd buff 24 = Some 0 \<and> received_of b' = 0 \<and> (\<exists>idx. rd buff 20 = Some idx \<and> received_of x = uint idx + 1)"
  using assms by (rule page_parsed) (auto simp: clear_count split: if_splits)

lemma page_last: "page now buff len b = Some (b', stored) \<Longrightarrow> rd buff 24 = Some 0 \<Longrightarrow> received_of b' = 0"
  by (erule page_parsed) (auto simp: clear_count)

lemma page_more:
  assumes "page now buff len b = Some (b', stored)" and "rd buff 24 \<noteq> Some 0"
  shows "stored = None \<and> (received_of b' = received_of b \<or> received_of b' = received_of b + 1)"
  using assms(1) by (rule page_parsed) (use assms(2) in auto)

lemma page_answers:
  assumes "spans buff n" and "26 \<le> n" and "0 \<le> len" and "len \<le> n"
  shows "\<exists>b' stored. page now buff len b = Some (b', stored)"
proof -
  from rd_seq_spans [OF assms(1), of 0 "nat len"] assms(3,4) obtain v where "vec buff len = Some v"
    by (auto simp: vec_def)
  moreover obtain ret b' where "parse v (byte buff 25) b = Some (ret, b')" using parse_answers by blast
  ultimately show ?thesis using assms(1,2) by (auto simp: push_page_def mem_simps Let_def)
qed

end

definition valid_buffer :: "packet_buffer \<Rightarrow> bool" where
  "valid_buffer b \<longleftrightarrow> wf_map (profile_data b) \<and> 0 \<le> total_packets_received b"

definition valid_block_load :: "packet_buffer_block_load \<Rightarrow> bool" where
  "valid_block_load b \<longleftrightarrow> wf_block_load b \<and> 0 \<le> blp_total_packets_received b"

lemma parse_answers_buffers:
  "\<exists>ret b'. parseDLMSRecords v n b = Some (ret, b')"
  "\<exists>ret c'. parseBlockLoadDLMSRecords v n c = Some (ret, c')"
  using parse_records_total [of store_record v n b] parse_records_total [of store_block_record v n c]
  by (auto simp: parseDLMSRecords_def parseBlockLoadDLMSRecords_def)

interpretation records: paged_profile parseDLMSRecords total_packets_received page_arrived clear_buffer valid_buffer
proof
  show "\<exists>ret b'. parseDLMSRecords v n b = Some (ret, b')" for v n b by (rule parse_answers_buffers)
qed (auto simp: page_arrived_def clear_buffer_def empty_buffer_def valid_buffer_def
    dest: parseDLMSRecords_frame parseDLMSRecords_wf)

interpretation blocks: paged_profile parseBlockLoadDLMSRecords blp_total_packets_received block_page_arrived
    clear_block_load valid_block_load
proof
  show "\<exists>ret b'. parseBlockLoadDLMSRecords v n b = Some (ret, b')" for v n b by (rule parse_answers_buffers)
qed (auto simp: block_page_arrived_def clear_block_load_def valid_block_load_def wf_block_load_def
    dest: parseBlockLoadDLMSRecords_frame parseBlockLoadDLMSRecords_wf [unfolded wf_block_load_def])

section \<open>One packet\<close>

lemma push_handler_elim:
  assumes "push_handler get put page op buff len s = Some s'"
  obtains (rejected) "checksum_matches buff = Some False" "s' = s"
  | (accepted) dst mac node b stored where "checksum_matches buff = Some True" "rd_seq buff 11 4 = Some dst"
      "mac = to_mac_array dst"
      "node = (case push_node_info s mac of Some node \<Rightarrow> node | None \<Rightarrow> new_push_node)"
      "page buff len (get node) = Some (b, stored)"
      "s' = s\<lparr>push_node_info := (push_node_info s)(mac \<mapsto> put b node),
              db_log := db_log s @ (case stored of Some b \<Rightarrow> [op mac b] | None \<Rightarrow> [])\<rparr>"
  using assms unfolding push_handler_def Let_def
  by (auto split: bind_splits if_splits prod.splits)

lemmas handler_defs = process_IP_push_data_def process_DLP_push_data_def process_BLP_push_data_def
  process_BHP_push_data_def process_power_on_event_def process_power_off_event_def

lemma process_push_data_cases:
  assumes "process_push_data e buff len gateway_id s = Some s'"
  shows "s' = s \<or> process_IP_push_data e buff len gateway_id s = Some s' \<or> process_DLP_push_data e buff len gateway_id s = Some s'
    \<or> process_BHP_push_data e buff len gateway_id s = Some s' \<or> process_power_on_event e buff len gateway_id s = Some s'
    \<or> process_power_off_event e buff len gateway_id s = Some s' \<or> process_BLP_push_data e buff len gateway_id s = Some s'"
  using assms unfolding process_push_data_def by (auto split: bind_splits if_splits)

text \<open>The five profiles kept in a packet buffer, with the insertion of each.\<close>

definition record_profiles ::
    "env \<Rightarrow> cstr \<Rightarrow> ((push_node \<Rightarrow> packet_buffer) \<times> (packet_buffer \<Rightarrow> push_node \<Rightarrow> push_node) \<times> (mac \<Rightarrow> packet_buffer \<Rightarrow> db_op)) set" where
  "record_profiles e gateway_id =
     {(pn_instantaneous_profile, \<lambda>b node. node\<lparr>pn_instantaneous_profile := b\<rparr>,
        \<lambda>mac b. InsertInstantaneous mac gateway_id (calculate_cycle_id e 0) b True),
      (pn_daily_load_profile, \<lambda>b node. node\<lparr>pn_daily_load_profile := b\<rparr>,
        \<lambda>mac b. InsertDailyLoad mac gateway_id b True),
      (pn_billing_history, \<lambda>b node. node\<lparr>pn_billing_history := b\<rparr>,
        \<lambda>mac b. InsertBillingHistory mac gateway_id b True),
      (pn_power_on_event, \<lambda>b node. node\<lparr>pn_power_on_event := b\<rparr>,
        \<lambda>mac b. InsertPowerOnEvent mac gateway_id b),
      (pn_power_off_event, \<lambda>b node. node\<lparr>pn_power_off_event := b\<rparr>,
        \<lambda>mac b. InsertPowerOffEvent mac gateway_id b)}"

text \<open>A packet is ignored or given to one of the six handlers.\<close>

lemma process_push_data_elim:
  assumes "process_push_data e buff len gateway_id s = Some s'"
  obtains (ignored) "s' = s"
  | (records) get put op where "(get, put, op) \<in> record_profiles e gateway_id"
      "push_handler get put (push_page_records (now_ns e)) op buff len s = Some s'"
  | (blocks) "process_BLP_push_data e buff len gateway_id s = Some s'"
proof -
  note r = records [rotated]
  from process_push_data_cases [OF assms] show ?thesis
  proof (elim disjE)
    assume "s' = s"
    then show ?thesis by (rule ignored)
  next
    assume "process_IP_push_data e buff len gateway_id s = Some s'"
    then show ?thesis unfolding process_IP_push_data_def by (rule r) (simp add: record_profiles_def)
  next
    assume "process_DLP_push_data e buff len gateway_id s = Some s'"
    then show ?thesis unfolding process_DLP_push_data_def by (rule r) (simp add: record_profiles_def)
  next
    assume "process_BHP_push_data e buff len gateway_id s = Some s'"
    then show ?thesis unfolding process_BHP_push_data_def by (rule r) (simp add: record_profiles_def)
  next
    assume "process_power_on_event e buff len gateway_id s = Some s'"
    then show ?thesis unfolding process_power_on_event_def by (rule r) (simp add: record_profiles_def)
  next
    assume "process_power_off_event e buff len gateway_id s = Some s'"
    then show ?thesis unfolding process_power_off_event_def by (rule r) (simp add: record_profiles_def)
  next
    assume "process_BLP_push_data e buff len gateway_id s = Some s'"
    then show ?thesis by (rule blocks)
  qed
qed

text \<open>The pages an insertion stands for.\<close>

fun pages_stored :: "db_op \<Rightarrow> int" where
  "pages_stored (InsertInstantaneous m g c b p) = total_packets_received b"
| "pages_stored (InsertDailyLoad m g b p) = total_packets_received b"
| "pages_stored (InsertBlockLoad m g c b p) = blp_total_packets_received b"
| "pages_stored (InsertBillingHistory m g b p) = total_packets_received b"
| "pages_stored (InsertPowerOnEvent m g b) = total_packets_received b"
| "pages_stored (InsertPowerOffEvent m g b) = total_packets_received b"
| "pages_stored (InsertNamePlate m g b) = total_packets_received b"
| "pages_stored (UpdateInternalFirmwareVersion m g v) = 0"
| "pages_stored (DeleteUnsilenced m g) = 0"
| "pages_stored (SyncTime g s) = 0"

definition stores_complete :: "ptr \<Rightarrow> db_op list \<Rightarrow> bool" where
  "stores_complete buff ops \<longleftrightarrow> ops = [] \<or> (\<exists>op idx. ops = [op] \<and> checksum_matches buff = Some True \<and>
     rd buff 24 = Some 0 \<and> rd buff 20 = Some idx \<and> pages_stored op = uint idx + 1)"

lemma push_handler_stores:
  assumes "push_handler get put page op buff len s = Some s'"
    and "\<And>b b' x. page buff len b = Some (b', Some x) \<Longrightarrow>
      rd buff 24 = Some 0 \<and> (\<exists>idx. rd buff 20 = Some idx \<and> (\<forall>mac. pages_stored (op mac x) = uint idx + 1))"
  shows "\<exists>ops. db_log s' = db_log s @ ops \<and> stores_complete buff ops"
  using assms(1)
proof (cases rule: push_handler_elim)
  case rejected
  then show ?thesis by (simp add: stores_complete_def)
next
  case (accepted dst mac node b stored)
  then show ?thesis
    using assms(2) [of "get node" b] by (cases stored) (fastforce simp: stores_complete_def)+
qed


text \<open>The insertions of the pull side: a pushed packet makes none of them.\<close>

fun pulled :: "db_op \<Rightarrow> bool" where
  "pulled (InsertInstantaneous m g c b pushed) = (\<not> pushed)"
| "pulled (InsertDailyLoad m g b pushed) = (\<not> pushed)"
| "pulled (InsertBlockLoad m g c b pushed) = (\<not> pushed)"
| "pulled (InsertBillingHistory m g b pushed) = (\<not> pushed)"
| "pulled (InsertPowerOnEvent m g b) = False"
| "pulled (InsertPowerOffEvent m g b) = False"
| "pulled (InsertNamePlate m g b) = True"
| "pulled (UpdateInternalFirmwareVersion m g v) = True"
| "pulled (DeleteUnsilenced m g) = True"
| "pulled (SyncTime g s) = True"

lemma push_handler_pulled:
  "push_handler get put page op buff len s = Some s' \<Longrightarrow> (\<And>mac x. \<not> pulled (op mac x)) \<Longrightarrow>
    filter pulled (db_log s') = filter pulled (db_log s)"
  by (erule push_handler_elim) (auto split: option.splits)

lemma process_push_data_pulled:
  assumes "process_push_data e buff len gateway_id s = Some s'"
  shows "filter pulled (db_log s') = filter pulled (db_log s)"
  using assms
proof (cases rule: process_push_data_elim)
  case (records get put op)
  then show ?thesis by (auto simp: record_profiles_def elim: push_handler_pulled)
next
  case blocks
  then show ?thesis unfolding process_BLP_push_data_def by (rule push_handler_pulled) simp
qed simp

section \<open>Invariant of the buffers\<close>

definition valid_push_node :: "push_node \<Rightarrow> bool" where
  "valid_push_node n \<longleftrightarrow> valid_buffer (pn_instantaneous_profile n) \<and> valid_buffer (pn_daily_load_profile n)
     \<and> valid_buffer (pn_billing_history n) \<and> valid_block_load (pn_block_load_profile n)
     \<and> valid_buffer (pn_power_on_event n) \<and> valid_buffer (pn_power_off_event n)"

definition valid_push_state :: "push_state \<Rightarrow> bool" where
  "valid_push_state s \<longleftrightarrow> (\<forall>mac node. push_node_info s mac = Some node \<longrightarrow> valid_push_node node)"

lemma valid_empty_buffers: "valid_buffer empty_buffer" "valid_block_load empty_block_load"
  by (simp_all add: valid_buffer_def empty_buffer_def valid_block_load_def wf_block_load_def empty_block_load_def)

lemma valid_new_push_node: "valid_push_node new_push_node"
  by (simp add: valid_push_node_def new_push_node_def valid_empty_buffers)

lemma push_handler_valid:
  assumes "push_handler get put page op buff len s = Some s'" and "valid_push_state s"
    and "\<And>node b stored. valid_push_node node \<Longrightarrow> page buff len (get node) = Some (b, stored) \<Longrightarrow> valid_push_node (put b node)"
  shows "valid_push_state s'"
  using assms(1)
proof (cases rule: push_handler_elim)
  case (accepted dst mac node b stored)
  have "valid_push_node node"
    using assms(2) valid_new_push_node by (auto simp: accepted(4) valid_push_state_def split: option.split)
  with accepted assms(2,3) show ?thesis by (auto simp: valid_push_state_def)
qed (use assms(2) in simp)

text \<open>C5: every push buffer of every node stays valid under any packet: all stored values
  carry the payload of their type and no page counter is negative.\<close>

theorem process_push_data_valid:
  assumes "process_push_data e buff len gateway_id s = Some s'" and "valid_push_state s"
  shows "valid_push_state s'"
  using assms(1)
proof (cases rule: process_push_data_elim)
  case ignored
  with assms(2) show ?thesis by simp
next
  case (records get put op)
  from records(2) assms(2) show ?thesis
  proof (rule push_handler_valid)
    fix node b stored
    assume "valid_push_node node" "push_page_records (now_ns e) buff len (get node) = Some (b, stored)"
    then show "valid_push_node (put b node)"
      using records.page_valid [of "now_ns e" buff len "get node" b stored] records(1)
      unfolding push_page_records_def record_profiles_def valid_push_node_def by auto
  qed
next
  case blocks
  from blocks [unfolded process_BLP_push_data_def] assms(2) show ?thesis
  proof (rule push_handler_valid)
    fix node b stored
    assume "valid_push_node node" "push_page_blocks (now_ns e) buff len (pn_block_load_profile node) = Some (b, stored)"
    then show "valid_push_node (node\<lparr>pn_block_load_profile := b\<rparr>)"
      using blocks.page_valid [of "now_ns e" buff len "pn_block_load_profile node" b stored]
      unfolding push_page_blocks_def valid_push_node_def by auto
  qed
qed

text \<open>A packet changes only the node whose address it carries.\<close>

lemma push_handler_frame:
  assumes "push_handler get put page op buff len s = Some s'" and "rd_seq buff 11 4 = Some dst"
    and "mac \<noteq> to_mac_array dst"
  shows "push_node_info s' mac = push_node_info s mac"
  using assms(1) by (cases rule: push_handler_elim) (use assms(2,3) in auto)

lemma process_push_data_frame:
  assumes "process_push_data e buff len gateway_id s = Some s'" and "rd_seq buff 11 4 = Some dst"
    and "mac \<noteq> to_mac_array dst"
  shows "push_node_info s' mac = push_node_info s mac"
  using assms(1)
proof (cases rule: process_push_data_elim)
  case (records get put op)
  from records(2) assms(2,3) show ?thesis by (rule push_handler_frame)
next
  case blocks
  from blocks [unfolded process_BLP_push_data_def] assms(2,3) show ?thesis by (rule push_handler_frame)
qed simp

section \<open>Reads of a push packet\<close>

lemma checksum_matches_answers:
  assumes "spans buff n" and "26 \<le> n" and "uint (byte buff 1) < n"
    and "17 + int (be16 (byte buff 18) (byte buff 19)) \<le> n"
  shows "\<exists>ok. checksum_matches buff = Some ok"
proof -
  from rd_seq_spans [OF assms(1), of 17 "be16 (byte buff 18) (byte buff 19)"] assms(4)
  obtain bs where "rd_seq buff 17 (be16 (byte buff 18) (byte buff 19)) = Some bs" by auto
  with assms show ?thesis by (simp add: checksum_matches_def calculate_checksum_def mem_simps)
qed

lemma push_handler_answers:
  assumes "spans buff n" and "26 \<le> n" and "0 \<le> len" and "len \<le> n" and "uint (byte buff 1) < n"
    and "17 + int (be16 (byte buff 18) (byte buff 19)) \<le> n"
    and "\<And>b. \<exists>b' stored. page buff len b = Some (b', stored)"
  shows "\<exists>s'. push_handler get put page op buff len s = Some s'"
proof -
  obtain ok where ok: "checksum_matches buff = Some ok" using checksum_matches_answers [OF assms(1,2,5,6)] by blast
  obtain dst where dst: "rd_seq buff 11 4 = Some dst" using rd_seq_spans [OF assms(1), of 11 4] assms(2) by auto
  define node where "node = (case push_node_info s (to_mac_array dst) of Some node \<Rightarrow> node | None \<Rightarrow> new_push_node)"
  obtain b' stored where "page buff len (get node) = Some (b', stored)" using assms(7) by blast
  with ok dst show ?thesis by (simp add: push_handler_def Let_def node_def)
qed

lemma process_push_data_answers:
  assumes "spans buff n" and "26 \<le> n" and "0 \<le> len" and "len \<le> n" and "uint (byte buff 1) < n"
    and "17 + int (be16 (byte buff 18) (byte buff 19)) \<le> n"
  shows "\<exists>s'. process_push_data e buff len gateway_id s = Some s'"
proof -
  have r: "\<exists>s'. push_handler get put (push_page_records (now_ns e)) op buff len s = Some s'" for get put op
    using assms unfolding push_page_records_def
    by (intro push_handler_answers [of buff n] records.page_answers [of buff n]) auto
  have b: "\<exists>s'. push_handler get put (push_page_blocks (now_ns e)) op buff len s = Some s'" for get put op
    using assms unfolding push_page_blocks_def
    by (intro push_handler_answers [of buff n] blocks.page_answers [of buff n]) auto
  have "rd buff 21 = Some (byte buff 21)" "rd buff 22 = Some (byte buff 22)"
    using assms(1,2) by (simp_all add: mem_simps)
  then show ?thesis by (simp add: process_push_data_def handler_defs r b)
qed

text \<open>A push packet is processed without a read outside the receive buffer if the buffer
  holds its header, the byte that \<open>pmesh.length\<close> points to, and as many DLMS bytes as the
  packet claims to have.\<close>

theorem process_push_data_defined:
  assumes "spans buff n" and "26 \<le> n" and "0 \<le> len" and "len \<le> n" and "uint (byte buff 1) < n"
    and "17 + int (be16 (byte buff 18) (byte buff 19)) \<le> n"
  shows "\<exists>s'. process_push_data e buff len gateway_id s = Some s'"
  using assms by (rule process_push_data_answers)

text \<open>Nothing bounds that claim.  Whenever the length field of the DLMS part reaches
  beyond the receive buffer, the checksum loop reads past its end, whatever else the packet
  contains.\<close>

theorem push_checksum_overread:
  assumes "be16 (m ! nat (off + 18)) (m ! nat (off + 19)) = n" and "length m < nat (off + 17) + n" and "0 \<le> off"
  shows "checksum_matches (m, off) = None"
proof -
  have none: "rd_seq (m, off) 17 n = None" if "0 < n"
  proof (rule rd_seq_None)
    show "n - 1 < n" using that by simp
    show "rd (m, off) (17 + int (n - 1)) = None" using assms(2,3) that by (auto simp: rd.simps)
  qed
  show ?thesis
  proof (cases "n = 0")
    case True
    then have "rd (m, off) 18 = None" using assms(2,3) by (auto simp: rd.simps)
    then show ?thesis by (simp add: checksum_matches_def)
  next
    case False
    have "rd (m, off) 18 = Some x \<Longrightarrow> rd (m, off) 19 = Some y \<Longrightarrow> be16 x y = n" for x y
      using assms(1) by (auto simp: rd.simps add.commute split: if_splits)
    then show ?thesis
      using none False by (auto simp: checksum_matches_def calculate_checksum_def split: bind_splits)
  qed
qed

definition overread_packet :: bytes where
  "overread_packet = (replicate 512 0)[18 := 0xFF, 19 := 0xFF]"

theorem push_checksum_overread_witness: "checksum_matches (overread_packet, 0) = None"
  by (rule push_checksum_overread [of _ _ 65535]) (simp_all add: overread_packet_def be16_def)

section \<open>A whole transfer\<close>

text \<open>A page as a meter sends it: the mesh header, whose length is the position of the
  checksum, the DLMS header, the encoded records and the checksum.\<close>

definition page_body :: "u8 \<Rightarrow> u8 \<Rightarrow> u8 \<Rightarrow> u8 \<Rightarrow> u8 \<Rightarrow> (u8 \<times> dlms_value) list \<Rightarrow> bytes" where
  "page_body start frame_id command index next rs =
     (let recs = concat (map enc_record rs); n = 9 + length recs
      in [start, word_of_nat (n div 256), word_of_nat (n mod 256), index, frame_id, command, 0, next,
          word_of_nat (length rs)] @ recs)"

definition profile_page :: "u8 \<Rightarrow> bytes \<Rightarrow> u8 \<Rightarrow> u8 \<Rightarrow> u8 \<Rightarrow> u8 \<Rightarrow> (u8 \<times> dlms_value) list \<Rightarrow> bytes" where
  "profile_page start dst frame_id command index next rs =
     (let body = page_body start frame_id command index next rs
      in [HES_START_BYTE, word_of_nat (17 + length body), MESH_DATA_RESPONSE, 0, 0, 0, 0, 0, 0, 0, 0] @ dst @ [0, 0]
         @ body @ [checksum8 body])"

text \<open>The records of a page that fits a packet.\<close>

definition fits_page :: "(u8 \<times> dlms_value) list \<Rightarrow> bool" where
  "fits_page rs \<longleftrightarrow> list_all (wf_value \<circ> snd) rs \<and> length (concat (map enc_record rs)) \<le> 229"

lemma enc_record_length: "3 \<le> length (enc_record r)"
  by (simp add: enc_record_def)

lemma records_length: "3 * length rs \<le> length (concat (map enc_record rs))"
proof (induction rs)
  case (Cons r rs)
  with enc_record_length [of r] show ?case by simp
qed simp

lemma length_page_body: "length (page_body st f c i n rs) = 9 + length (concat (map enc_record rs))"
  by (simp add: page_body_def Let_def)

lemma page_fields:
  assumes "length dst = 4"
  shows "profile_page st dst f c i n rs ! 1 = word_of_nat (26 + length (concat (map enc_record rs)))"
    and "rd (profile_page st dst f c i n rs, 0) 20 = Some i" and "rd (profile_page st dst f c i n rs, 0) 21 = Some f"
    and "rd (profile_page st dst f c i n rs, 0) 22 = Some c" and "rd (profile_page st dst f c i n rs, 0) 24 = Some n"
    and "rd (profile_page st dst f c i n rs, 0) 25 = Some (word_of_nat (length rs))"
    and "rd_seq (profile_page st dst f c i n rs, 0) 11 4 = Some dst"
proof -
  let ?body = "page_body st f c i n rs"
  obtain a b d e where dst: "dst = [a, b, d, e]" using assms by (auto simp: numeral_eq_Suc length_Suc_conv)
  show "profile_page st dst f c i n rs ! 1 = word_of_nat (26 + length (concat (map enc_record rs)))"
    by (simp add: profile_page_def length_page_body Let_def)
  show "rd (profile_page st dst f c i n rs, 0) 20 = Some i" "rd (profile_page st dst f c i n rs, 0) 21 = Some f"
    "rd (profile_page st dst f c i n rs, 0) 22 = Some c" "rd (profile_page st dst f c i n rs, 0) 24 = Some n"
    "rd (profile_page st dst f c i n rs, 0) 25 = Some (word_of_nat (length rs))"
    by (simp_all add: rd.simps profile_page_def page_body_def Let_def dst nth_append)
  show "rd_seq (profile_page st dst f c i n rs, 0) 11 4 = Some dst"
    using rd_seq_slice [of "[HES_START_BYTE, word_of_nat (17 + length ?body), MESH_DATA_RESPONSE, 0, 0, 0, 0, 0, 0, 0, 0]"
        11 dst "[0, 0] @ ?body @ [checksum8 ?body]"] assms
    by (simp add: profile_page_def Let_def)
qed

lemma profile_page_checksum:
  assumes "length dst = 4" and "fits_page rs"
  shows "checksum_matches (profile_page st dst f c i n rs, 0) = Some True"
proof -
  let ?body = "page_body st f c i n rs" and ?page = "profile_page st dst f c i n rs"
  let ?pre = "[HES_START_BYTE, word_of_nat (17 + length ?body), MESH_DATA_RESPONSE, 0, 0, 0, 0, 0, 0, 0, 0] @ dst @ [0, 0]"
  let ?n = "9 + length (concat (map enc_record rs))"
  have n: "?n \<le> 238" using assms(2) by (simp add: fits_page_def)
  have page: "?page = ?pre @ ?body @ [checksum8 ?body]" by (simp add: profile_page_def Let_def)
  have pre: "length ?pre = 17" using assms(1) by simp
  have "rd (?page, 0) 18 = Some (word_of_nat (?n div 256))" "rd (?page, 0) 19 = Some (word_of_nat (?n mod 256))"
    unfolding page using pre by (simp_all add: rd.simps nth_append page_body_def Let_def)
  moreover have "be16 (word_of_nat (?n div 256)) (word_of_nat (?n mod 256)) = ?n"
    using n by (intro be16_of_nat) simp
  moreover have "rd_seq (?page, 0) 17 ?n = Some ?body"
    unfolding page using rd_seq_slice [of ?pre 17 ?body "[checksum8 ?body]"] pre by (simp add: length_page_body)
  moreover have "rd (?page, 0) 1 = Some (word_of_nat (17 + ?n))"
    unfolding page using length_page_body [of st f c i n rs] by (simp add: rd.simps)
  moreover have "uint (word_of_nat (17 + ?n) :: u8) = 17 + int ?n"
    using n by (subst uint_u8_of_nat) simp_all
  moreover have "rd (?page, 0) (17 + int ?n) = Some (checksum8 ?body)"
    unfolding page using pre length_page_body [of st f c i n rs] by (simp add: rd.simps nth_append nat_add_distrib)
  ultimately show ?thesis by (simp add: checksum_matches_def calculate_checksum_def)
qed

lemma profile_page_parse:
  assumes "length dst = 4" and "fits_page rs"
  shows "parse_records store (profile_page st dst f c i n rs) (word_of_nat (length rs)) s
    = Some (SUCCESS, fold (\<lambda>r. store (fst r) (snd r)) rs s)"
proof -
  let ?body = "page_body st f c i n rs"
  let ?hdr = "[HES_START_BYTE, word_of_nat (17 + length ?body), MESH_DATA_RESPONSE, 0, 0, 0, 0, 0, 0, 0, 0] @ dst @ [0, 0]
      @ take 9 ?body"
  have "profile_page st dst f c i n rs = ?hdr @ concat (map enc_record rs) @ [checksum8 ?body]"
    by (simp add: profile_page_def page_body_def Let_def)
  moreover have "length ?hdr = 26" using assms(1) by (simp add: length_page_body)
  moreover have "length rs = unat (word_of_nat (length rs) :: u8)"
    using assms(2) records_length [of rs] by (simp add: fits_page_def unat_of_nat)
  ultimately show ?thesis
    using parse_records_enc [of rs ?hdr store "checksum8 ?body" "word_of_nat (length rs)" s] assms(2)
    by (simp add: fits_page_def list_all_iff)
qed

lemma vec_whole: "vec (xs, 0) (int (length xs)) = Some xs"
  using rd_seq_slice [of "[]" 0 xs "[]"] by (simp add: vec_def)

lemma profile_page_push:
  assumes "length dst = 4" and "fits_page rs" and "total_packets_received b = k"
  shows "push_page_records now (profile_page st dst f c i n rs, 0) (int (length (profile_page st dst f c i n rs))) b
    = (let b' = b\<lparr>last_packet_time := now, total_packets_received := k + 1, profile_data := profile_data b ++ map_of (rev rs)\<rparr>
       in Some (if n = 0 then (empty_buffer, if k = uint i then Some b' else None) else (b', None)))"
  using assms profile_page_parse [OF assms(1,2), of store_record st f c i n b] page_fields [OF assms(1), of st f c i n rs]
  by (cases "n = 0") (simp_all add: push_page_records_def push_page_def vec_whole parseDLMSRecords_def
      fold_store_record page_arrived_def clear_buffer_def Let_def)

text \<open>The instantaneous-profile buffer of a node, a node that is not known having an empty one.\<close>

definition ip_buffer :: "push_state \<Rightarrow> mac \<Rightarrow> packet_buffer" where
  "ip_buffer s mac = (case push_node_info s mac of Some node \<Rightarrow> pn_instantaneous_profile node | None \<Rightarrow> empty_buffer)"

lemma ip_page_step:
  fixes dst e rs i n
  defines "page \<equiv> profile_page PUSH_DATA_START_BYTE dst FI_INSTANT_DATA COMMAND_IP_PROFILE i n rs"
  defines "mac \<equiv> to_mac_array dst"
  assumes "length dst = 4" and "fits_page rs" and "total_packets_received (ip_buffer s mac) = k"
  defines "b' \<equiv> (ip_buffer s mac)\<lparr>last_packet_time := now_ns e, total_packets_received := k + 1,
      profile_data := profile_data (ip_buffer s mac) ++ map_of (rev rs)\<rparr>"
  shows "\<exists>s'. process_push_data e (page, 0) (int (length page)) gateway_id s = Some s' \<and>
    ip_buffer s' mac = (if n = 0 then empty_buffer else b') \<and>
    db_log s' = db_log s @ (if n = 0 \<and> k = uint i
      then [InsertInstantaneous mac gateway_id (calculate_cycle_id e 0) b' True] else [])"
proof -
  define node where "node = (case push_node_info s mac of Some node \<Rightarrow> node | None \<Rightarrow> new_push_node)"
  have ib: "ip_buffer s mac = pn_instantaneous_profile node"
    by (simp add: ip_buffer_def node_def new_push_node_def split: option.split)
  have p: "push_page_records (now_ns e) (page, 0) (int (length page)) (pn_instantaneous_profile node)
      = Some (if n = 0 then (empty_buffer, if k = uint i then Some b' else None) else (b', None))"
    using profile_page_push [OF assms(3,4), of "pn_instantaneous_profile node" k] assms(5)
    unfolding page_def b'_def ib Let_def by simp
  define s' where "s' = s\<lparr>push_node_info := (push_node_info s)(mac \<mapsto>
        node\<lparr>pn_instantaneous_profile := if n = 0 then empty_buffer else b'\<rparr>),
      db_log := db_log s @ (if n = 0 \<and> k = uint i
        then [InsertInstantaneous mac gateway_id (calculate_cycle_id e 0) b' True] else [])\<rparr>"
  have "process_push_data e (page, 0) (int (length page)) gateway_id s = Some s'"
    using page_fields(3,4,7) [OF assms(3), of PUSH_DATA_START_BYTE FI_INSTANT_DATA COMMAND_IP_PROFILE i n rs]
      profile_page_checksum [OF assms(3,4), of PUSH_DATA_START_BYTE FI_INSTANT_DATA COMMAND_IP_PROFILE i n] p
    unfolding page_def [symmetric] mac_def
    by (simp add: process_push_data_def process_IP_push_data_def push_handler_def Let_def s'_def mac_def
        node_def [unfolded mac_def, symmetric])
  then show ?thesis by (simp add: s'_def ip_buffer_def)
qed

definition deliver :: "cstr \<Rightarrow> (env \<times> bytes) list \<Rightarrow> push_state \<Rightarrow> push_state option" where
  "deliver gateway_id = foldM (\<lambda>(e, page) s. process_push_data e (page, 0) (int (length page)) gateway_id s)"

text \<open>A page of an instantaneous profile that announces a further one.\<close>

definition more_page :: "bytes \<Rightarrow> env \<times> u8 \<times> (u8 \<times> dlms_value) list \<Rightarrow> env \<times> bytes" where
  "more_page dst d = (case d of (e, i, rs) \<Rightarrow> (e, profile_page PUSH_DATA_START_BYTE dst FI_INSTANT_DATA COMMAND_IP_PROFILE i 1 rs))"

definition last_page :: "bytes \<Rightarrow> env \<times> u8 \<times> (u8 \<times> dlms_value) list \<Rightarrow> env \<times> bytes" where
  "last_page dst d = (case d of (e, i, rs) \<Rightarrow> (e, profile_page PUSH_DATA_START_BYTE dst FI_INSTANT_DATA COMMAND_IP_PROFILE i 0 rs))"

lemma deliver_more:
  assumes "length dst = 4" and "list_all (\<lambda>(e, i, rs). fits_page rs) ds"
  shows "\<exists>s'. deliver gateway_id (map (more_page dst) ds) s = Some s' \<and> db_log s' = db_log s \<and>
    total_packets_received (ip_buffer s' (to_mac_array dst)) = total_packets_received (ip_buffer s (to_mac_array dst)) + int (length ds) \<and>
    profile_data (ip_buffer s' (to_mac_array dst))
      = profile_data (ip_buffer s (to_mac_array dst)) ++ map_of (rev (concat (map (\<lambda>(e, i, rs). rs) ds)))"
  using assms(2)
proof (induction ds arbitrary: s)
  case Nil
  show ?case by (simp add: deliver_def)
next
  case (Cons d ds)
  obtain e i rs where d: "d = (e, i, rs)" by (cases d)
  obtain s1 where s1: "process_push_data e (snd (more_page dst d), 0) (int (length (snd (more_page dst d)))) gateway_id s = Some s1"
      "ip_buffer s1 (to_mac_array dst) = (ip_buffer s (to_mac_array dst))\<lparr>last_packet_time := now_ns e,
        total_packets_received := total_packets_received (ip_buffer s (to_mac_array dst)) + 1,
        profile_data := profile_data (ip_buffer s (to_mac_array dst)) ++ map_of (rev rs)\<rparr>"
      "db_log s1 = db_log s"
    using ip_page_step [OF assms(1), where rs = rs and s = s and i = i and n = 1 and e = e and gateway_id = gateway_id] Cons.prems by (auto simp: d more_page_def)
  from Cons.IH [of s1] Cons.prems obtain s2 where s2: "deliver gateway_id (map (more_page dst) ds) s1 = Some s2"
      "db_log s2 = db_log s1"
      "total_packets_received (ip_buffer s2 (to_mac_array dst)) = total_packets_received (ip_buffer s1 (to_mac_array dst)) + int (length ds)"
      "profile_data (ip_buffer s2 (to_mac_array dst))
        = profile_data (ip_buffer s1 (to_mac_array dst)) ++ map_of (rev (concat (map (\<lambda>(e, i, rs). rs) ds)))"
    by (auto simp: d)
  have "deliver gateway_id (map (more_page dst) (d # ds)) s = Some s2"
    using s1(1) s2(1) by (simp add: deliver_def d more_page_def)
  with s1 s2 show ?case by (simp add: d map_add_assoc)
qed

text \<open>C2: the delivery of an instantaneous profile.  Starting from an empty buffer, any pages
  that announce a further one, followed by a last page of index \<open>i\<close>, insert one profile, with all the
  delivered records, exactly when \<open>i\<close> pages came before; in every case the buffer is empty
  afterwards.  So a complete transfer is stored once, a lost page drops the profile, and a
  repeated page makes up for a lost one, because pages are counted and their indices are not
  compared.\<close>

theorem ip_delivery:
  assumes "length dst = 4" and "list_all (\<lambda>(e, i, rs). fits_page rs) (ds @ [(e, i, rs)])"
    and "ip_buffer s (to_mac_array dst) = empty_buffer"
  shows "\<exists>s'. deliver gateway_id (map (more_page dst) ds @ [last_page dst (e, i, rs)]) s = Some s' \<and>
    ip_buffer s' (to_mac_array dst) = empty_buffer \<and>
    db_log s' = db_log s @ (if length ds = unat i
      then [InsertInstantaneous (to_mac_array dst) gateway_id (calculate_cycle_id e 0)
        \<lparr>total_packets_received = int (length ds) + 1, last_packet_time = now_ns e,
         profile_data = map_of (rev (concat (map (\<lambda>(e, i, rs). rs) ds) @ rs))\<rparr> True]
      else [])"
proof -
  let ?mac = "to_mac_array dst"
  obtain s1 where s1: "deliver gateway_id (map (more_page dst) ds) s = Some s1" "db_log s1 = db_log s"
      "total_packets_received (ip_buffer s1 ?mac) = int (length ds)"
      "profile_data (ip_buffer s1 ?mac) = map_of (rev (concat (map (\<lambda>(e, i, rs). rs) ds)))"
    using deliver_more [OF assms(1), of ds gateway_id s] assms(2,3) by (auto simp: empty_buffer_def)
  obtain s2 where s2: "process_push_data e (snd (last_page dst (e, i, rs)), 0)
        (int (length (snd (last_page dst (e, i, rs))))) gateway_id s1 = Some s2"
      "ip_buffer s2 ?mac = empty_buffer"
      "db_log s2 = db_log s1 @ (if int (length ds) = uint i
        then [InsertInstantaneous ?mac gateway_id (calculate_cycle_id e 0)
          ((ip_buffer s1 ?mac)\<lparr>last_packet_time := now_ns e, total_packets_received := int (length ds) + 1,
            profile_data := profile_data (ip_buffer s1 ?mac) ++ map_of (rev rs)\<rparr>) True]
        else [])"
    using ip_page_step [OF assms(1), where rs = rs and s = s1 and i = i and n = 0 and e = e and gateway_id = gateway_id] assms(2) s1(3)
    by (auto simp: last_page_def)
  have eq1: "int (length ds) = uint i \<longleftrightarrow> length ds = unat i" by (metis of_nat_eq_iff uint_nat)
  have eq2: "(ip_buffer s1 ?mac)\<lparr>last_packet_time := now_ns e, total_packets_received := int (length ds) + 1,
      profile_data := profile_data (ip_buffer s1 ?mac) ++ map_of (rev rs)\<rparr>
    = \<lparr>total_packets_received = int (length ds) + 1, last_packet_time = now_ns e,
       profile_data = map_of (rev (concat (map (\<lambda>(e, i, rs). rs) ds) @ rs))\<rparr>"
    using s1(4) by simp
  have "deliver gateway_id (map (more_page dst) ds @ [last_page dst (e, i, rs)]) s = Some s2"
    using s1(1) s2(1) by (simp add: deliver_def foldM_append last_page_def)
  with s2(2) s2(3) [unfolded eq1 eq2 s1(2)] show ?thesis by blast
qed

text \<open>Page 0 twice and page 2, the last: page 1 is missing, the profile is stored.\<close>

definition example_value :: dlms_value where
  "example_value = \<lparr>vtype = 0x11, typeName = ''UINT8'', payload = UInt8Value 5, octetString = []\<rparr>"

definition empty_push_state :: push_state where
  "empty_push_state = \<lparr>push_node_info = Map.empty, db_log = []\<rparr>"

lemma fits_example: "fits_page [(tag, example_value)]"
  by (simp add: fits_page_def example_value_def wf_value_def string_type_def typeNames_def enc_record_def enc_value_def)

theorem ip_delivery_witness:
  "\<exists>s'. deliver ''G'' (map (more_page [1, 2, 3, 4]) [(example_env, 0, [(1, example_value)]), (example_env, 0, [(1, example_value)])]
      @ [last_page [1, 2, 3, 4] (example_env, 2, [(9, example_value)])]) empty_push_state = Some s' \<and>
    db_log s' = [InsertInstantaneous (to_mac_array [1, 2, 3, 4]) ''G'' (calculate_cycle_id example_env 0)
      \<lparr>total_packets_received = 3, last_packet_time = 0, profile_data = [1 \<mapsto> example_value, 9 \<mapsto> example_value]\<rparr> True]"
  using ip_delivery [of "[1, 2, 3, 4]" "[(example_env, 0, [(1, example_value)]), (example_env, 0, [(1, example_value)])]"
      example_env 2 "[(9, example_value)]" empty_push_state "''G''"]
  by (auto simp: fits_example empty_push_state_def ip_buffer_def example_env_def fun_upd_twist)

theorem process_push_data_defined_witness:
  "\<exists>s'. process_push_data example_env (snd (last_page [1, 2, 3, 4] (example_env, 0, [])), 0) 27 ''G'' empty_push_state = Some s'"
  by (rule process_push_data_defined [of _ 27])
    (simp_all add: last_page_def profile_page_def page_body_def Let_def byte.simps be16_def)


theorem process_push_data_valid_witness:
  "\<exists>s'. process_push_data example_env (snd (last_page [1, 2, 3, 4] (example_env, 0, [])), 0) 27 ''G'' empty_push_state = Some s'
    \<and> valid_push_state s'"
proof -
  have "\<exists>s'. process_push_data example_env (snd (last_page [1, 2, 3, 4] (example_env, 0, [])), 0) 27 ''G'' empty_push_state = Some s'"
    by (rule process_push_data_answers [of _ 27])
      (simp_all add: last_page_def profile_page_def page_body_def Let_def byte.simps be16_def)
  then obtain s' where s': "process_push_data example_env (snd (last_page [1, 2, 3, 4] (example_env, 0, [])), 0) 27 ''G''
      empty_push_state = Some s'" by blast
  moreover have "valid_push_state s'"
    using s' by (rule process_push_data_valid) (simp add: valid_push_state_def empty_push_state_def)
  ultimately show ?thesis by blast
qed

section \<open>Cleaning up\<close>

definition fresh :: "int \<Rightarrow> packet_buffer \<Rightarrow> bool" where
  "fresh now b \<longleftrightarrow> total_packets_received b \<le> 0 \<or> now - last_packet_time b \<le> push_timeout"

definition fresh_block_load :: "int \<Rightarrow> packet_buffer_block_load \<Rightarrow> bool" where
  "fresh_block_load now b \<longleftrightarrow> blp_total_packets_received b \<le> 0 \<or> now - blp_last_packet_time b \<le> push_timeout"

definition fresh_node :: "int \<Rightarrow> push_node \<Rightarrow> bool" where
  "fresh_node now n \<longleftrightarrow> fresh now (pn_instantaneous_profile n) \<and> fresh now (pn_daily_load_profile n)
     \<and> fresh now (pn_billing_history n) \<and> fresh_block_load now (pn_block_load_profile n)
     \<and> fresh now (pn_power_on_event n) \<and> fresh now (pn_power_off_event n)"

lemma cleanup_buffer_fresh: "fresh now (cleanup_buffer now b)" "fresh now b \<Longrightarrow> cleanup_buffer now b = b"
  by (auto simp: fresh_def cleanup_buffer_def clear_buffer_def empty_buffer_def)

lemma cleanup_block_load_fresh:
  "fresh_block_load now (cleanup_block_load now b)" "fresh_block_load now b \<Longrightarrow> cleanup_block_load now b = b"
  by (auto simp: fresh_block_load_def cleanup_block_load_def clear_block_load_def)

text \<open>After \<open>cleanup_push_profiles\<close> no buffer with pages is older than two minutes; no node
  is lost, a node whose buffers were all fresh is untouched, and cleaning is idempotent.\<close>

theorem cleanup_removes_stale:
  fixes e s
  defines "s' \<equiv> cleanup_push_profiles e s"
  shows "dom (push_node_info s') = dom (push_node_info s) \<and> db_log s' = db_log s \<and> cleanup_push_profiles e s' = s' \<and>
    pred_option (fresh_node (now_ns e)) (push_node_info s' mac) \<and>
    (pred_option (fresh_node (now_ns e)) (push_node_info s mac) = (push_node_info s' mac = push_node_info s mac))"
proof -
  define clean where "clean = (\<lambda>node :: push_node. node\<lparr>
       pn_instantaneous_profile := cleanup_buffer (now_ns e) (pn_instantaneous_profile node),
       pn_daily_load_profile := cleanup_buffer (now_ns e) (pn_daily_load_profile node),
       pn_block_load_profile := cleanup_block_load (now_ns e) (pn_block_load_profile node),
       pn_billing_history := cleanup_buffer (now_ns e) (pn_billing_history node),
       pn_power_on_event := cleanup_buffer (now_ns e) (pn_power_on_event node),
       pn_power_off_event := cleanup_buffer (now_ns e) (pn_power_off_event node)\<rparr>)"
  have s': "s' = s\<lparr>push_node_info := \<lambda>mac. map_option clean (push_node_info s mac)\<rparr>"
    unfolding s'_def cleanup_push_profiles_def clean_def ..
  have f: "fresh_node (now_ns e) (clean n)" for n
    by (simp add: clean_def fresh_node_def cleanup_buffer_fresh cleanup_block_load_fresh)
  have i: "fresh_node (now_ns e) n \<Longrightarrow> clean n = n" for n
    by (simp add: clean_def fresh_node_def cleanup_buffer_fresh cleanup_block_load_fresh)
  have "cleanup_push_profiles e s' = s'\<lparr>push_node_info := \<lambda>mac. map_option clean (push_node_info s' mac)\<rparr>"
    unfolding cleanup_push_profiles_def clean_def ..
  also have "\<dots> = s'" by (simp add: s' option.map_comp comp_def i f)
  finally have "cleanup_push_profiles e s' = s'" .
  moreover have "(map_option clean x = x) = pred_option (fresh_node (now_ns e)) x" for x
    using f i by (cases x) (auto, metis)
  ultimately show ?thesis by (auto simp: s' f option.pred_map comp_def pred_option_def)
qed

end
