(* ===== verification/Pull.thy ===== *)
theory Pull
  imports Push
begin

text \<open>
  The data of the pull side (\<open>HES/inc/pull.h\<close>) and the processing of a pulled page
  (\<open>HES/src/pull.cpp\<close>): the five \<open>process_*_data\<close> of \<open>PullData\<close>.  A node is asked page by
  page; a page is taken only if its checksum matches, it comes from the node that was asked,
  and all its records parse.  The result says whether a further page is to be asked for.
\<close>

section \<open>Nodes\<close>

record path_info =
  hop_count :: int
  path :: bytes

record missing_cycle_info =
  missing_ip_cycles :: "int list"
  is_blp_available :: bool
  is_dlp_available :: bool
  is_bhp_available :: bool
  is_name_plate_available :: bool
  is_scalar_available :: bool
  is_silenced :: bool
  verify_ifv_presence :: int

record node_profile =
  name_plate_profile :: packet_buffer
  scalar_profile :: packet_buffer
  internal_firmware_version :: bytes
  instantaneous_profile :: packet_buffer
  block_load_profile :: packet_buffer_block_load
  daily_load_profile :: packet_buffer
  billing_history :: packet_buffer

record node_info =
  node_mac_address :: mac
  missing_info :: missing_cycle_info
  primary_path :: path_info
  alternate_paths :: "path_info list"
  node_data :: node_profile

definition new_path :: path_info where
  "new_path = \<lparr>hop_count = 0, path = []\<rparr>"

definition new_node_info :: "mac \<Rightarrow> node_info" where
  "new_node_info mac = \<lparr>node_mac_address = mac,
     missing_info = \<lparr>missing_ip_cycles = [], is_blp_available = False, is_dlp_available = False,
       is_bhp_available = False, is_name_plate_available = False, is_scalar_available = False,
       is_silenced = False, verify_ifv_presence = 0\<rparr>,
     primary_path = new_path, alternate_paths = [],
     node_data = \<lparr>name_plate_profile = empty_buffer, scalar_profile = empty_buffer,
       internal_firmware_version = replicate 256 0, instantaneous_profile = empty_buffer,
       block_load_profile = empty_block_load, daily_load_profile = empty_buffer, billing_history = empty_buffer\<rparr>\<rparr>"

section \<open>A pulled page\<close>

text \<open>The body the five functions share, on the node that was asked.\<close>

definition pull_page ::
    "(node_profile \<Rightarrow> 'b) \<Rightarrow> ('b \<Rightarrow> node_profile \<Rightarrow> node_profile) \<Rightarrow> (bytes \<Rightarrow> u8 \<Rightarrow> 'b \<Rightarrow> (int \<times> 'b) option) \<Rightarrow>
     (int \<Rightarrow> 'b \<Rightarrow> 'b) \<Rightarrow> env \<Rightarrow> node_info \<Rightarrow> ptr \<Rightarrow> int \<Rightarrow> (int \<times> node_info) option" where
  "pull_page get put parse arrived e node buff len =
     (if len \<le> 0 then Some (FAILURE, node)
      else do {
        ok \<leftarrow> checksum_matches buff;
        if \<not> ok then Some (FAILURE, node)
        else do {
          destination_addr \<leftarrow> rd_seq buff 11 4;
          if to_mac_array destination_addr \<noteq> node_mac_address node then Some (FAILURE, node)
          else do {
            v \<leftarrow> vec buff len;
            no_of_records \<leftarrow> rd buff 25;
            (ret_val, b) \<leftarrow> parse v no_of_records (get (node_data node));
            if ret_val \<noteq> SUCCESS then Some (FAILURE, node\<lparr>node_data := put b (node_data node)\<rparr>)
            else do {
              let node = node\<lparr>node_data := put (arrived (now_ns e) b) (node_data node)\<rparr>;
              next_page_status \<leftarrow> rd buff 24;
              Some (if next_page_status = 0 then SUCCESS
                    else if next_page_status = 1 then NEXT_PAGE_PRESENT
                    else FAILURE, node)
            }
          }
        }
      })"

definition process_nameplate_data :: "env \<Rightarrow> node_info \<Rightarrow> ptr \<Rightarrow> int \<Rightarrow> (int \<times> node_info) option" where
  "process_nameplate_data = pull_page name_plate_profile (\<lambda>b d. d\<lparr>name_plate_profile := b\<rparr>) parseDLMSRecords page_arrived"

definition process_daily_load_data :: "env \<Rightarrow> node_info \<Rightarrow> ptr \<Rightarrow> int \<Rightarrow> (int \<times> node_info) option" where
  "process_daily_load_data = pull_page daily_load_profile (\<lambda>b d. d\<lparr>daily_load_profile := b\<rparr>) parseDLMSRecords page_arrived"

definition process_block_load_data :: "env \<Rightarrow> node_info \<Rightarrow> ptr \<Rightarrow> int \<Rightarrow> (int \<times> node_info) option" where
  "process_block_load_data =
     pull_page block_load_profile (\<lambda>b d. d\<lparr>block_load_profile := b\<rparr>) parseBlockLoadDLMSRecords block_page_arrived"

definition process_billing_history_data :: "env \<Rightarrow> node_info \<Rightarrow> ptr \<Rightarrow> int \<Rightarrow> (int \<times> node_info) option" where
  "process_billing_history_data = pull_page billing_history (\<lambda>b d. d\<lparr>billing_history := b\<rparr>) parseDLMSRecords page_arrived"

definition process_ip_profile_data :: "env \<Rightarrow> node_info \<Rightarrow> ptr \<Rightarrow> int \<Rightarrow> (int \<times> node_info) option" where
  "process_ip_profile_data = pull_page instantaneous_profile (\<lambda>b d. d\<lparr>instantaneous_profile := b\<rparr>) parseDLMSRecords page_arrived"

lemmas process_data_defs = process_nameplate_data_def process_daily_load_data_def process_block_load_data_def
  process_billing_history_data_def process_ip_profile_data_def

text \<open>The routes of a node are not touched by a page.\<close>

definition same_routes :: "node_info \<Rightarrow> node_info \<Rightarrow> bool" where
  "same_routes n n' \<longleftrightarrow> node_mac_address n' = node_mac_address n \<and> missing_info n' = missing_info n \<and>
     primary_path n' = primary_path n \<and> alternate_paths n' = alternate_paths n"

lemma same_routes_refl [simp]: "same_routes n n"
  by (simp add: same_routes_def)

lemma same_routes_data [simp]: "same_routes n (n\<lparr>node_data := d\<rparr>)"
  by (simp add: same_routes_def)

text \<open>What a page that is taken had to satisfy.\<close>

definition page_taken :: "node_info \<Rightarrow> ptr \<Rightarrow> u8 \<Rightarrow> bool" where
  "page_taken node buff next \<longleftrightarrow> checksum_matches buff = Some True \<and> rd buff 24 = Some next \<and>
     (\<exists>dst. rd_seq buff 11 4 = Some dst \<and> to_mac_array dst = node_mac_address node)"

lemma pull_page_result:
  assumes "pull_page get put parse arrived e node buff len = Some (ret, node')"
  shows "same_routes node node' \<and> ret \<in> {SUCCESS, FAILURE, NEXT_PAGE_PRESENT} \<and>
    (ret = SUCCESS \<longrightarrow> page_taken node buff 0) \<and> (ret = NEXT_PAGE_PRESENT \<longrightarrow> page_taken node buff 1)"
  using assms unfolding pull_page_def Let_def page_taken_def
  by (auto split: if_splits bind_splits prod.splits)


lemma pull_ip_page:
  assumes "length dst = 4" and "fits_page rs" and "node_mac_address node = to_mac_array dst"
  shows "process_ip_profile_data e node (profile_page st dst f c i n rs, 0) (int (length (profile_page st dst f c i n rs)))
    = Some (if n = 0 then SUCCESS else if n = 1 then NEXT_PAGE_PRESENT else FAILURE,
        node\<lparr>node_data := (node_data node)\<lparr>instantaneous_profile := (instantaneous_profile (node_data node))
          \<lparr>last_packet_time := now_ns e,
           total_packets_received := total_packets_received (instantaneous_profile (node_data node)) + 1,
           profile_data := profile_data (instantaneous_profile (node_data node)) ++ map_of (rev rs)\<rparr>\<rparr>\<rparr>)"
proof -
  let ?page = "profile_page st dst f c i n rs"
  have "0 < length ?page" by (simp add: profile_page_def Let_def)
  moreover have "parseDLMSRecords ?page (word_of_nat (length rs)) b = Some (SUCCESS, b\<lparr>profile_data := profile_data b ++ map_of (rev rs)\<rparr>)" for b
    using profile_page_parse [OF assms(1,2), of store_record st f c i n b] by (simp add: parseDLMSRecords_def fold_store_record)
  ultimately show ?thesis
    using page_fields [OF assms(1), of st f c i n rs] profile_page_checksum [OF assms(1,2), of st f c i n]
    by (simp add: process_ip_profile_data_def pull_page_def vec_whole page_arrived_def assms(3) Let_def)
qed

text \<open>A page sent by the node that was asked is taken, whatever it was asked for: all its
  records are stored and the page is counted.  The answer is SUCCESS, \<open>NEXT_PAGE_PRESENT\<close> or, for any
  other status byte, FAILURE, but then the records are kept all the same.\<close>

theorem pull_page_taken:
  assumes "length dst = 4" and "fits_page rs" and "node_mac_address node = to_mac_array dst"
  shows "process_ip_profile_data e node (profile_page st dst f c i n rs, 0) (int (length (profile_page st dst f c i n rs)))
    = Some (if n = 0 then SUCCESS else if n = 1 then NEXT_PAGE_PRESENT else FAILURE,
        node\<lparr>node_data := (node_data node)\<lparr>instantaneous_profile := (instantaneous_profile (node_data node))
          \<lparr>last_packet_time := now_ns e,
           total_packets_received := total_packets_received (instantaneous_profile (node_data node)) + 1,
           profile_data := profile_data (instantaneous_profile (node_data node)) ++ map_of (rev rs)\<rparr>\<rparr>\<rparr>)"
  using assms by (rule pull_ip_page)

definition example_dst :: bytes where
  "example_dst = [1, 2, 3, 4]"

lemma example_dst_length: "length example_dst = 4"
  by (simp add: example_dst_def)

definition example_node :: node_info where
  "example_node = new_node_info (to_mac_array example_dst)"

theorem pull_page_taken_witness:
  "map_option fst (process_ip_profile_data example_env example_node
      (profile_page PULL_START_BYTE example_dst FI_CACHE_DATA COMMAND_IP_PROFILE 0 1 [(1, example_value)], 0)
      (int (length (profile_page PULL_START_BYTE example_dst FI_CACHE_DATA COMMAND_IP_PROFILE 0 1 [(1, example_value)]))))
    = Some NEXT_PAGE_PRESENT"
  using pull_page_taken [OF example_dst_length fits_example, of example_node]
  by (simp add: example_node_def new_node_info_def)


end
