(* ===== verification/Frames.thy ===== *)
theory Frames
  imports Pull
begin

text \<open>
  The frames sent to a gateway (\<open>HES/src/client.cpp\<close>): the five DLMS commands that ask a meter
  for a page of a profile, the time ranges two of them carry (\<open>HES/src/pull.cpp\<close>), and the mesh
  packet around a command, \<open>frame_pmesh_command_packet\<close> for the pull cycle and
  \<open>build_odm_pmesh_packet\<close> for on-demand requests.

  The contract of a DLMS command frame is the locale \<open>at_command\<close>, interpreted for the five.
\<close>

section \<open>Time ranges\<close>

definition GetYesterdayRange :: "env \<Rightarrow> int \<times> int" where
  "GetYesterdayRange e =
     (let tm_now = localtime e (time_now e);
          tm_now = tm_now\<lparr>tm_mday := tm_mday tm_now - 1\<rparr>;
          tm_now = snd (mktime e tm_now);
          start = fst (mktime e (tm_now\<lparr>tm_hour := 0, tm_min := 0, tm_sec := 0\<rparr>));
          finish = fst (mktime e (tm_now\<lparr>tm_hour := 23, tm_min := 59, tm_sec := 59\<rparr>))
      in (start, finish))"

definition GetPreviousHourRange :: "env \<Rightarrow> int \<times> int" where
  "GetPreviousHourRange e =
     (let tm_now = localtime e (time_now e);
          tm_now = tm_now\<lparr>tm_hour := tm_hour tm_now - 1\<rparr>;
          tm_now = snd (mktime e tm_now);
          start = fst (mktime e (tm_now\<lparr>tm_min := 0, tm_sec := 0\<rparr>));
          finish = fst (mktime e (tm_now\<lparr>tm_min := 59, tm_sec := 59\<rparr>))
      in (start, finish))"

text \<open>The seconds since 2000-01-01 as \<open>uint32_t\<close>; the conversion of a \<open>double\<close> outside its range
  is undefined.\<close>

definition SecondsFromBase :: "env \<Rightarrow> int \<Rightarrow> u32 option" where
  "SecondsFromBase e t =
     (let base = fst (mktime e \<lparr>tm_sec = 0, tm_min = 0, tm_hour = 0, tm_mday = 1, tm_mon = 0, tm_year = 100, tm_isdst = 0\<rparr>)
      in if 0 \<le> t - base \<and> t - base < 2 ^ 32 then Some (word_of_int (t - base)) else None)"

section \<open>DLMS commands\<close>

definition frame_dlms_nameplate_command_packet :: "u8 \<Rightarrow> bytes" where
  "frame_dlms_nameplate_command_packet page_index =
     (let packet = [ATCMD_START_BYTE, 0x07, page_index, FI_INSTANT_DATA, 0x00, 0x00, 0x00]
      in packet @ [sum_list packet])"

definition frame_dlms_ip_command_packet :: "int \<Rightarrow> u8 \<Rightarrow> bytes" where
  "frame_dlms_ip_command_packet current_ip_cycle page_index =
     (let packet = [ATCMD_START_BYTE, 0x07, page_index, FI_CACHE_DATA, COMMAND_IP_PROFILE, 0x00, word_of_int current_ip_cycle]
      in packet @ [sum_list packet])"

text \<open>A time and its tag in the first page of a range.\<close>

definition time_field :: "u8 \<Rightarrow> u32 \<Rightarrow> bytes" where
  "time_field tag secs = [tag, ucast (drop_bit 24 secs AND 0xFF), ucast (drop_bit 16 secs AND 0xFF),
     ucast (drop_bit 8 secs AND 0xFF), ucast (secs AND 0xFF)]"

definition frame_dlms_range_packet :: "env \<Rightarrow> (env \<Rightarrow> int \<times> int) \<Rightarrow> u8 \<Rightarrow> u8 \<Rightarrow> bytes option" where
  "frame_dlms_range_packet e time_range command page_index = do {
     let packet = [ATCMD_START_BYTE, 0x00, page_index, FI_INSTANT_DATA, command, 0x00, 0x00];
     packet \<leftarrow> (if page_index = 0 then do {
         let (start_time, end_time) = time_range e;
         start_secs \<leftarrow> SecondsFromBase e start_time;
         end_secs \<leftarrow> SecondsFromBase e end_time;
         Some (packet @ time_field 0x53 start_secs @ time_field 0x45 end_secs)
       } else Some packet);
     let packet = packet[1 := word_of_nat (length packet)];
     Some (packet @ [sum_list packet])
   }"

definition frame_dlms_dlp_command_packet :: "env \<Rightarrow> u8 \<Rightarrow> bytes option" where
  "frame_dlms_dlp_command_packet e = frame_dlms_range_packet e GetYesterdayRange COMMAND_DAILY_LOAD_PROFILE"

definition frame_dlms_blp_command_packet :: "env \<Rightarrow> u8 \<Rightarrow> bytes option" where
  "frame_dlms_blp_command_packet e = frame_dlms_range_packet e GetPreviousHourRange COMMAND_BLOCK_LOAD_PROFILE"

text \<open>The checksum loop also adds the zeros that fill the vector of 128 bytes.\<close>

definition frame_dlms_bhp_command_packet :: "u8 \<Rightarrow> bytes" where
  "frame_dlms_bhp_command_packet page_index =
     (let packet = [ATCMD_START_BYTE, 0x0C, page_index, FI_INSTANT_DATA, COMMAND_BILLING_PROFILE, 0x00, 0x00,
                    0x49, 0x00, 0x06, 0x43, 0x01]
      in packet @ [sum_list (packet @ replicate 116 0)])"

section \<open>Mesh packets\<close>

record gateway_details =
  serial_number :: bytes
  panid :: bytes

definition frame_pmesh_command_packet :: "gateway_details \<Rightarrow> u8 \<Rightarrow> path_info \<Rightarrow> bytes \<Rightarrow> bytes" where
  "frame_pmesh_command_packet gw packet_type path_info cmd =
     (let packet = [HES_START_BYTE, 0x00, packet_type] @ panid gw @ drop 4 (serial_number gw)
          @ [0x00, word_of_int (hop_count path_info)] @ path path_info @ cmd
      in packet[1 := word_of_nat (length packet - 1)])"

record pmesh_header =
  start_byte :: u8
  packet_type :: u8
  pan_id :: bytes
  source_address :: bytes
  router_index :: u8
  ph_hop_count :: u8
  dest_address :: bytes

text \<open>Also returns what becomes \<open>Pmesh_header\<close>.  Both copies from \<open>dest_address\<close> are undefined
  when it is shorter than what is copied.\<close>

definition build_odm_pmesh_packet :: "pmesh_header \<Rightarrow> bytes \<Rightarrow> (bytes \<times> bytes) option" where
  "build_odm_pmesh_packet header command =
     (let hops = unat (ph_hop_count header);
          n = (if 0 < hops then hops * 4 else 4);
          total_len = 13 + n + length command
      in if length (dest_address header) < n then None
         else let head = [start_byte header, word_of_nat (total_len - 1), packet_type header] @ pan_id header
                @ source_address header @ [router_index header, ph_hop_count header] @ take n (dest_address header)
              in Some (head @ command, head))"

text \<open>\<open>build_pmesh_frame\<close>: \<open>parts\<close> are the fields of an on-demand request; a missing field is undefined
  and \<open>substr\<close> or \<open>stoi\<close> may throw.  The PAN identifier and the source address are not
  initialised, so their digits must convert.\<close>

definition part :: "cstr list \<Rightarrow> nat \<Rightarrow> cstr option" where
  "part parts i = (if i < length parts then Some (parts ! i) else None)"

definition last_chars :: "nat \<Rightarrow> cstr \<Rightarrow> cstr option" where
  "last_chars n s = (if length s < n then None else Some (drop (length s - n) s))"

definition ping_or_query :: "cstr \<Rightarrow> u8" where
  "ping_or_query type = (if type = ''13'' then 0x0D else 0x07)"

text \<open>The short addresses of the hops after the first: bytes 4 to 8 of every block of eight.\<close>

definition path_tail_bytes :: "bytes \<Rightarrow> nat \<Rightarrow> bytes" where
  "path_tail_bytes p total_bytes = concat (map (\<lambda>k. take 4 (drop (8 * k + 4) p)) [1..<total_bytes div 8])"

definition build_pmesh_frame :: "cstr list \<Rightarrow> (bytes \<times> bytes) option" where
  "build_pmesh_frame parts = do {
     p5 \<leftarrow> part parts 5;
     command \<leftarrow> (if p5 = [] then Some (replicate 256 0)
                else convert_asc_hex_string_to_bytes (replicate 256 0) p5 (length p5 div 2));
     p4 \<leftarrow> part parts 4;
     p1 \<leftarrow> part parts 1;
     hex4 \<leftarrow> last_chars 4 p1;
     pan \<leftarrow> mapM (\<lambda>i. scan_hex2 (drop (i * 2) hex4)) [0, 1];
     hex8 \<leftarrow> last_chars 8 p1;
     source \<leftarrow> mapM (\<lambda>i. scan_hex2 (drop (i * 2) hex8)) [0, 1, 2, 3];
     p2 \<leftarrow> part parts 2;
     hops \<leftarrow> map_option word_of_int (stoi 10 p2);
     p3 \<leftarrow> part parts 3;
     path \<leftarrow> convert_asc_hex_string_to_bytes (replicate 100 0) p3 (length p3 div 2);
     let dest = (if (hops :: u8) = 0 then take 4 (drop 4 path) else path_tail_bytes path (length p3 div 2));
     build_odm_pmesh_packet
       \<lparr>start_byte = 0x2E, packet_type = ping_or_query p4, pan_id = [0, 0] @ pan, source_address = source,
        router_index = 0, ph_hop_count = hops, dest_address = dest\<rparr>
       (take (length p5 div 2) command)
   }"

section \<open>The contract of a command frame\<close>

definition at_frame_ok :: "bytes \<Rightarrow> bool" where
  "at_frame_ok f \<longleftrightarrow> 8 \<le> length f \<and> length f \<le> 256 \<and> f ! 0 = ATCMD_START_BYTE \<and> unat (f ! 1) + 1 = length f
     \<and> last f = checksum8 (butlast f)"

locale at_command =
  fixes frame :: "u8 \<Rightarrow> bytes option" and size_bound :: nat
  assumes frame_ok: "frame page_index = Some f \<Longrightarrow> at_frame_ok f"
    and frame_page: "frame page_index = Some f \<Longrightarrow> f ! 2 = page_index"
    and frame_size: "frame page_index = Some f \<Longrightarrow> length f \<le> size_bound"
begin

text \<open>The mesh packet around the command states its own length, the receiver finds the command
  behind the header, and asking for another page gives another packet.\<close>

lemma u8_of_nat_length: "0 < n \<Longrightarrow> n \<le> 256 \<Longrightarrow> unat (word_of_nat (n - 1) :: u8) + 1 = n"
  by (cases n) (simp_all add: unat_of_nat del: of_nat_Suc)

lemma packet_around_command:
  assumes "frame page_index = Some f" and "length (panid gw) = 4" and "length (serial_number gw) = 8"
    and "13 + length (path p) + size_bound \<le> 256"
  shows "unat (frame_pmesh_command_packet gw ty p f ! 1) + 1 = length (frame_pmesh_command_packet gw ty p f)"
    and "drop (13 + length (path p)) (frame_pmesh_command_packet gw ty p f) = f"
proof -
  let ?head = "[HES_START_BYTE, 0x00, ty] @ panid gw @ drop 4 (serial_number gw) @ [0x00, word_of_int (hop_count p)] @ path p"
  have len: "length ?head = 13 + length (path p)" using assms(2,3) by simp
  have pkt: "frame_pmesh_command_packet gw ty p f = (?head @ f)[1 := word_of_nat (length (?head @ f) - 1)]"
    by (simp add: frame_pmesh_command_packet_def Let_def)
  have "0 < length (?head @ f)" "length (?head @ f) \<le> 256" using len frame_size [OF assms(1)] assms(4) by simp_all
  from u8_of_nat_length [OF this]
  show "unat (frame_pmesh_command_packet gw ty p f ! 1) + 1 = length (frame_pmesh_command_packet gw ty p f)"
    unfolding pkt by (subst nth_list_update_eq) simp_all
  have "drop (length ?head) ((?head @ f)[1 := x]) = f" for x by simp
  then show "drop (13 + length (path p)) (frame_pmesh_command_packet gw ty p f) = f"
    unfolding pkt len .
qed

lemma frame_inj: "frame i = Some f \<Longrightarrow> frame j = Some f \<Longrightarrow> i = j"
  using frame_page by metis

end

lemma checksum_snoc: "last (p @ [sum_list p]) = checksum8 (butlast (p @ [sum_list p]))"
  by (simp add: checksum8_sum_list)

interpretation nameplate: at_command "\<lambda>i. Some (frame_dlms_nameplate_command_packet i)" 8
  by unfold_locales (auto simp: frame_dlms_nameplate_command_packet_def at_frame_ok_def checksum8_sum_list Let_def add.assoc)

interpretation ip: at_command "\<lambda>i. Some (frame_dlms_ip_command_packet cycle i)" 8
  by unfold_locales (auto simp: frame_dlms_ip_command_packet_def at_frame_ok_def checksum8_sum_list Let_def add.assoc)

interpretation bhp: at_command "\<lambda>i. Some (frame_dlms_bhp_command_packet i)" 13
  by unfold_locales (auto simp: sum_list_replicate frame_dlms_bhp_command_packet_def at_frame_ok_def checksum8_sum_list Let_def add.assoc)

lemma frame_dlms_range_packet_cases:
  assumes "frame_dlms_range_packet e r command i = Some f"
  obtains "i \<noteq> 0" "f = (let p = [ATCMD_START_BYTE, 7, i, FI_INSTANT_DATA, command, 0, 0] in p @ [sum_list p])"
  | a b where "i = 0" "f = (let p = [ATCMD_START_BYTE, 17, 0, FI_INSTANT_DATA, command, 0, 0] @ time_field 0x53 a @ time_field 0x45 b
      in p @ [sum_list p])"
  using assms unfolding frame_dlms_range_packet_def Let_def
  by (auto split: if_splits bind_splits prod.splits simp: time_field_def)

lemma frame_dlms_range_packet_ok:
  assumes "frame_dlms_range_packet e r command i = Some f"
  shows "at_frame_ok f \<and> f ! 2 = i \<and> length f \<le> 18"
  using assms
  by (rule frame_dlms_range_packet_cases)
    (simp_all add: Let_def at_frame_ok_def checksum8_sum_list time_field_def add.assoc)

interpretation dlp: at_command "frame_dlms_dlp_command_packet e" 18
  by unfold_locales (auto simp: frame_dlms_dlp_command_packet_def dest: frame_dlms_range_packet_ok)

interpretation blp: at_command "frame_dlms_blp_command_packet e" 18
  by unfold_locales (auto simp: frame_dlms_blp_command_packet_def dest: frame_dlms_range_packet_ok)

text \<open>C39: every command of the pull cycle is a well-formed frame for the page it asks: it starts
  with \<open>ATCMD_START_BYTE\<close>, states its length and ends with its checksum; and the mesh packet around
  it states its own length for every path of at most 225 bytes.\<close>

theorem pull_commands_well_formed:
  assumes "Some f \<in> {Some (frame_dlms_nameplate_command_packet i), Some (frame_dlms_ip_command_packet c i),
      Some (frame_dlms_bhp_command_packet i), frame_dlms_dlp_command_packet e i, frame_dlms_blp_command_packet e i}"
    and "length (panid gw) = 4" and "length (serial_number gw) = 8" and "length (path p) \<le> 225"
  shows "at_frame_ok f \<and> f ! 2 = i \<and>
    unat (frame_pmesh_command_packet gw ty p f ! 1) + 1 = length (frame_pmesh_command_packet gw ty p f) \<and>
    drop (13 + length (path p)) (frame_pmesh_command_packet gw ty p f) = f"
proof -
  have ok: ?thesis if "at_command g n" and "g i = Some f" and "n \<le> 18" for g n
    using at_command.frame_ok [OF that(1,2)] at_command.frame_page [OF that(1,2)]
      at_command.packet_around_command [OF that(1,2) assms(2,3), of p ty] that(3) assms(4) by simp
  from assms(1) show ?thesis
  proof (elim insertE emptyE)
    assume "Some f = Some (frame_dlms_nameplate_command_packet i)"
    then show ?thesis by (intro ok [OF nameplate.at_command_axioms]) simp_all
  next
    assume "Some f = Some (frame_dlms_ip_command_packet c i)"
    then show ?thesis by (intro ok [OF ip.at_command_axioms]) simp_all
  next
    assume "Some f = Some (frame_dlms_bhp_command_packet i)"
    then show ?thesis by (intro ok [OF bhp.at_command_axioms]) simp_all
  next
    assume "Some f = frame_dlms_dlp_command_packet e i"
    then show ?thesis by (intro ok [OF dlp.at_command_axioms]) simp_all
  next
    assume "Some f = frame_dlms_blp_command_packet e i"
    then show ?thesis by (intro ok [OF blp.at_command_axioms]) simp_all
  qed
qed

text \<open>An example of a gateway and of a path of one hop.\<close>

definition example_gateway :: gateway_details where
  "example_gateway = \<lparr>serial_number = [0x3C, 0xC1, 0xF6, 0x01, 0xA3, 0x53, 0x54, 0x35], panid = [0, 0, 0x54, 0x35]\<rparr>"

definition example_path :: path_info where
  "example_path = \<lparr>hop_count = 1, path = [1, 2, 3, 4]\<rparr>"

theorem pull_commands_well_formed_witness:
  "unat (frame_pmesh_command_packet example_gateway MESH_DATA_QUERY example_path (frame_dlms_ip_command_packet 2 3) ! 1) + 1 = 25"
  using pull_commands_well_formed [of "frame_dlms_ip_command_packet 2 3" 3 2 example_env example_gateway example_path MESH_DATA_QUERY]
  by (simp add: example_gateway_def example_path_def frame_dlms_ip_command_packet_def frame_pmesh_command_packet_def Let_def)

section \<open>On-demand packets\<close>

lemma concat_hex2_Nil: "concat (map hex2 bs) = [] \<longleftrightarrow> bs = []"
  by (cases bs) (simp_all add: hex2_def)

lemma concat_mac_to_hex: "path_hex hops = concat (map hex2 (concat hops))"
  by (induction hops) (simp_all add: mac_to_hex_def)

lemma concat_macs_length: "\<forall>h \<in> set hops. length h = 8 \<Longrightarrow> length (concat hops) = 8 * length hops"
  by (induction hops) simp_all

lemma concat_macs_block:
  assumes "\<forall>h \<in> set hops. length (h :: mac) = 8" and "k < length hops"
  shows "take 4 (drop (8 * k + 4) (concat hops @ z)) = drop 4 (hops ! k)"
  using assms
proof (induction hops arbitrary: k)
  case (Cons h hops)
  then show ?case
  proof (cases k)
    case 0
    with Cons.prems show ?thesis by simp
  next
    case (Suc k')
    with Cons.prems have "drop (8 * k + 4) (concat (h # hops) @ z) = drop (8 * k' + 4) (concat hops @ z)"
      by (simp add: add.commute)
    with Cons.IH [of k'] Cons.prems Suc show ?thesis by simp
  qed
qed simp

lemma path_tail_of_hops:
  assumes "\<forall>h \<in> set (m # hops). length h = 8"
  shows "path_tail_bytes (concat (m # hops) @ z) (8 * Suc (length hops)) = path_bytes hops"
proof -
  have "map (\<lambda>k. take 4 (drop (8 * k + 4) (concat (m # hops) @ z))) [1..<Suc (length hops)]
      = map (\<lambda>k. drop 4 ((m # hops) ! k)) [1..<Suc (length hops)]"
  proof (rule map_cong [OF refl])
    fix k assume "k \<in> set [1..<Suc (length hops)]"
    then have "k < length (m # hops)" by auto
    with concat_macs_block [OF assms this, of z]
    show "take 4 (drop (8 * k + 4) (concat (m # hops) @ z)) = drop 4 ((m # hops) ! k)" by blast
  qed
  also have "\<dots> = map (\<lambda>k. drop 4 (hops ! k)) [0..<length hops]"
    by (simp only: One_nat_def map_Suc_upt [symmetric] map_map) (simp add: comp_def)
  also have "\<dots> = map (drop 4) hops" by (rule nth_equalityI) simp_all
  finally show ?thesis by (simp add: path_tail_bytes_def path_bytes_def del: concat.simps)
qed

text \<open>An on-demand request is framed as it is written.  If its path lists the gateway and
  the hops, its hop count is their number and its command is hex text, the packet goes to the
  short addresses of the hops in order, carries the command unchanged, and states its length.\<close>

theorem build_pmesh_frame_request:
  assumes "\<forall>h \<in> set (gw # hops). length h = 8" and "length cmd \<le> 256" and "0 < length hops" and "length hops \<le> 11"
    and "stoi 10 n = Some (int (length hops))" and "13 + 4 * length hops + length cmd \<le> 256"
  shows "\<exists>head. build_pmesh_frame [req, mac_to_hex gw, n, path_hex (gw # hops), ty, concat (map hex2 cmd)]
      = Some (head @ path_bytes hops @ cmd, head @ path_bytes hops) \<and>
    head = [0x2E, word_of_nat (12 + 4 * length hops + length cmd), ping_or_query ty, 0, 0] @ drop 6 gw @ drop 4 gw
      @ [0, word_of_nat (length hops)]"
proof -
  have "length gw = 8" using assms(1) by simp
  then obtain a b c d e f g h where gw: "gw = [a, b, c, d, e, f, g, h]" by (rule hop_split)
  define G where "G = mac_to_hex gw"
  define P where "P = path_hex (gw # hops)"
  define C where "C = concat (map hex2 cmd)"
  define Z where "Z = concat (gw # hops) @ replicate (100 - 8 * Suc (length hops)) 0"
  define h4 where "h4 = concat (map hex2 [g, h])"
  define h8 where "h8 = concat (map hex2 [e, f, g, h])"
  have id: "last_chars 4 G = Some h4" "last_chars 8 G = Some h8"
    by (simp_all add: gw last_chars_def mac_to_hex_def hex2_def G_def h4_def h8_def)
  have scan: "mapM (\<lambda>i. scan_hex2 (drop (i * 2) (concat (map hex2 bs)))) is = Some (map (\<lambda>i. bs ! i) is)"
    if "\<forall>i \<in> set is. i < length bs" for bs "is"
    using that scan_hex2_at [of _ bs "[]"] by (intro mapM_Some) simp
  have pan: "mapM (\<lambda>i. scan_hex2 (drop (i * 2) h4)) [0, 1] = Some [g, h]"
    using scan [of "[0, 1]" "[g, h]"] by (simp add: h4_def del: mapM.simps)
  have src: "mapM (\<lambda>i. scan_hex2 (drop (i * 2) h8)) [0, 1, 2, 3] = Some [e, f, g, h]"
    using scan [of "[0, 1, 2, 3]" "[e, f, g, h]"] by (simp add: h8_def del: mapM.simps)
  have cmd: "(if C = [] then Some (replicate 256 0) else convert_asc_hex_string_to_bytes (replicate 256 0) C (length C div 2))
    = Some (cmd @ replicate (256 - length cmd) 0)" and lenC: "length C div 2 = length cmd"
    using convert_asc_steps [of "length cmd" cmd "replicate 256 0" "[]"] assms(2) concat_hex2_Nil [of cmd]
    by (cases "cmd = []"; auto simp: C_def)+
  have lenP: "length P div 2 = 8 * Suc (length hops)"
    using path_hex_length [OF assms(1)] by (simp add: P_def)
  have p: "convert_asc_hex_string_to_bytes (replicate 100 0) P (length P div 2)
      = Some Z"
    using convert_asc_steps [of "8 * Suc (length hops)" "concat (gw # hops)" "replicate 100 0" "[]"] assms(1,4)
      concat_macs_length [OF assms(1)] unfolding lenP
    by (simp add: P_def Z_def concat_mac_to_hex del: concat.simps)
  have nz: "(word_of_nat (length hops) :: u8) \<noteq> 0" "unat (word_of_nat (length hops) :: u8) = length hops"
    using assms(3,4) by (simp_all add: unat_of_nat word_of_nat_eq_0_iff dvd_imp_le nat_dvd_not_less)
  have len: "length (path_bytes hops) = 4 * length hops"
    using assms(1) by (induction hops) simp_all
  have tail: "path_tail_bytes Z (length P div 2) = path_bytes hops"
    using path_tail_of_hops [OF assms(1)] by (simp only: lenP Z_def)
  have tk: "take (length cmd) (cmd @ replicate (256 - length cmd) 0) = cmd" by simp
  have "build_pmesh_frame [req, G, n, P, ty, C]
    = build_odm_pmesh_packet \<lparr>start_byte = 0x2E, packet_type = ping_or_query ty, pan_id = [0, 0] @ [g, h],
        source_address = [e, f, g, h], router_index = 0, ph_hop_count = word_of_nat (length hops),
        dest_address = path_bytes hops\<rparr> cmd"
    unfolding build_pmesh_frame_def
    by (simp add: part_def cmd [simplified] id pan src assms(5) p tail nz lenC tk Let_def
        del: mapM.simps One_nat_def concat.simps)
  moreover have "hops \<noteq> []" using assms(3) by simp
  ultimately show ?thesis
    by (simp add: build_odm_pmesh_packet_def nz len Let_def gw G_def P_def C_def mult.commute del: path_hex_simps concat.simps)
qed

theorem build_pmesh_frame_request_witness:
  "\<exists>head. build_pmesh_frame [''7'', mac_to_hex [0x3C, 0xC1, 0xF6, 1, 0xA3, 0x53, 0x54, 0x35], ''2'',
      path_hex [[0x3C, 0xC1, 0xF6, 1, 0xA3, 0x53, 0x54, 0x35], [0x3C, 0xC1, 0xF6, 1, 0, 0, 0, 0x45], [0x3C, 0xC1, 0xF6, 1, 0, 0, 0, 0x47]],
      ''13'', concat (map hex2 [0x2B])]
    = Some (head @ [0, 0, 0, 0x45, 0, 0, 0, 0x47, 0x2B], head @ [0, 0, 0, 0x45, 0, 0, 0, 0x47]) \<and>
    head = [0x2E, 21, 0x0D, 0, 0, 0x54, 0x35, 0xA3, 0x53, 0x54, 0x35, 0, 2]"
proof -
  have "stoi 10 ''2'' = Some 2" by code_simp
  then show ?thesis
    using build_pmesh_frame_request [of "[0x3C, 0xC1, 0xF6, 1, 0xA3, 0x53, 0x54, 0x35]"
        "[[0x3C, 0xC1, 0xF6, 1, 0, 0, 0, 0x45], [0x3C, 0xC1, 0xF6, 1, 0, 0, 0, 0x47]]" "[0x2B]" "''2''" "''7''" "''13''"]
    by (simp add: ping_or_query_def del: path_hex_simps concat.simps list.map)
qed

end
