(* ===== verification/Receive.thy ===== *)
theory Receive
  imports Frames "HOL-Library.AList"
begin

text \<open>
  The receiving side of a client (\<open>HES/src/client.cpp\<close>): the state a client keeps, the
  validation of a packet (\<open>is_valid_packet\<close>, \<open>validate_source_address\<close>, \<open>processPacketType\<close>), its
  interpretation in the states of the pull cycle (\<open>client_process_data\<close>) and the loop over the
  packets of a receive buffer (\<open>client_received_data\<close>).

  Two operations of the client that belong to other parts, the greeting of a new connection
  and the reply to a single OBIS read, are arguments (\<open>hooks\<close>).  The calls of the on-demand
  profile readers are recorded in a log.
\<close>

section \<open>State of a client\<close>

datatype current_state = INIT | FUOTA_STATUS | FUOTA_DISABLE | FLASH_SAVE | SOFT_RESET | NAMEPLATE
  | DAILY_LOAD | BLOCK_LOAD | BILLING_HISTORY | INSTANTANEOUS_PROFILE | DLMS_CONNECT | INTERNAL_FV | IDLE

datatype target_state = TARGET_IDLE | PULL

datatype timeout_state = TIMER_PGWID_RX | TIMER_NONE | TIMER_FUOTA_RESPONSE

datatype odm_call = ParseProfile u8 ptr nat | ParseScalarProfile u8 ptr | SingleObisRead ptr nat

text \<open>What \<open>recv\<close> delivers: bytes, nothing until the timeout, an error, or the end of the
  connection; with the time at which it returns.\<close>

datatype rx = RxData bytes | RxTimeout | RxError | RxClosed

record client =
  targetState :: target_state
  currentState :: current_state
  timeoutState :: timeout_state
  gatewayStatus :: bool
  duplicate_gateway :: bool
  need_to_validate_src_addr :: bool
  src_addr_check_buffer :: bytes
  comm_init_status :: bool
  fuota_rollback :: bool
  tx_page_index :: u8
  remaining_pkt_cnt :: u8
  client_rx_buffer :: bytes
  buffer_rx_length :: int
  gateway_id :: cstr
  gateway :: gateway_details
  current_ip_cycle :: int
  nodes_info :: "(mac \<times> node_info) list"
  currentNode :: "mac option"
  push :: push_state
  odm_log :: "odm_call list"
  clock :: env
  inbox :: "(env \<times> rx) list"
  send_results :: "int list"
  wire :: "bytes list"
  odm_flags :: "bool list"

abbreviation (input) CONNECTED :: bool where "CONNECTED \<equiv> False"
abbreviation (input) DISCONNECTED :: bool where "DISCONNECTED \<equiv> True"

text \<open>\<open>initCommunication\<close> runs a first exchange with the gateway: its result, how many of the awaited
  receptions that takes, and the state after it.  \<open>handle_single_obis_read\<close> only changes the data
  of on-demand requests, which the log stands for.\<close>

record hooks =
  initCommunication :: "ptr \<Rightarrow> int \<Rightarrow> client \<Rightarrow> (int \<times> nat \<times> client) option"
  handle_single_obis_read :: "odm_call list \<Rightarrow> ptr \<Rightarrow> nat \<Rightarrow> int option"

text \<open>\<open>nodes_info\<close> is a \<open>std::map\<close>: an association list in the order of its keys.\<close>

definition node_of :: "client \<Rightarrow> mac \<Rightarrow> node_info option" where
  "node_of c mac = map_of (nodes_info c) mac"

definition set_node :: "mac \<Rightarrow> node_info \<Rightarrow> client \<Rightarrow> client" where
  "set_node mac node c = c\<lparr>nodes_info := AList.update mac node (nodes_info c)\<rparr>"

section \<open>Validation of a packet\<close>

definition validate_source_address :: "ptr \<Rightarrow> client \<Rightarrow> int option" where
  "validate_source_address buf c = do {
     packet_type \<leftarrow> rd buf 2;
     if packet_type = MESH_COMMISSION_PACKET \<or> packet_type = MESH_DATA_QUERY \<or> packet_type = MESH_PING_REQUEST
     then Some SUCCESS
     else do {
       addr \<leftarrow> rd_seq buf 11 4;
       Some (if addr = src_addr_check_buffer c then SUCCESS else FAILURE)
     }
   }"

text \<open>\<open>rx_buf[1] + 1 == length\<close>\<close>

definition length_matches :: "ptr \<Rightarrow> int \<Rightarrow> bool option" where
  "length_matches buf len = map_option (\<lambda>l. uint l + 1 = len) (rd buf 1)"

definition is_valid_packet :: "ptr \<Rightarrow> int \<Rightarrow> client \<Rightarrow> (int \<times> client) option" where
  "is_valid_packet rx_buf len c =
     ifB (allB [eqB rx_buf 0 HES_START_BYTE, length_matches rx_buf len, eqB rx_buf 17 PUSH_DATA_START_BYTE])
       (Some (SUCCESS, c))
       (ifB (allB [eqB rx_buf 0 HES_START_BYTE, length_matches rx_buf len])
         (if need_to_validate_src_addr c then do {
            let c = c\<lparr>need_to_validate_src_addr := False\<rparr>;
            r \<leftarrow> validate_source_address rx_buf c;
            Some (if r = SUCCESS then SUCCESS else INVALID_RESPONSE, c)
          }
          else Some (INVALID_RESPONSE, c))
         (if fuota_rollback c
          then Some (SUCCESS, c\<lparr>currentState := IDLE, timeoutState := TIMER_NONE, fuota_rollback := False\<rparr>)
          else Some (INVALID_RESPONSE, c)))"

text \<open>The last part of the two accepting cases of \<open>processPacketType\<close>.\<close>

definition accept_packet :: "ptr \<Rightarrow> client \<Rightarrow> (int \<times> client) option" where
  "accept_packet rx_buf c =
     (if need_to_validate_src_addr c then do {
        let c = c\<lparr>need_to_validate_src_addr := False\<rparr>;
        r \<leftarrow> validate_source_address rx_buf c;
        Some (if r = SUCCESS then SUCCESS else INVALID_RESPONSE, c)
      }
      else Some (SUCCESS, c))"

text \<open>The conditions of the chain, in order.\<close>

definition type_in :: "ptr \<Rightarrow> u8 list \<Rightarrow> bool option" where
  "type_in rx_buf ts = map_option (\<lambda>t. t \<in> set ts) (rd rx_buf 2)"

definition connect_status :: "ptr \<Rightarrow> u8 \<Rightarrow> u8 \<Rightarrow> bool option" where
  "connect_status rx_buf a b = allB [eqB rx_buf 2 0x08,
     orB (andB (eqB rx_buf 23 0x02) (eqB rx_buf 24 a)) (andB (eqB rx_buf 23 0x02) (eqB rx_buf 24 b)),
     eqB rx_buf 21 0x00]"

definition processPacketType :: "ptr \<Rightarrow> int \<Rightarrow> client \<Rightarrow> (int \<times> client) option" where
  "processPacketType rx_buf len c =
     ifB (andB (type_in rx_buf [0x07, 0x03]) (eqB rx_buf (len - 1) 0x06)) (Some (TIMEOUT_RECEIVED, c))
     (ifB (allB [eqB rx_buf 2 0x08, eqB rx_buf (len - 3) 0x01, eqB rx_buf (len - 2) 0x29, eqB rx_buf (len - 4) 0x0E])
       (Some (DLMS_CHECKSUM_ERROR, c))
     (ifB (allB [eqB rx_buf 2 0x08, eqB rx_buf (len - 3) 0x01, eqB rx_buf (len - 2) 0x25, eqB rx_buf (len - 4) 0x0E])
       (Some (DLMS_CONNECTION_FAILED, c))
     (ifB (connect_status rx_buf 0x00 0x02) (Some (DLMS_SUCCESS, c))
     (ifB (connect_status rx_buf 0x01 0x03) (Some (DLMS_CONNECTION_FAILED, c))
     (ifB (andB (eqB rx_buf 2 0x08) (eqB rx_buf 24 0x0E)) (Some (DLMS_ERROR, c))
     (ifB (andB (type_in rx_buf [0x07, 0x03]) (eqB rx_buf (len - 1) 0x07)) (Some (COMMAND_IN_PROGRESS, c))
     (ifB (type_in rx_buf [0x07, 0x0D, 0x03]) (Some (PMESH_ERROR, c))
     (ifB (allB [eqB rx_buf 0 HES_START_BYTE, length_matches rx_buf len, type_in rx_buf [0x08, 0x0E]])
       (accept_packet rx_buf c)
     (ifB (andB (eqB rx_buf 2 MESH_COMMISSION_PACKET_RESPONSE) (eqB rx_buf 0 HES_START_BYTE))
       (accept_packet rx_buf c)
       (Some (FAILURE, c)))))))))))"

section \<open>Interpretation of a response\<close>

text \<open>\<open>buff[pmesh.length] == PMESH_COMMAND_IN_PROGRESS\<close> in a packet of the given type.\<close>

definition still_in_progress :: "ptr \<Rightarrow> u8 \<Rightarrow> bool option" where
  "still_in_progress buff type = andB (eqB buff 2 type)
     (do { l \<leftarrow> rd buff 1; eqB buff (uint l) 0x07 })"

text \<open>An AT command response: \<open>command\<close> and \<open>status\<close> are the bytes 15 and 16.  The inner option is
  the result, or \<open>None\<close> when the switch is left by \<open>break\<close>.\<close>

definition at_response :: "u8 \<Rightarrow> ptr \<Rightarrow> client \<Rightarrow> (int option \<times> client) option" where
  "at_response command buff c =
     ifB (allB [eqB buff 2 MESH_COMMISSION_PACKET_RESPONSE, eqB buff 15 command, eqB buff 16 0x00]) (Some (Some SUCCESS, c))
     (ifB (still_in_progress buff MESH_COMMISSION_PACKET) (Some (Some PMESH_COMMAND_IN_PROGRESS, c))
       (Some (None, c)))"

definition fuota_status_response :: "ptr \<Rightarrow> client \<Rightarrow> (int option \<times> client) option" where
  "fuota_status_response buff c =
     ifB (allB [eqB buff 2 MESH_COMMISSION_PACKET_RESPONSE, eqB buff 15 0x9B, eqB buff 16 0x00, eqB buff 17 0x00])
       (Some (Some SUCCESS, c))
     (ifB (allB [eqB buff 2 MESH_COMMISSION_PACKET_RESPONSE, eqB buff 15 0x9B, eqB buff 16 0x00, eqB buff 17 0x01])
       (Some (Some ENABLED, c))
     (ifB (still_in_progress buff MESH_COMMISSION_PACKET) (Some (Some PMESH_COMMAND_IN_PROGRESS, c))
       (Some (None, c))))"

text \<open>The node \<open>currentNode\<close> points to; a pointer to a node that is gone is undefined.\<close>

definition with_current_node ::
    "(mac \<Rightarrow> node_info \<Rightarrow> (int option \<times> client) option) \<Rightarrow> client \<Rightarrow> (int option \<times> client) option" where
  "with_current_node f c = (case currentNode c of None \<Rightarrow> Some (Some FAILURE, c)
     | Some mac \<Rightarrow> do { node \<leftarrow> node_of c mac; f mac node })"

definition profile_page_response ::
    "(env \<Rightarrow> node_info \<Rightarrow> ptr \<Rightarrow> int \<Rightarrow> (int \<times> node_info) option) \<Rightarrow> ptr \<Rightarrow> int \<Rightarrow> mac \<Rightarrow> node_info \<Rightarrow> client \<Rightarrow>
     (int option \<times> client) option" where
  "profile_page_response process buff len mac node c = do {
     (ret, node') \<leftarrow> process (clock c) node buff len;
     Some (Some ret, set_node mac node' c)
   }"

definition profile_response ::
    "u8 \<Rightarrow> (env \<Rightarrow> node_info \<Rightarrow> ptr \<Rightarrow> int \<Rightarrow> (int \<times> node_info) option) \<Rightarrow> ptr \<Rightarrow> int \<Rightarrow> client \<Rightarrow>
     (int option \<times> client) option" where
  "profile_response command process buff len c = with_current_node (\<lambda>mac node.
     ifB (allB [eqB buff 0 HES_START_BYTE, eqB buff 17 PULL_START_BYTE, eqB buff 2 MESH_DATA_RESPONSE])
       (ifB (allB [eqB buff 21 FI_INSTANT_DATA, eqB buff 22 command])
         (ifB (allB [eqB buff 25 0x00, eqB buff 26 0x0E, eqB buff 27 0x01, eqB buff 28 0x28])
           (Some (Some DLMS_ERROR, c))
           (profile_page_response process buff len mac node c))
         (ifB (allB [eqB buff 24 FI_INSTANT_DATA, eqB buff 25 0x01, eqB buff 26 0x25])
           (Some (Some DLMS_CONNECTION_FAILED, c))
           (Some (None, c))))
       (ifB (still_in_progress buff MESH_DATA_QUERY) (Some (Some PMESH_COMMAND_IN_PROGRESS, c)) (Some (None, c)))) c"

definition ip_response :: "ptr \<Rightarrow> int \<Rightarrow> client \<Rightarrow> (int option \<times> client) option" where
  "ip_response buff len c = with_current_node (\<lambda>mac node.
     ifB (allB [eqB buff 0 HES_START_BYTE, eqB buff 17 PULL_START_BYTE, eqB buff 2 MESH_DATA_RESPONSE,
               eqB buff 21 FI_CACHE_DATA, eqB buff 22 COMMAND_IP_PROFILE])
       (profile_page_response process_ip_profile_data buff len mac node c)
       (ifB (still_in_progress buff MESH_DATA_QUERY) (Some (Some PMESH_COMMAND_IN_PROGRESS, c)) (Some (None, c)))) c"

definition dlms_connect_response :: "ptr \<Rightarrow> client \<Rightarrow> (int option \<times> client) option" where
  "dlms_connect_response buff c =
     ifB (allB [eqB buff 17 PULL_START_BYTE, eqB buff 2 MESH_DATA_RESPONSE])
       (ifB (orB (eqB buff 24 0x00) (eqB buff 24 0x02)) (Some (Some SUCCESS, c))
         (ifB (eqB buff 24 0x01) (Some (Some DLMS_CONNECTION_FAILED, c)) (Some (None, c))))
       (ifB (still_in_progress buff MESH_DATA_QUERY) (Some (Some PMESH_COMMAND_IN_PROGRESS, c)) (Some (None, c)))"

text \<open>\<open>memcpy\<close> of \<open>length - 16\<close> bytes: a negative count becomes a huge \<open>size_t\<close>.\<close>

definition internal_fv_response :: "ptr \<Rightarrow> client \<Rightarrow> (int option \<times> client) option" where
  "internal_fv_response buff c = with_current_node (\<lambda>mac node.
     ifB (allB [eqB buff 2 MESH_COMMISSION_PACKET_RESPONSE, eqB buff 16 0x00])
       (do {
          l \<leftarrow> rd buff 1;
          if l < 16 then None
          else do {
            bs \<leftarrow> rd_seq buff 17 (unat l - 16);
            let d = node_data node;
            Some (Some SUCCESS, set_node mac
              (node\<lparr>node_data := d\<lparr>internal_firmware_version := bs @ drop (length bs) (internal_firmware_version d)\<rparr>\<rparr>) c)
          }
        })
       (ifB (still_in_progress buff MESH_COMMISSION_PACKET) (Some (Some PMESH_COMMAND_IN_PROGRESS, c)) (Some (None, c)))) c"

text \<open>The switch over \<open>currentState\<close> in the target state \<open>PULL\<close>.\<close>

definition pull_response :: "ptr \<Rightarrow> int \<Rightarrow> client \<Rightarrow> (int option \<times> client) option" where
  "pull_response buff len c = (case currentState c of
       FUOTA_STATUS \<Rightarrow> fuota_status_response buff c
     | FUOTA_DISABLE \<Rightarrow> at_response 0x9B buff c
     | FLASH_SAVE \<Rightarrow> at_response 0x02 buff c
     | SOFT_RESET \<Rightarrow> at_response 0x01 buff c
     | NAMEPLATE \<Rightarrow> profile_response COMMAND_NAMEPLATE_PROFILE process_nameplate_data buff len c
     | DLMS_CONNECT \<Rightarrow> dlms_connect_response buff c
     | INTERNAL_FV \<Rightarrow> internal_fv_response buff c
     | DAILY_LOAD \<Rightarrow> profile_response COMMAND_DAILY_LOAD_PROFILE process_daily_load_data buff len c
     | BLOCK_LOAD \<Rightarrow> profile_response COMMAND_BLOCK_LOAD_PROFILE process_block_load_data buff len c
     | BILLING_HISTORY \<Rightarrow> profile_response COMMAND_BILLING_PROFILE process_billing_history_data buff len c
     | INSTANTANEOUS_PROFILE \<Rightarrow> ip_response buff len c
     | _ \<Rightarrow> Some (None, c))"

section \<open>Responses outside the pull cycle\<close>

text \<open>\<open>memchr\<close> on \<open>n\<close> bytes at \<open>p\<close>: the offset of the first \<open>v\<close>, if there is one.  It reads no
  further than the byte it finds.\<close>

fun memchr :: "ptr \<Rightarrow> u8 \<Rightarrow> nat \<Rightarrow> int option option" where
  "memchr p v 0 = Some None"
| "memchr p v (Suc n) = do {
     b \<leftarrow> rd p 0;
     if b = v then Some (Some 0)
     else map_option (map_option (\<lambda>i. i + 1)) (memchr (padd p 1) v n)
   }"

text \<open>The branches on the frame of a data response that was found complete: the result, or \<open>None\<close>
  when the code goes on to the next page status.\<close>

definition odm_frame_response :: "hooks \<Rightarrow> ptr \<Rightarrow> ptr \<Rightarrow> nat \<Rightarrow> client \<Rightarrow> (int option \<times> client) option" where
  "odm_frame_response h buff dlms_data dlms_len c = do {
     frame \<leftarrow> rd dlms_data 4;
     if frame = 0x0E then do {
       records \<leftarrow> rd dlms_data 8;
       if records = 0 then Some (Some INVALID_RESPONSE, c)
       else do {
         command \<leftarrow> rd dlms_data 5;
         if command \<in> {0x00, 0x01, 0x03, 0x04, 0x02, 0x08}
         then Some (None, c\<lparr>odm_log := odm_log c @ [ParseProfile command dlms_data dlms_len]\<rparr>)
         else Some (Some INVALID_RESPONSE, c)
       }
     }
     else do {
       frame \<leftarrow> rd buff 21;
       if frame = 0x0F then do {
         ret \<leftarrow> handle_single_obis_read h (odm_log c) buff dlms_len;
         Some (Some ret, c\<lparr>odm_log := odm_log c @ [SingleObisRead buff dlms_len]\<rparr>)
       }
       else if frame = 0x0A then do {
         command \<leftarrow> rd buff 22;
         if command \<in> {0x01, 0x02, 0x03, 0x04}
         then Some (None, c\<lparr>odm_log := odm_log c @ [ParseScalarProfile command buff]\<rparr>)
         else Some (Some INVALID_RESPONSE, c)
       }
       else Some (Some INVALID_RESPONSE, c)
     }
   }"

definition note_remaining :: "ptr \<Rightarrow> client \<Rightarrow> client option" where
  "note_remaining buff c = do {
     remaining \<leftarrow> rd buff 15;
     if remaining = 0 then Some c
     else do {
       status \<leftarrow> rd buff 24;
       Some (if status = 0x01 then c\<lparr>remaining_pkt_cnt := remaining\<rparr> else c)
     }
   }"

definition mesh_data_response :: "hooks \<Rightarrow> ptr \<Rightarrow> int \<Rightarrow> client \<Rightarrow> (int \<times> client) option" where
  "mesh_data_response h buff len c = do {
     c \<leftarrow> note_remaining buff c;
     found \<leftarrow> memchr (padd buff 17) PULL_START_BYTE (nat (len - 17));
     case found of None \<Rightarrow> Some (INVALID_RESPONSE, c)
     | Some dlms_offset \<Rightarrow> do {
         let dlms_data = padd buff (17 + dlms_offset);
         page_index \<leftarrow> rd dlms_data 3;
         hi \<leftarrow> rd dlms_data 1;
         lo \<leftarrow> rd dlms_data 2;
         let dlms_len = be16 hi lo;
         if int dlms_len + 1 > len - 17 - dlms_offset then Some (INVALID_RESPONSE, c)
         else do {
           payload \<leftarrow> rd_seq dlms_data 0 dlms_len;
           actual_checksum \<leftarrow> rd dlms_data (int dlms_len);
           if checksum8 payload \<noteq> actual_checksum then Some (INVALID_RESPONSE, c)
           else if int dlms_len + 1 \<noteq> len - 17 - dlms_offset then Some (INVALID_RESPONSE, c)
           else do {
             (ret, c) \<leftarrow> odm_frame_response h buff dlms_data dlms_len c;
             case ret of Some r \<Rightarrow> Some (r, c)
             | None \<Rightarrow> do {
                 next \<leftarrow> rd buff 24;
                 Some (if next > 0 then SUCCES_NEXT_PAGE else SUCCESS, c)
               }
           }
         }
       }
   }"

definition commission_response :: "ptr \<Rightarrow> int option" where
  "commission_response buff = do {
     status \<leftarrow> rd buff 18;
     command \<leftarrow> rd buff 17;
     Some (if status = 0x01 \<and> command = 0x9D then SUCCESS
       else if status = 0x00 \<and> command = 0x9D then SUCCESS
       else if command = 0x9B \<and> status = 0x00 then SUCCESS
       else if status = 0x01 then FAILED_RESPONSE
       else FAILURE)
   }"

definition other_response :: "hooks \<Rightarrow> ptr \<Rightarrow> int \<Rightarrow> client \<Rightarrow> (int \<times> client) option" where
  "other_response h buff len c = do {
     type \<leftarrow> rd buff 2;
     if type = MESH_PING_RESPONSE then Some (SUCCESS, c)
     else if len < 17 then Some (INVALID_RESPONSE, c)
     else do {
       page \<leftarrow> rd buff 20;
       if tx_page_index c \<noteq> page then Some (INVALID_RESPONSE, c)
       else if type = MESH_DATA_RESPONSE then mesh_data_response h buff len c
       else if type = MESH_COMMISSION_PACKET_RESPONSE
       then map_option (\<lambda>r. (r, c)) (commission_response buff)
       else Some (FAILURE, c)
     }
   }"

definition client_process_data :: "hooks \<Rightarrow> ptr \<Rightarrow> int \<Rightarrow> client \<Rightarrow> (int \<times> client) option" where
  "client_process_data h buff len c =
     ifB (allB [Some (len > 17), eqB buff 0 HES_START_BYTE, eqB buff 17 PUSH_DATA_START_BYTE])
       (do {
          s \<leftarrow> process_push_data (clock c) buff len (gateway_id c) (push c);
          Some (PUSH_DATA_RECEIVED, c\<lparr>push := s\<rparr>)
        })
       (do {
          (ret, c) \<leftarrow> processPacketType buff len c;
          if ret \<noteq> SUCCESS then Some (ret, c)
          else do {
            (ret, c) \<leftarrow> (case targetState c of PULL \<Rightarrow> pull_response buff len c | TARGET_IDLE \<Rightarrow> Some (None, c));
            case ret of Some r \<Rightarrow> Some (r, c) | None \<Rightarrow> other_response h buff len c
          }
        })"

section \<open>The packets of a receive buffer\<close>

definition validate_received_data :: "hooks \<Rightarrow> ptr \<Rightarrow> int \<Rightarrow> client \<Rightarrow> (int \<times> client) option" where
  "validate_received_data h buffer len c = do {
     (retval, c) \<leftarrow> is_valid_packet buffer len c;
     if retval = SUCCESS then client_process_data h buffer len c
     else Some (INVALID_RESPONSE, c)
   }"

text \<open>The loop of \<open>client_received_data\<close>; \<open>loop\<close> counts down from 10, and the body runs once more
  when it is 0.\<close>

fun received_loop :: "hooks \<Rightarrow> ptr \<Rightarrow> int \<Rightarrow> int \<Rightarrow> nat \<Rightarrow> int \<Rightarrow> client \<Rightarrow> (int \<times> client) option" where
  "received_loop h buffer len offset loop ret c =
     (if len > offset then do {
        l \<leftarrow> rd buffer (offset + 1);
        let n = uint l + 1;
        (ret, c) \<leftarrow> validate_received_data h (padd buffer offset) n c;
        (case loop of 0 \<Rightarrow> Some (ret, c)
         | Suc loop' \<Rightarrow> received_loop h buffer len (offset + n) loop' ret c)
      }
      else Some (ret, c))"

declare received_loop.simps [simp del]

definition MAX_CLIENT_RX_BUFFER :: int where
  "MAX_CLIENT_RX_BUFFER = 4096"

definition client_received_data :: "hooks \<Rightarrow> ptr \<Rightarrow> int \<Rightarrow> client \<Rightarrow> (int \<times> client) option" where
  "client_received_data h buffer len c =
     (if len > MAX_CLIENT_RX_BUFFER then Some (0, c)
      else do {
        bs \<leftarrow> rd_seq buffer 0 (nat len);
        let c = c\<lparr>client_rx_buffer := bs @ replicate (4096 - length bs) 0, buffer_rx_length := len\<rparr>;
        if comm_init_status c
        then do {
          (ret, used, c') \<leftarrow> initCommunication h buffer len (c\<lparr>comm_init_status := False\<rparr>);
          Some (ret, c'\<lparr>inbox := drop used (inbox c)\<rparr>)
        }
        else received_loop h buffer len 0 10 0 c
      })"

section \<open>What receiving may change\<close>

text \<open>Received data changes profiles, push buffers and the logs; it clears the demand for a source
  address but never makes one, and it leaves the routes, the transport and the settings of the
  pull cycle as they are.\<close>

definition routes_of :: "client \<Rightarrow> (mac \<times> mac \<times> missing_cycle_info \<times> path_info \<times> path_info list) list" where
  "routes_of c = map (\<lambda>(m, n). (m, node_mac_address n, missing_info n, primary_path n, alternate_paths n)) (nodes_info c)"

definition pulled_log :: "client \<Rightarrow> db_op list" where
  "pulled_log c = filter pulled (db_log (push c))"

definition quiet :: "client \<Rightarrow> client \<Rightarrow> bool" where
  "quiet c c' \<longleftrightarrow> targetState c' = targetState c \<and> gatewayStatus c' = gatewayStatus c
     \<and> duplicate_gateway c' = duplicate_gateway c \<and> src_addr_check_buffer c' = src_addr_check_buffer c
     \<and> tx_page_index c' = tx_page_index c \<and> gateway_id c' = gateway_id c \<and> gateway c' = gateway c
     \<and> current_ip_cycle c' = current_ip_cycle c \<and> currentNode c' = currentNode c \<and> clock c' = clock c
     \<and> inbox c' = inbox c \<and> send_results c' = send_results c \<and> wire c' = wire c \<and> odm_flags c' = odm_flags c
     \<and> comm_init_status c' = comm_init_status c \<and> routes_of c' = routes_of c
     \<and> (need_to_validate_src_addr c' \<longrightarrow> need_to_validate_src_addr c)
     \<and> (fuota_rollback c' \<longrightarrow> fuota_rollback c) \<and> pulled_log c' = pulled_log c"

lemma quiet_refl [simp, intro]: "quiet c c"
  by (simp add: quiet_def)

lemma quiet_trans: "quiet a b \<Longrightarrow> quiet b c \<Longrightarrow> quiet a c"
  by (simp add: quiet_def)

lemma quiet_updates [simp]:
  "quiet c (c\<lparr>need_to_validate_src_addr := False\<rparr>)"
  "quiet c (c\<lparr>currentState := s, timeoutState := t, fuota_rollback := False\<rparr>)"
  "quiet c (c\<lparr>odm_log := l\<rparr>)" "quiet c (c\<lparr>remaining_pkt_cnt := n\<rparr>)"
  "quiet c (c\<lparr>client_rx_buffer := bs, buffer_rx_length := k\<rparr>)"
  by (simp_all add: quiet_def routes_of_def pulled_log_def)

lemma quiet_push: "process_push_data e b len g (push c) = Some s \<Longrightarrow> quiet c (c\<lparr>push := s\<rparr>)"
  by (auto simp: quiet_def routes_of_def pulled_log_def dest: process_push_data_pulled)

lemma map_update_same:
  "map_of xs k = Some v \<Longrightarrow> f (k, w) = f (k, v) \<Longrightarrow> map f (AList.update k w xs) = map f xs"
  by (induction xs) auto

lemma routes_of_set_node:
  "node_of c mac = Some node \<Longrightarrow> same_routes node node' \<Longrightarrow> routes_of (set_node mac node' c) = routes_of c"
  unfolding routes_of_def set_node_def node_of_def by (simp add: same_routes_def map_update_same)

lemma set_node_quiet [intro]:
  "node_of c mac = Some node \<Longrightarrow> same_routes node node' \<Longrightarrow> quiet c (set_node mac node' c)"
  using routes_of_set_node [of c mac node node'] by (simp add: quiet_def pulled_log_def) (simp add: set_node_def)

lemma ifB_elim: "ifB c a b = Some r \<Longrightarrow> (a = Some r \<Longrightarrow> P) \<Longrightarrow> (b = Some r \<Longrightarrow> P) \<Longrightarrow> P"
  by (auto simp: ifB_eq_Some_iff)

lemma accept_packet_quiet: "accept_packet b c = Some (r, c') \<Longrightarrow> quiet c c'"
  by (auto simp: accept_packet_def Let_def split: if_splits bind_splits)

lemma is_valid_packet_quiet: "is_valid_packet b len c = Some (r, c') \<Longrightarrow> quiet c c'"
  by (auto simp: is_valid_packet_def Let_def elim!: ifB_elim split: if_splits bind_splits)

lemma processPacketType_quiet: "processPacketType b len c = Some (r, c') \<Longrightarrow> quiet c c'"
  unfolding processPacketType_def by (elim ifB_elim) (auto elim: accept_packet_quiet)

lemma odm_frame_response_quiet: "odm_frame_response h b d n c = Some (r, c') \<Longrightarrow> quiet c c'"
  by (auto simp: odm_frame_response_def Let_def split: if_splits bind_splits)

lemma note_remaining_quiet: "note_remaining b c = Some c' \<Longrightarrow> quiet c c'"
  by (auto simp: note_remaining_def split: if_splits bind_splits)

lemma mesh_data_response_quiet: "mesh_data_response h b len c = Some (r, c') \<Longrightarrow> quiet c c'"
  by (auto simp: mesh_data_response_def Let_def split: if_splits bind_splits option.splits prod.splits
      elim: quiet_trans dest!: note_remaining_quiet odm_frame_response_quiet)

lemma other_response_quiet: "other_response h b len c = Some (r, c') \<Longrightarrow> quiet c c'"
  by (auto simp: other_response_def split: if_splits bind_splits dest: mesh_data_response_quiet)

lemma with_current_node_elim:
  assumes "with_current_node f c = Some (r, c')"
  obtains "c' = c" | mac node where "currentNode c = Some mac" "node_of c mac = Some node" "f mac node = Some (r, c')"
  using assms by (auto simp: with_current_node_def split: option.splits bind_splits)

lemma process_data_routes:
  assumes "f \<in> {process_nameplate_data, process_daily_load_data, process_block_load_data,
    process_billing_history_data, process_ip_profile_data}" and "f e node buff len = Some (ret, node')"
  shows "same_routes node node'"
  using assms by (auto simp: process_data_defs dest: pull_page_result)

lemma profile_page_response_quiet:
  assumes "profile_page_response f b len mac node c = Some (r, c')" and "node_of c mac = Some node"
    and "f \<in> {process_nameplate_data, process_daily_load_data, process_block_load_data,
      process_billing_history_data, process_ip_profile_data}"
  shows "quiet c c'"
proof -
  from assms(1) obtain ret node' where "f (clock c) node b len = Some (ret, node')" "c' = set_node mac node' c"
    by (auto simp: profile_page_response_def split: bind_splits)
  with process_data_routes [OF assms(3)] assms(2) show ?thesis by blast
qed

lemma profile_response_quiet:
  assumes "profile_response cmd f b len c = Some (r, c')"
    and f: "f \<in> {process_nameplate_data, process_daily_load_data, process_block_load_data,
      process_billing_history_data, process_ip_profile_data}"
  shows "quiet c c'"
  using assms(1) unfolding profile_response_def
proof (cases rule: with_current_node_elim)
  case (2 mac node)
  then show ?thesis by (auto elim!: ifB_elim dest: profile_page_response_quiet [OF _ _ f])
qed simp

lemma ip_response_quiet: "ip_response b len c = Some (r, c') \<Longrightarrow> quiet c c'"
  unfolding ip_response_def
  by (erule with_current_node_elim) (auto elim!: ifB_elim dest: profile_page_response_quiet)

lemma internal_fv_response_quiet: "internal_fv_response b c = Some (r, c') \<Longrightarrow> quiet c c'"
  unfolding internal_fv_response_def Let_def
  by (erule with_current_node_elim) (auto elim!: ifB_elim split: bind_splits if_splits)

lemma pull_response_quiet: "pull_response b len c = Some (r, c') \<Longrightarrow> quiet c c'"
  unfolding pull_response_def fuota_status_response_def at_response_def dlms_connect_response_def
  by (auto split: current_state.splits elim!: ifB_elim elim: profile_response_quiet ip_response_quiet internal_fv_response_quiet)

lemma client_process_data_quiet: "client_process_data h b len c = Some (r, c') \<Longrightarrow> quiet c c'"
  unfolding client_process_data_def
  by (elim ifB_elim; auto split: bind_splits if_splits option.splits target_state.splits
      dest!: quiet_push processPacketType_quiet pull_response_quiet other_response_quiet; blast intro: quiet_trans)

lemma validate_received_data_quiet: "validate_received_data h b len c = Some (r, c') \<Longrightarrow> quiet c c'"
  unfolding validate_received_data_def
  by (auto split: bind_splits if_splits elim: quiet_trans dest!: is_valid_packet_quiet client_process_data_quiet)

lemma received_loop_quiet: "received_loop h b len off k r0 c = Some (r, c') \<Longrightarrow> quiet c c'"
proof (induction k arbitrary: off r0 c)
  case 0
  then show ?case
    by (subst (asm) received_loop.simps)
      (auto split: bind_splits if_splits dest: validate_received_data_quiet simp: Let_def)
next
  case (Suc k)
  from Suc.prems show ?case
    by (subst (asm) received_loop.simps)
      (auto split: bind_splits if_splits dest!: validate_received_data_quiet Suc.IH elim: quiet_trans simp: Let_def)
qed

lemma client_received_data_quiet:
  assumes "client_received_data h b len c = Some (r, c')" and "\<not> comm_init_status c"
  shows "quiet c c'"
proof (cases "len > MAX_CLIENT_RX_BUFFER")
  case True
  with assms show ?thesis by (simp add: client_received_data_def)
next
  case False
  with assms obtain bs where "received_loop h b len 0 10 0
      (c\<lparr>client_rx_buffer := bs @ replicate (4096 - length bs) 0, buffer_rx_length := len\<rparr>) = Some (r, c')"
    by (auto simp: client_received_data_def Let_def split: bind_splits)
  from quiet_trans [OF quiet_updates(5) received_loop_quiet [OF this]] show ?thesis .
qed

text \<open>C37: received data, whatever it is, leaves the routes of every node, the settings of the pull
  cycle and the transport untouched, and never turns the demand for a source address on.\<close>

theorem receiving_is_quiet:
  assumes "client_received_data h b len c = Some (r, c')" and "\<not> comm_init_status c"
  shows "routes_of c' = routes_of c \<and> src_addr_check_buffer c' = src_addr_check_buffer c
    \<and> tx_page_index c' = tx_page_index c \<and> currentNode c' = currentNode c \<and> targetState c' = targetState c
    \<and> inbox c' = inbox c \<and> wire c' = wire c \<and> gatewayStatus c' = gatewayStatus c
    \<and> (need_to_validate_src_addr c' \<longrightarrow> need_to_validate_src_addr c)"
  using client_received_data_quiet [OF assms] by (simp add: quiet_def)

section \<open>Which packets are accepted\<close>

text \<open>The packet comes from the address that was asked, or is one of the requests that came back.\<close>

definition awaited :: "ptr \<Rightarrow> int \<Rightarrow> client \<Rightarrow> bool" where
  "awaited b len c \<longleftrightarrow> need_to_validate_src_addr c \<and> eqB b 0 HES_START_BYTE = Some True \<and> length_matches b len = Some True
     \<and> validate_source_address b c = Some SUCCESS"

definition not_push :: "ptr \<Rightarrow> bool" where
  "not_push b \<longleftrightarrow> rd b 17 \<noteq> Some PUSH_DATA_START_BYTE"

lemma is_valid_packet_cases:
  assumes "is_valid_packet b len c = Some (r, c')" and "not_push b" and "\<not> fuota_rollback c"
  shows "if r = SUCCESS then awaited b len c \<and> c' = c\<lparr>need_to_validate_src_addr := False\<rparr>
    else r = INVALID_RESPONSE \<and> (c' = c \<or> c' = c\<lparr>need_to_validate_src_addr := False\<rparr>)"
  using assms unfolding is_valid_packet_def awaited_def not_push_def validate_source_address_def
  by (auto simp: ifB_eq_Some_iff andB_True_iff eqB_True_iff Let_def split: if_splits bind_splits)

lemma validate_received_data_cases:
  assumes "validate_received_data h b len c = Some (r, c')" and "not_push b" and "\<not> fuota_rollback c"
  shows "awaited b len c \<and> \<not> need_to_validate_src_addr c'
    \<or> r = INVALID_RESPONSE \<and> (c' = c \<or> c' = c\<lparr>need_to_validate_src_addr := False\<rparr>)"
proof -
  from assms(1) obtain v c1 where v: "is_valid_packet b len c = Some (v, c1)"
    "if v = SUCCESS then client_process_data h b len c1 = Some (r, c') else (r, c') = (INVALID_RESPONSE, c1)"
    unfolding validate_received_data_def by (auto split: bind_splits if_splits)
  note 1 = is_valid_packet_cases [OF v(1) assms(2,3)]
  show ?thesis
  proof (cases "v = SUCCESS")
    case True
    with v(2) have "quiet c1 c'" by (auto dest: client_process_data_quiet)
    with True 1 show ?thesis by (simp add: quiet_def)
  next
    case False
    with 1 v(2) show ?thesis by auto
  qed
qed


section \<open>The packets of a buffer, one after another\<close>

text \<open>The reference: the packets in order, each validated at its place; the result of the last.\<close>

fun packets_run :: "hooks \<Rightarrow> bytes \<Rightarrow> int \<Rightarrow> bytes list \<Rightarrow> int \<times> client \<Rightarrow> (int \<times> client) option" where
  "packets_run h m off [] rc = Some rc"
| "packets_run h m off (p # ps) rc = do {
     rc \<leftarrow> validate_received_data h (m, off) (int (length p)) (snd rc);
     packets_run h m (off + int (length p)) ps rc
   }"

definition framed :: "bytes \<Rightarrow> bool" where
  "framed p \<longleftrightarrow> 2 \<le> length p \<and> unat (p ! 1) + 1 = length p"

lemma received_loop_packets:
  assumes "list_all framed ps"
  shows "received_loop h (pre @ concat ps @ z, 0) (int (length (pre @ concat ps))) (int (length pre)) k r c
    = packets_run h (pre @ concat ps @ z) (int (length pre)) (take (Suc k) ps) (r, c)"
  using assms
proof (induction ps arbitrary: pre k r c)
  case Nil
  then show ?case by (simp add: received_loop.simps)
next
  case (Cons p ps)
  then have p: "2 \<le> length p" "unat (p ! 1) + 1 = length p" by (simp_all add: framed_def)
  define m where "m = pre @ concat (p # ps) @ z"
  have "rd (m, 0) (int (length pre) + 1) = Some (p ! 1)"
    using p(1) by (simp add: m_def rd.simps nth_append nat_add_distrib)
  moreover have "uint (p ! 1) + 1 = int (length p)" using arg_cong [OF p(2), of int] by simp
  moreover have "int (length pre) < int (length (pre @ concat (p # ps)))" using p(1) by simp
  ultimately have step: "received_loop h (m, 0) (int (length (pre @ concat (p # ps)))) (int (length pre)) k r c =
    do {
      (ret, c) \<leftarrow> validate_received_data h (m, int (length pre)) (int (length p)) c;
      (case k of 0 \<Rightarrow> Some (ret, c)
       | Suc k' \<Rightarrow> received_loop h (m, 0) (int (length (pre @ concat (p # ps)))) (int (length pre) + int (length p)) k' ret c)
    }"
    by (subst received_loop.simps) (cases k; simp add: Let_def)
  have IH: "received_loop h (m, 0) (int (length (pre @ concat (p # ps)))) (int (length pre) + int (length p)) k' ret c
    = packets_run h m (int (length pre) + int (length p)) (take (Suc k') ps) (ret, c)" for k' ret c
    using Cons.IH [of "pre @ p" k' ret c] Cons.prems by (simp add: m_def add.assoc)
  show ?case
    unfolding m_def [symmetric] step IH
    by (cases k; cases "validate_received_data h (m, int (length pre)) (int (length p)) c") (auto simp: m_def)
qed

lemma client_received_packets:
  assumes "list_all framed ps" and "length (concat ps) \<le> 4096" and "\<not> comm_init_status c"
  shows "client_received_data h (concat ps @ z, 0) (int (length (concat ps))) c
    = packets_run h (concat ps @ z) 0 (take 11 ps)
        (0, c\<lparr>client_rx_buffer := concat ps @ replicate (4096 - length (concat ps)) 0,
              buffer_rx_length := int (length (concat ps))\<rparr>)"
proof -
  have "rd_seq (concat ps @ z, 0) 0 (length (concat ps)) = Some (concat ps)"
    by (rule rd_seq_prefix)
  then show ?thesis
    using received_loop_packets [OF assms(1), of h "[]" z 10] assms(2,3)
    by (simp add: client_received_data_def MAX_CLIENT_RX_BUFFER_def Let_def)
qed

text \<open>A receive buffer that is a sequence of packets, each as long as it says, is processed
  packet by packet and in order, whatever follows it in memory; the result is that of the last
  packet processed, and from the twelfth packet on the data is ignored.\<close>

theorem client_received_data_packets:
  assumes "list_all framed ps" and "length (concat ps) \<le> 4096" and "\<not> comm_init_status c"
  shows "client_received_data h (concat ps @ z, 0) (int (length (concat ps))) c
    = packets_run h (concat ps @ z) 0 (take 11 ps)
        (0, c\<lparr>client_rx_buffer := concat ps @ replicate (4096 - length (concat ps)) 0,
              buffer_rx_length := int (length (concat ps))\<rparr>)"
  using assms by (rule client_received_packets)

lemma packets_run_append:
  "packets_run h m off (ps @ qs) rc = do {
     rc \<leftarrow> packets_run h m off ps rc;
     packets_run h m (off + int (length (concat ps))) qs rc
   }"
proof (induction ps arbitrary: off rc)
  case (Cons p ps)
  then show ?case
    by (cases "validate_received_data h (m, off) (int (length p)) (snd rc)") (simp_all add: add.assoc)
qed simp

lemma validate_received_data_ends_wait:
  assumes "validate_received_data h b len c = Some (r, c')" and "not_push b" and "\<not> fuota_rollback c"
    and "rd b 0 = Some HES_START_BYTE" and "length_matches b len = Some True"
  shows "\<not> need_to_validate_src_addr c' \<and> \<not> fuota_rollback c'"
proof -
  from assms(1) obtain v c1 where v: "is_valid_packet b len c = Some (v, c1)" "quiet c1 c'"
    unfolding validate_received_data_def by (auto split: bind_splits if_splits dest!: client_process_data_quiet)
  moreover have "\<not> need_to_validate_src_addr c1 \<and> \<not> fuota_rollback c1"
    using v(1) assms(2-5) unfolding is_valid_packet_def not_push_def
    by (auto simp: ifB_eq_Some_iff andB_True_iff eqB_True_iff eqB_def Let_def split: if_splits bind_splits)
  ultimately show ?thesis by (auto simp: quiet_def)
qed

definition answer_packet :: "bytes \<Rightarrow> bool" where
  "answer_packet p \<longleftrightarrow> framed p \<and> 18 \<le> length p \<and> p ! 0 = HES_START_BYTE \<and> p ! 17 \<noteq> PUSH_DATA_START_BYTE"

lemma answer_packet_at:
  assumes "answer_packet p"
  shows "rd (pre @ p @ z, int (length pre)) 0 = Some HES_START_BYTE"
    and "length_matches (pre @ p @ z, int (length pre)) (int (length p)) = Some True"
    and "not_push (pre @ p @ z, int (length pre))"
proof -
  let ?b = "(pre @ p @ z, int (length pre))"
  have p: "2 \<le> length p" "unat (p ! 1) + 1 = length p" "18 \<le> length p" using assms by (simp_all add: answer_packet_def framed_def)
  then have "rd ?b (int k) = Some (p ! k)" if "k < 18" for k
    using that by (simp add: rd.simps nth_append nat_add_distrib)
  from this [of 0] this [of 1] this [of 17] arg_cong [OF p(2), of int] assms
  show "rd ?b 0 = Some HES_START_BYTE" "length_matches ?b (int (length p)) = Some True" "not_push ?b"
    by (simp_all add: answer_packet_def length_matches_def not_push_def)
qed

text \<open>When two answers arrive in one buffer, the result is \<open>INVALID_RESPONSE\<close> even if the first is
  the awaited one and was processed: the second finds no wait left, and its refusal replaces the
  result of the first.\<close>

theorem second_packet_masks_first:
  assumes "answer_packet p" and "answer_packet q" and "\<not> comm_init_status c" and "\<not> fuota_rollback c"
    and "client_received_data h (p @ q @ z, 0) (int (length p + length q)) c = Some (r, c')"
  shows "r = INVALID_RESPONSE \<and> (\<exists>r1. validate_received_data h (p @ q @ z, 0) (int (length p))
    (c\<lparr>client_rx_buffer := p @ q @ replicate (4096 - length (p @ q)) 0, buffer_rx_length := int (length p + length q)\<rparr>)
      = Some (r1, c'))"
proof -
  let ?m = "p @ q @ z"
  let ?c = "c\<lparr>client_rx_buffer := p @ q @ replicate (4096 - length (p @ q)) 0, buffer_rx_length := int (length p + length q)\<rparr>"
  have f: "framed p" "framed q" using assms(1,2) by (simp_all add: answer_packet_def)
  then have "length p \<le> 256" "length q \<le> 256"
    using unsigned_less [of "p ! 1", where ?'a = nat] unsigned_less [of "q ! 1", where ?'a = nat] by (simp_all add: framed_def)
  then have "client_received_data h (concat [p, q] @ z, 0) (int (length (concat [p, q]))) c
    = packets_run h (concat [p, q] @ z) 0 [p, q] (0, c\<lparr>client_rx_buffer := concat [p, q] @ replicate (4096 - length (concat [p, q])) 0,
              buffer_rx_length := int (length (concat [p, q]))\<rparr>)"
    using client_received_packets [of "[p, q]" c h z] f assms(3) by simp
  with assms(5) have run: "packets_run h ?m 0 [p, q] (0, ?c) = Some (r, c')" by simp
  then obtain r1 c1 where 1: "validate_received_data h (?m, 0) (int (length p)) ?c = Some (r1, c1)"
    and 2: "validate_received_data h (?m, int (length p)) (int (length q)) c1 = Some (r, c')"
    by (auto split: bind_splits)
  have w: "\<not> need_to_validate_src_addr c1 \<and> \<not> fuota_rollback c1"
    using validate_received_data_ends_wait [OF 1] answer_packet_at [OF assms(1), of "[]" "q @ z"] assms(4) by simp
  have "\<not> awaited (?m, int (length p)) (int (length q)) c1" using w by (simp add: awaited_def)
  with validate_received_data_cases [OF 2] answer_packet_at(3) [OF assms(2), of p z] w
  have "r = INVALID_RESPONSE" "c' = c1 \<or> c' = c1\<lparr>need_to_validate_src_addr := False\<rparr>" by simp_all
  moreover from w have "c1\<lparr>need_to_validate_src_addr := False\<rparr> = c1" by simp
  ultimately show ?thesis using 1 by auto
qed

section \<open>Concrete inputs\<close>

definition example_hooks :: hooks where
  "example_hooks = \<lparr>initCommunication = \<lambda>_ _ c. Some (FAILURE, 0, c), handle_single_obis_read = \<lambda>_ _ _. Some SUCCESS\<rparr>"

definition example_client :: client where
  "example_client = \<lparr>targetState = PULL, currentState = SOFT_RESET, timeoutState = TIMER_NONE,
     gatewayStatus = CONNECTED, duplicate_gateway = False, need_to_validate_src_addr = True,
     src_addr_check_buffer = example_dst, comm_init_status = False, fuota_rollback = False,
     tx_page_index = 0, remaining_pkt_cnt = 0, client_rx_buffer = replicate 4096 0, buffer_rx_length = 0,
     gateway_id = ''3CC1F601A3535435'', gateway = \<lparr>serial_number = [0x3C, 0xC1, 0xF6, 1, 0xA3, 0x53, 0x54, 0x35], panid = [0, 0, 0x54, 0x35]\<rparr>,
     current_ip_cycle = 0, nodes_info = [(to_mac_array example_dst, example_node)], currentNode = Some (to_mac_array example_dst),
     push = empty_push_state, odm_log = [], clock = example_env, inbox = [], send_results = [], wire = [], odm_flags = []\<rparr>"

definition at_answer :: "u8 \<Rightarrow> bytes" where
  "at_answer command = [HES_START_BYTE, 17, MESH_COMMISSION_PACKET_RESPONSE, 0, 0, 0x54, 0x35, 0xA3, 0x53, 0x54, 0x35]
     @ example_dst @ [command, 0, 0]"

lemma at_answer_answer: "answer_packet (at_answer k)"
  by (simp add: answer_packet_def framed_def at_answer_def example_dst_def)

lemma example_two_answers: "map_option fst (client_received_data example_hooks (at_answer 1 @ at_answer 1 @ [], 0) (int (length (at_answer 1) + length (at_answer 1))) example_client)
   = Some INVALID_RESPONSE"
  by code_simp

lemma example_answer:
  "map_option fst (client_received_data example_hooks (at_answer 1, 0) (int (length (at_answer 1))) example_client) = Some SUCCESS"
  by code_simp

lemma example_validated:
  "map_option fst (validate_received_data example_hooks (at_answer 1, 0) (int (length (at_answer 1))) example_client) = Some SUCCESS"
  by code_simp

lemma example_client_settings: "\<not> comm_init_status example_client" "\<not> fuota_rollback example_client"
  by (simp_all add: example_client_def)

theorem receiving_is_quiet_witness:
  "\<exists>c'. client_received_data example_hooks (at_answer 1, 0) (int (length (at_answer 1))) example_client = Some (SUCCESS, c')
    \<and> routes_of c' = routes_of example_client"
proof -
  from example_answer obtain c' where
    "client_received_data example_hooks (at_answer 1, 0) (int (length (at_answer 1))) example_client = Some (SUCCESS, c')"
    by auto
  with receiving_is_quiet [OF this example_client_settings(1)] show ?thesis by blast
qed


theorem client_received_data_packets_witness:
  "client_received_data example_hooks (at_answer 1 @ at_answer 2, 0) 36 example_client
    = packets_run example_hooks (at_answer 1 @ at_answer 2) 0 [at_answer 1, at_answer 2]
        (0, example_client\<lparr>client_rx_buffer := at_answer 1 @ at_answer 2 @ replicate 4060 0, buffer_rx_length := 36\<rparr>)"
  using client_received_data_packets [of "[at_answer 1, at_answer 2]" example_client example_hooks "[]"] example_client_settings(1)
    at_answer_answer [of 1] at_answer_answer [of 2]
  by (simp add: answer_packet_def at_answer_def example_dst_def del: replicate.simps)

theorem second_packet_masks_first_witness:
  "\<exists>c'. client_received_data example_hooks (at_answer 1 @ at_answer 1 @ [], 0) (int (length (at_answer 1) + length (at_answer 1)))
      example_client = Some (INVALID_RESPONSE, c')"
proof -
  from example_two_answers obtain r c' where
    r: "client_received_data example_hooks (at_answer 1 @ at_answer 1 @ [], 0) (int (length (at_answer 1) + length (at_answer 1)))
      example_client = Some (r, c')" by auto
  with second_packet_masks_first [OF at_answer_answer at_answer_answer example_client_settings this] show ?thesis by simp
qed

end
