(* ===== verification/Transmit.thy ===== *)
theory Transmit
  imports Receive "HOL-Library.Sublist"
begin

text \<open>
  Sending a command and waiting for its answer (\<open>HES/src/client.cpp\<close>): \<open>write_to_client\<close>,
  \<open>write_to_client_vector\<close>, \<open>receive_data\<close> and the retry loop
  \<open>transmit_command_and_validate_response\<close>.

  What \<open>recv\<close> and \<open>send\<close> will return is part of the state: \<open>inbox\<close> holds the receptions still to
  come, after which nothing arrives any more and every \<open>recv\<close> times out; \<open>send_results\<close> holds
  what the next calls of \<open>send\<close> return, after which every \<open>send\<close> takes all it is given.  \<open>wire\<close> is
  what was sent, one entry per call.
\<close>

section \<open>Sending\<close>

definition get_destination_address :: "ptr \<Rightarrow> client \<Rightarrow> client option" where
  "get_destination_address buf c =
     ifB (orB (eqB buf 0 HES_START_BYTE) (eqB buf 0 NMS_START_BYTE))
       (do {
          cmd_type \<leftarrow> rd buf 2;
          if cmd_type = MESH_PING_REQUEST \<or> cmd_type = MESH_DATA_QUERY \<or> cmd_type = MESH_COMMISSION_PACKET
          then do {
            no_of_routers \<leftarrow> rd buf 12;
            destination_mac \<leftarrow> rd_seq buf (if no_of_routers = 0 then 13 else 13 + (uint no_of_routers - 1) * 4) 4;
            Some (c\<lparr>src_addr_check_buffer := destination_mac, need_to_validate_src_addr := True\<rparr>)
          }
          else Some c
        })
       (Some c)"

text \<open>One call of \<open>send\<close> with the bytes that are left.\<close>

definition send :: "bytes \<Rightarrow> client \<Rightarrow> int \<times> client" where
  "send left c = (case send_results c of
       [] \<Rightarrow> (int (length left), c\<lparr>wire := wire c @ [left]\<rparr>)
     | r # rs \<Rightarrow> (let written = min r (int (length left))
         in (written, c\<lparr>send_results := rs, wire := wire c @ [take (nat written) left]\<rparr>)))"

text \<open>The loop of both functions; \<open>failed\<close> is the status they give the gateway.\<close>

function send_loop :: "bool \<Rightarrow> bytes \<Rightarrow> client \<Rightarrow> int \<times> client" where
  "send_loop failed left c =
     (if left = [] then (SUCCESS, c)
      else (let (written, c) = send left c
        in if written < 0 then (FAILURE, c\<lparr>gatewayStatus := failed\<rparr>)
           else if written = 0 then (SUCCESS, c\<lparr>gatewayStatus := failed\<rparr>)
           else send_loop failed (drop (nat written) left) c))"
  by pat_completeness auto
termination
  by (relation "measure (\<lambda>(_, left, _). length left)") auto

declare send_loop.simps [simp del]

text \<open>\<open>gatewayStatus = 0\<close>, which is \<open>CONNECTED\<close>.\<close>

definition write_to_client :: "bytes \<Rightarrow> client \<Rightarrow> (int \<times> client) option" where
  "write_to_client buf c = do {
     c \<leftarrow> get_destination_address (buf, 0) c;
     Some (send_loop CONNECTED buf c)
   }"

definition write_to_client_vector :: "bytes \<Rightarrow> client \<Rightarrow> (int \<times> client) option" where
  "write_to_client_vector buff c = do {
     c \<leftarrow> get_destination_address (buff, 0) c;
     Some (send_loop DISCONNECTED buff c)
   }"

section \<open>Receiving\<close>

text \<open>\<open>recv\<close> into \<open>size\<close> bytes of a buffer filled with zeros: what it returns, the buffer, and what is
  still to come.  Bytes that do not fit are delivered by the next call; no bytes at all is the
  end of the connection.\<close>

definition recv :: "nat \<Rightarrow> client \<Rightarrow> rx \<times> bytes \<times> client" where
  "recv n c = (case inbox c of
       [] \<Rightarrow> (RxTimeout, replicate n 0, c)
     | (t, r) # rest \<Rightarrow> (case r of
           RxData bs \<Rightarrow> (if bs = [] then (RxClosed, replicate n 0, c\<lparr>clock := t, inbox := rest\<rparr>)
             else (RxData (take n bs), take n bs @ replicate (n - length bs) 0,
               c\<lparr>clock := t, inbox := (if length bs \<le> n then rest else (t, RxData (drop n bs)) # rest)\<rparr>))
         | _ \<Rightarrow> (r, replicate n 0, c\<lparr>clock := t, inbox := rest\<rparr>)))"

definition receive_data :: "nat \<Rightarrow> client \<Rightarrow> (int \<times> bytes \<times> client) option" where
  "receive_data n c =
     (let (received, buff, c) = recv n c
      in do {
        head \<leftarrow> rd_seq (buff, 0) 0 4;
        c \<leftarrow> (if head = [0x50, 0x49, 0x4E, 0x47] then map_option snd (write_to_client [0x50, 0x4F, 0x4E, 0x47] c) else Some c);
        Some (case received of
            RxClosed \<Rightarrow> (0, buff, c\<lparr>gatewayStatus := DISCONNECTED\<rparr>)
          | RxTimeout \<Rightarrow> (- 1, buff, c)
          | RxError \<Rightarrow> (- 1, buff, c\<lparr>gatewayStatus := DISCONNECTED\<rparr>)
          | RxData bs \<Rightarrow> (int (length bs), buff, c))
      })"

definition receive_data_and_validate_response :: "hooks \<Rightarrow> client \<Rightarrow> (int \<times> client) option" where
  "receive_data_and_validate_response h c = do {
     (rxLen, buffer, c) \<leftarrow> receive_data 4096 c;
     if rxLen > 0 then client_received_data h (buffer, 0) rxLen c else Some (POLL_TIMEOUT, c)
   }"

section \<open>The retry loop\<close>

text \<open>\<open>got\<close> is \<open>got_any_response\<close>.  The results that are handed to the caller, and those after
  which the loop goes on waiting without another attempt being counted.\<close>

definition final_result :: "int \<Rightarrow> bool" where
  "final_result ret \<longleftrightarrow> ret = SUCCESS \<or> ret = ENABLED \<or> ret = NEXT_PAGE_PRESENT \<or> ret = DLMS_CONNECTION_FAILED
     \<or> ret = DLMS_ERROR \<or> ret = DLMS_SUCCESS"

definition keeps_waiting :: "int \<Rightarrow> bool" where
  "keeps_waiting ret \<longleftrightarrow> ret = PMESH_COMMAND_IN_PROGRESS \<or> ret = INVALID_SRC_ADDR \<or> ret = PUSH_DATA_RECEIVED"

text \<open>The code after the loop.\<close>

definition give_up :: "nat \<Rightarrow> bool \<Rightarrow> client \<Rightarrow> (int \<times> client) option" where
  "give_up maxRetries got c =
     Some (FAILURE, if maxRetries > 0 \<and> \<not> got then c\<lparr>gatewayStatus := DISCONNECTED\<rparr> else c)"

fun weight :: "rx \<Rightarrow> nat" where
  "weight (RxData bs) = Suc (length bs)"
| "weight _ = 1"

definition pending :: "client \<Rightarrow> nat" where
  "pending c = (\<Sum>x \<leftarrow> inbox c. weight (snd x))"

text \<open>One pass of the loop body: the loop returns a result, is left by \<open>break\<close>, or goes on, with
  another attempt counted or not.\<close>

datatype pass = Return int | Break bool | Again bool | Attempt bool

definition listen :: "hooks \<Rightarrow> bool \<Rightarrow> client \<Rightarrow> (pass \<times> client) option" where
  "listen h got c = do {
     (rxLen, buffer, c) \<leftarrow> receive_data 512 c;
     if rxLen > 0 then do {
       (ret, c) \<leftarrow> client_received_data h (buffer, 0) rxLen c;
       Some (if final_result ret then (Return ret, c)
         else if keeps_waiting ret
         then (Again True, if ret = INVALID_SRC_ADDR then c\<lparr>need_to_validate_src_addr := True\<rparr> else c)
         else (Attempt True, c))
     }
     else Some (if gatewayStatus c = DISCONNECTED \<or> duplicate_gateway c then Break got else Attempt got, c)
   }"

definition attempt :: "hooks \<Rightarrow> bytes \<Rightarrow> bool \<Rightarrow> bool \<Rightarrow> client \<Rightarrow> (pass \<times> client) option" where
  "attempt h buff need_to_write got c = do {
     (w, c) \<leftarrow> (if need_to_write then write_to_client_vector buff c else Some (SUCCESS, c));
     if w \<noteq> SUCCESS then Some (Break got, c) else listen h got c
   }"

text \<open>Every pass that is not counted takes something from what is still to come, so the loop ends.\<close>

lemma sum_list_drop: "(\<Sum>x \<leftarrow> drop n xs. f x) \<le> (\<Sum>x \<leftarrow> xs. f x :: nat)"
  by (induction xs arbitrary: n) (auto simp: drop_Cons split: nat.splits intro: le_trans trans_le_add2)

text \<open>Sending only changes the record of what was sent and the status.\<close>

lemma send_only: "\<exists>ws ss. snd (send left c) = c\<lparr>wire := ws, send_results := ss\<rparr>"
proof (cases "send_results c")
  case Nil
  then have "snd (send left c) = c\<lparr>wire := wire c @ [left], send_results := []\<rparr>" by (simp add: send_def)
  then show ?thesis by blast
next
  case (Cons r rs)
  then have "snd (send left c) = c\<lparr>wire := wire c @ [take (nat (min r (int (length left)))) left], send_results := rs\<rparr>"
    by (simp add: send_def Let_def)
  then show ?thesis by blast
qed

lemma send_loop_only: "\<exists>ws ss g. snd (send_loop f left c) = c\<lparr>wire := ws, send_results := ss, gatewayStatus := g\<rparr>"
proof (induction f left c rule: send_loop.induct)
  case (1 f left c)
  obtain k c1 where s: "send left c = (k, c1)" by fastforce
  with send_only [of left c] obtain ws ss where c1: "c1 = c\<lparr>wire := ws, send_results := ss\<rparr>" by auto
  show ?case
  proof (cases "left = []")
    case True
    then have "snd (send_loop f left c) = c\<lparr>wire := wire c, send_results := send_results c, gatewayStatus := gatewayStatus c\<rparr>"
      by (simp add: send_loop.simps)
    then show ?thesis by blast
  next
    case False
    have step: "send_loop f left c = (if k < 0 then (FAILURE, c1\<lparr>gatewayStatus := f\<rparr>)
      else if k = 0 then (SUCCESS, c1\<lparr>gatewayStatus := f\<rparr>) else send_loop f (drop (nat k) left) c1)"
      using False s by (subst send_loop.simps) simp
    show ?thesis
    proof (cases "k \<le> 0")
      case True
      then have "snd (send_loop f left c) = c\<lparr>wire := ws, send_results := ss, gatewayStatus := f\<rparr>"
        unfolding step c1 by simp
      then show ?thesis by blast
    next
      case pos: False
      with 1 [OF False s [symmetric] refl] obtain ws' ss' g where
        "snd (send_loop f (drop (nat k) left) c1) = c1\<lparr>wire := ws', send_results := ss', gatewayStatus := g\<rparr>" by auto
      with pos have "snd (send_loop f left c) = c\<lparr>wire := ws', send_results := ss', gatewayStatus := g\<rparr>"
        unfolding step c1 by simp
      then show ?thesis by blast
    qed
  qed
qed

lemma send_loop_inbox: "inbox (snd (send_loop f left c)) = inbox c"
  using send_loop_only [of f left c] by auto

lemma get_destination_address_inbox: "get_destination_address b c = Some c' \<Longrightarrow> inbox c' = inbox c"
  by (auto simp: get_destination_address_def elim!: ifB_elim split: bind_splits if_splits)

lemma write_inbox:
  "write_to_client_vector b c = Some (w, c') \<Longrightarrow> inbox c' = inbox c"
  "write_to_client b c = Some (w, c') \<Longrightarrow> inbox c' = inbox c"
  unfolding write_to_client_vector_def write_to_client_def
  by (auto split: bind_splits dest!: get_destination_address_inbox) (metis send_loop_inbox snd_conv)+

lemma client_received_data_pending:
  "client_received_data h b len c = Some (r, c') \<Longrightarrow> pending c' \<le> pending c"
  unfolding client_received_data_def
  by (auto simp: Let_def pending_def sum_list_drop quiet_def split: if_splits bind_splits dest!: received_loop_quiet)

lemma recv_pending:
  assumes "recv n c = (r, b, c')" and "0 < n"
  shows "pending c' \<le> pending c" and "r = RxData bs \<Longrightarrow> pending c' < pending c" and "r = RxData bs \<Longrightarrow> bs \<noteq> []"
  using assms unfolding recv_def pending_def by (auto split: list.splits prod.splits rx.splits if_splits)

lemma receive_data_pending:
  assumes "receive_data n c = Some (k, b, c')" and "0 < n"
  shows "pending c' \<le> pending c" and "k > 0 \<Longrightarrow> pending c' < pending c"
proof -
  obtain r buff c1 where r: "recv n c = (r, buff, c1)" by (rule prod_cases3)
  with assms have "inbox c' = inbox c1" and k: "k > 0 \<Longrightarrow> \<exists>bs. r = RxData bs"
    unfolding receive_data_def by (auto simp: Let_def split: bind_splits if_splits rx.splits dest!: write_inbox)
  then have "pending c' = pending c1" by (simp add: pending_def)
  with recv_pending [OF r assms(2)] k show "pending c' \<le> pending c" "k > 0 \<Longrightarrow> pending c' < pending c" by auto
qed

lemma pending_update [simp]: "pending (c\<lparr>need_to_validate_src_addr := x\<rparr>) = pending c"
  by (simp add: pending_def)

lemma listen_pending:
  assumes "listen h got c = Some (p, c')"
  shows "pending c' \<le> pending c \<and> (\<forall>g. p = Again g \<longrightarrow> pending c' < pending c)"
proof -
  from assms obtain k b c1 where r: "receive_data 512 c = Some (k, b, c1)"
    unfolding listen_def by (auto split: bind_splits)
  note 1 = receive_data_pending [OF r]
  show ?thesis
  proof (cases "k > 0")
    case True
    with assms r obtain ret c2 where "client_received_data h (b, 0) k c1 = Some (ret, c2)" "pending c' = pending c2"
      unfolding listen_def by (auto split: bind_splits if_splits)
    with 1 True show ?thesis by (auto dest: client_received_data_pending)
  next
    case False
    with assms r have "c' = c1" "\<forall>g. p \<noteq> Again g" unfolding listen_def by (auto split: if_splits)
    with 1 show ?thesis by simp
  qed
qed

lemma attempt_pending:
  assumes "attempt h buff need got c = Some (p, c')"
  shows "pending c' \<le> pending c \<and> (\<forall>g. p = Again g \<longrightarrow> pending c' < pending c)"
proof -
  from assms obtain w c1 where w: "(if need then write_to_client_vector buff c else Some (SUCCESS, c)) = Some (w, c1)"
    unfolding attempt_def by (auto split: bind_splits)
  then have c1: "pending c1 = pending c" by (auto simp: pending_def dest: write_inbox split: if_splits)
  from assms w have "w \<noteq> SUCCESS \<and> p = Break got \<and> c' = c1 \<or> listen h got c1 = Some (p, c')"
    unfolding attempt_def by (auto split: if_splits)
  with c1 listen_pending [of h got c1 p c'] show ?thesis by auto
qed

function transmit_loop :: "hooks \<Rightarrow> bytes \<Rightarrow> nat \<Rightarrow> nat \<Rightarrow> bool \<Rightarrow> bool \<Rightarrow> client \<Rightarrow> (int \<times> client) option" where
  "transmit_loop h buff maxRetries retry need_to_write got c =
     (if retry < maxRetries then
        (case attempt h buff need_to_write got c of
           None \<Rightarrow> None
         | Some (Return ret, c) \<Rightarrow> Some (ret, c)
         | Some (Break got, c) \<Rightarrow> give_up maxRetries got c
         | Some (Again got, c) \<Rightarrow> transmit_loop h buff maxRetries retry False got c
         | Some (Attempt got, c) \<Rightarrow> transmit_loop h buff maxRetries (retry + 1) True got c)
      else give_up maxRetries got c)"
  by pat_completeness auto
termination
proof (relation "measure (\<lambda>(h, buff, maxRetries, retry, need, got, c). pending c + (maxRetries - retry))", goal_cases)
  case (2 h buff maxRetries retry need got c q p c' g)
  then have "attempt h buff need got c = Some (Again g, c')" by simp
  from attempt_pending [OF this] 2 show ?case by (auto intro: diff_less_mono)
next
  case (3 h buff maxRetries retry need got c q p c' g)
  then have "attempt h buff need got c = Some (Attempt g, c')" by simp
  from attempt_pending [OF this] 3 show ?case by simp
qed simp

declare transmit_loop.simps [simp del]

definition transmit_command_and_validate_response :: "hooks \<Rightarrow> bytes \<Rightarrow> u8 \<Rightarrow> client \<Rightarrow> (int \<times> client) option" where
  "transmit_command_and_validate_response h buff maxRetries c = transmit_loop h buff (unat maxRetries) 0 True False c"

definition transmit_command_on_path_pmesh :: "hooks \<Rightarrow> u8 \<Rightarrow> bytes \<Rightarrow> path_info \<Rightarrow> int \<Rightarrow> client \<Rightarrow> (int \<times> client) option" where
  "transmit_command_on_path_pmesh h ty cmd p timeout_retries c =
     transmit_command_and_validate_response h (frame_pmesh_command_packet (gateway c) ty p cmd) (word_of_int timeout_retries) c"

section \<open>What sending leaves on the wire\<close>

lemma send_loop_wire:
  assumes "send_loop failed left c = (w, c')"
  shows "\<exists>chunks. wire c' = wire c @ chunks \<and> prefix (concat chunks) left \<and>
    (w = SUCCESS \<and> concat chunks = left \<and> gatewayStatus c' = gatewayStatus c \<or>
     w \<in> {SUCCESS, FAILURE} \<and> left \<noteq> [] \<and> gatewayStatus c' = failed)"
  using assms
proof (induction failed left c arbitrary: w c' rule: send_loop.induct)
  case (1 failed left c)
  show ?case
  proof (cases "left = []")
    case True
    with 1(2) show ?thesis by (auto simp: send_loop.simps)
  next
    case False
    obtain k c1 where s: "send left c = (k, c1)" by fastforce
    then have c1: "wire c1 = wire c @ [take (nat k) left]" "gatewayStatus c1 = gatewayStatus c"
      by (auto simp: send_def Let_def split: list.splits)
    have step: "send_loop failed left c = (if k < 0 then (FAILURE, c1\<lparr>gatewayStatus := failed\<rparr>)
      else if k = 0 then (SUCCESS, c1\<lparr>gatewayStatus := failed\<rparr>) else send_loop failed (drop (nat k) left) c1)"
      using False s by (subst send_loop.simps) simp
    show ?thesis
    proof (cases "k > 0")
      case True
      from 1(1) [OF False s [symmetric] refl] True 1(2) obtain chunks where
        "wire c' = wire c1 @ chunks" "prefix (concat chunks) (drop (nat k) left)"
        "w = SUCCESS \<and> concat chunks = drop (nat k) left \<and> gatewayStatus c' = gatewayStatus c1 \<or>
         w \<in> {SUCCESS, FAILURE} \<and> drop (nat k) left \<noteq> [] \<and> gatewayStatus c' = failed"
        unfolding step by auto
      moreover have "prefix (take (nat k) left @ xs) left" if "prefix xs (drop (nat k) left)" for xs
        using that by (metis append_take_drop_id prefix_order.refl same_prefix_prefix)
      ultimately show ?thesis
        using c1 False by (intro exI [of _ "take (nat k) left # chunks"]) auto
    next
      case nz: False
      with 1(2) step c1 False show ?thesis by (auto split: if_splits intro: exI [of _ "[[]]"])
    qed
  qed
qed

definition same_wire :: "client \<Rightarrow> client \<Rightarrow> bool" where
  "same_wire c c' \<longleftrightarrow> wire c' = wire c \<and> gatewayStatus c' = gatewayStatus c \<and> send_results c' = send_results c"

lemma get_destination_address_wire: "get_destination_address b c = Some c' \<Longrightarrow> same_wire c c'"
  by (auto simp: get_destination_address_def same_wire_def elim!: ifB_elim split: bind_splits if_splits)

text \<open>A command is sent completely and in order, whatever the sizes the calls of \<open>send\<close> take, or
  only a part of it is sent and the gateway is marked as disconnected.\<close>

theorem write_to_client_vector_sends:
  assumes "write_to_client_vector buff c = Some (w, c')"
  shows "\<exists>chunks. wire c' = wire c @ chunks \<and> prefix (concat chunks) buff \<and>
    (w = SUCCESS \<and> concat chunks = buff \<and> gatewayStatus c' = gatewayStatus c \<or>
     w \<in> {SUCCESS, FAILURE} \<and> buff \<noteq> [] \<and> gatewayStatus c' = DISCONNECTED)"
proof -
  from assms obtain c1 where "get_destination_address (buff, 0) c = Some c1" and "send_loop DISCONNECTED buff c1 = (w, c')"
    unfolding write_to_client_vector_def by (auto split: bind_splits)
  with send_loop_wire [OF this(2)] get_destination_address_wire [OF this(1)] show ?thesis
    by (simp add: same_wire_def)
qed

text \<open>The other writing function, used for the answer to \<open>PING\<close>, marks a gateway whose connection
  fails as connected: a write that does not send everything leaves the status \<open>CONNECTED\<close>.\<close>

theorem write_to_client_failure_connected:
  assumes "write_to_client buf c = Some (w, c')" and "concat (drop (length (wire c)) (wire c')) \<noteq> buf"
  shows "gatewayStatus c' = CONNECTED"
proof -
  from assms obtain c1 where "get_destination_address (buf, 0) c = Some c1" and "send_loop CONNECTED buf c1 = (w, c')"
    unfolding write_to_client_def by (auto split: bind_splits)
  with send_loop_wire [OF this(2)] get_destination_address_wire [OF this(1)] assms(2) show ?thesis
    by (auto simp: same_wire_def)
qed

section \<open>The address that is awaited\<close>

text \<open>A command sent on a route waits for an answer from the last hop of the route.\<close>

definition route_ok :: "path_info \<Rightarrow> bool" where
  "route_ok p \<longleftrightarrow> 0 \<le> hop_count p \<and> hop_count p < 256 \<and> length (path p) = 4 * (if hop_count p = 0 then 1 else nat (hop_count p))"

definition gateway_ok :: "gateway_details \<Rightarrow> bool" where
  "gateway_ok gw \<longleftrightarrow> length (serial_number gw) = 8 \<and> length (panid gw) = 4"

lemma command_awaits:
  assumes "route_ok p" and "gateway_ok gw" and "ty \<in> {MESH_PING_REQUEST, MESH_DATA_QUERY, MESH_COMMISSION_PACKET}"
  shows "get_destination_address (frame_pmesh_command_packet gw ty p cmd, 0) c
    = Some (c\<lparr>src_addr_check_buffer := drop (length (path p) - 4) (path p), need_to_validate_src_addr := True\<rparr>)"
proof -
  define f where "f = frame_pmesh_command_packet gw ty p cmd"
  obtain l where f: "f = (HES_START_BYTE # l # ty # panid gw @ drop 4 (serial_number gw) @ [0, word_of_int (hop_count p)]) @ path p @ cmd"
    by (auto simp: f_def frame_pmesh_command_packet_def Let_def)
  let ?head = "HES_START_BYTE # l # ty # panid gw @ drop 4 (serial_number gw) @ [0, word_of_int (hop_count p)]"
  have head: "length ?head = 13" using assms(2) by (simp add: gateway_ok_def)
  have "f ! 12 = word_of_int (hop_count p)"
    using assms(2) by (simp add: f gateway_ok_def nth_append)
  moreover have "length f \<ge> 13" using head by (simp add: f)
  ultimately have rd: "rd (f, 0) 0 = Some HES_START_BYTE" "rd (f, 0) 2 = Some ty" "rd (f, 0) 12 = Some (word_of_int (hop_count p))"
    by (simp_all add: f)
  let ?off = "length (path p) - 4"
  have 4: "4 \<le> length (path p)" using assms(1) by (auto simp: route_ok_def split: if_splits)
  have u: "uint (word_of_int (hop_count p) :: u8) = hop_count p"
    using assms(1) by (simp add: route_ok_def uint_word_of_int_eq take_bit_int_eq_self)
  have off: "(if (word_of_int (hop_count p) :: u8) = 0 then 13 else 13 + (uint (word_of_int (hop_count p) :: u8) - 1) * 4) = int (13 + ?off)"
    using assms(1) u 4 unfolding uint_0_iff [symmetric] u by (auto simp: route_ok_def of_nat_diff)
  have "f = (?head @ take ?off (path p)) @ drop ?off (path p) @ cmd" unfolding f by simp
  moreover have "length (?head @ take ?off (path p)) = 13 + ?off" "length (drop ?off (path p)) = 4"
    using head 4 by simp_all
  ultimately have "rd_seq (f, 0) (int (13 + ?off)) 4 = Some (drop ?off (path p))"
    using rd_seq_at [of "?head @ take ?off (path p)" "drop ?off (path p)" cmd] by metis
  with rd assms(3) off show ?thesis
    unfolding f_def [symmetric] by (auto simp: get_destination_address_def eqB_def)
qed

text \<open>A command framed for a well-formed route makes the client wait for an answer from the last
  hop of the route (the gateway itself when there is no hop).\<close>

theorem command_awaits_last_hop:
  assumes "route_ok p" and "gateway_ok gw" and "ty \<in> {MESH_PING_REQUEST, MESH_DATA_QUERY, MESH_COMMISSION_PACKET}"
    and "write_to_client_vector (frame_pmesh_command_packet gw ty p cmd) c = Some (w, c')"
  shows "src_addr_check_buffer c' = drop (length (path p) - 4) (path p) \<and> need_to_validate_src_addr c'"
proof -
  let ?p = "frame_pmesh_command_packet gw ty p cmd"
  let ?c = "c\<lparr>src_addr_check_buffer := drop (length (path p) - 4) (path p), need_to_validate_src_addr := True\<rparr>"
  from command_awaits [OF assms(1-3), of cmd c] assms(4) have "snd (send_loop DISCONNECTED ?p ?c) = c'"
    by (simp add: write_to_client_vector_def)
  with send_loop_only [of DISCONNECTED ?p ?c] show ?thesis by auto
qed

section \<open>What an exchange leaves as it is\<close>

text \<open>The part of the state that exchanging packets does not change, once the gateway has announced
  itself.\<close>

definition steady :: "client \<Rightarrow> client \<Rightarrow> bool" where
  "steady c c' \<longleftrightarrow> targetState c' = targetState c \<and> gateway_id c' = gateway_id c \<and> gateway c' = gateway c
     \<and> tx_page_index c' = tx_page_index c \<and> current_ip_cycle c' = current_ip_cycle c \<and> currentNode c' = currentNode c
     \<and> odm_flags c' = odm_flags c \<and> routes_of c' = routes_of c \<and> duplicate_gateway c' = duplicate_gateway c
     \<and> pulled_log c' = pulled_log c \<and> \<not> comm_init_status c \<and> \<not> comm_init_status c'"

lemma steady_refl: "\<not> comm_init_status c \<Longrightarrow> steady c c"
  by (simp add: steady_def)

lemma steady_trans: "steady a b \<Longrightarrow> steady b c \<Longrightarrow> steady a c"
  by (simp add: steady_def)

lemma steady_init: "steady c c' \<Longrightarrow> \<not> comm_init_status c'" "steady c c' \<Longrightarrow> \<not> comm_init_status c"
  by (simp_all add: steady_def)

lemma quiet_steady: "quiet c c' \<Longrightarrow> \<not> comm_init_status c \<Longrightarrow> steady c c'"
  by (simp add: quiet_def steady_def)

lemma steady_update [simp]:
  "steady c (c\<lparr>need_to_validate_src_addr := x\<rparr>) = (\<not> comm_init_status c)"
  "steady c (c'\<lparr>need_to_validate_src_addr := x\<rparr>) = steady c c'"
  "steady c (c'\<lparr>gatewayStatus := g\<rparr>) = steady c c'"
  by (auto simp: steady_def routes_of_def pulled_log_def)

lemma send_loop_steady: "\<not> comm_init_status c \<Longrightarrow> steady c (snd (send_loop f left c))"
  using send_loop_only [of f left c] by (auto simp: steady_def routes_of_def pulled_log_def)

lemma get_destination_address_steady:
  "get_destination_address b c = Some c' \<Longrightarrow> \<not> comm_init_status c \<Longrightarrow> steady c c'"
  by (auto simp: get_destination_address_def steady_def routes_of_def pulled_log_def elim!: ifB_elim split: bind_splits if_splits)

lemma write_steady:
  "write_to_client_vector b c = Some (w, c') \<Longrightarrow> \<not> comm_init_status c \<Longrightarrow> steady c c'"
  "write_to_client b c = Some (w, c') \<Longrightarrow> \<not> comm_init_status c \<Longrightarrow> steady c c'"
  unfolding write_to_client_vector_def write_to_client_def
  by (auto split: bind_splits dest!: get_destination_address_steady)
    (metis send_loop_steady snd_conv steady_def steady_trans)+

lemma receive_data_steady:
  assumes "receive_data n c = Some (k, b, c')" and "\<not> comm_init_status c"
  shows "steady c c'"
proof -
  obtain r buff c1 where r: "recv n c = (r, buff, c1)" by (rule prod_cases3)
  with assms(2) have 1: "steady c c1" unfolding recv_def
    by (auto simp: steady_def routes_of_def pulled_log_def split: list.splits prod.splits rx.splits if_splits)
  then have ci: "\<not> comm_init_status c1" by (simp add: steady_def)
  from assms(1) r obtain c2 where 2: "c2 = c1 \<or> (\<exists>w. write_to_client [0x50, 0x4F, 0x4E, 0x47] c1 = Some (w, c2))"
      "c' = c2 \<or> c' = c2\<lparr>gatewayStatus := DISCONNECTED\<rparr>"
    unfolding receive_data_def by (auto simp: Let_def split: bind_splits if_splits rx.splits)
  from 2(1) write_steady(2) [OF _ ci] steady_refl [OF ci] have "steady c1 c2" by blast
  with steady_trans [OF 1] 2(2) show ?thesis by auto
qed

lemma client_received_data_steady:
  "client_received_data h b len c = Some (r, c') \<Longrightarrow> \<not> comm_init_status c \<Longrightarrow> steady c c'"
  by (blast intro: quiet_steady client_received_data_quiet)

lemma listen_steady:
  assumes "listen h got c = Some (p, c')" and "\<not> comm_init_status c"
  shows "steady c c'"
proof -
  from assms(1) obtain k b c1 where r: "receive_data 512 c = Some (k, b, c1)"
    unfolding listen_def by (auto split: bind_splits)
  note 1 = receive_data_steady [OF this assms(2)]
  then have ci: "\<not> comm_init_status c1" by (simp add: steady_def)
  from assms(1) r consider "c' = c1" | ret c2 where "client_received_data h (b, 0) k c1 = Some (ret, c2)"
      "c' = c2 \<or> c' = c2\<lparr>need_to_validate_src_addr := True\<rparr>"
    unfolding listen_def by (auto split: bind_splits if_splits)
  then show ?thesis
    using 1 client_received_data_steady [OF _ ci] by cases (auto intro: steady_trans)
qed

lemma attempt_steady:
  assumes "attempt h buff need got c = Some (p, c')" and "\<not> comm_init_status c"
  shows "steady c c'"
proof -
  from assms(1) obtain w c1 where w: "(if need then write_to_client_vector buff c else Some (SUCCESS, c)) = Some (w, c1)"
    unfolding attempt_def by (auto split: bind_splits)
  then have 1: "steady c c1" using write_steady(1) assms(2) steady_refl by (auto split: if_splits)
  from assms(1) w have "c' = c1 \<or> listen h got c1 = Some (p, c')"
    unfolding attempt_def by (auto split: if_splits)
  with 1 listen_steady [of h got c1 p c'] show ?thesis by (auto intro: steady_trans simp: steady_def)
qed

lemma transmit_loop_steady:
  "transmit_loop h buff m k need got c = Some (r, c') \<Longrightarrow> \<not> comm_init_status c \<Longrightarrow> steady c c'"
proof (induction h buff m k need got c arbitrary: r c' rule: transmit_loop.induct)
  case (1 h buff m k need got c)
  have gu: "steady c c'" if "give_up m g c1 = Some (r, c')" "steady c c1" for g c1
    using that by (auto simp: give_up_def split: if_splits)
  show ?case
  proof (cases "k < m")
    case False
    with 1(3,4) gu [of got c] show ?thesis by (subst (asm) transmit_loop.simps) (simp add: steady_refl)
  next
    case True
    with 1(3) obtain p c1 where a: "attempt h buff need got c = Some (p, c1)"
      by (subst (asm) transmit_loop.simps) (auto split: option.splits)
    note s = attempt_steady [OF a 1(4)]
    then have ci: "\<not> comm_init_status c1" by (simp add: steady_def)
    from 1(3) True a have eq: "(case p of Return ret \<Rightarrow> Some (ret, c1) | Break got \<Rightarrow> give_up m got c1
      | Again got \<Rightarrow> transmit_loop h buff m k False got c1 | Attempt got \<Rightarrow> transmit_loop h buff m (k + 1) True got c1) = Some (r, c')"
      by (subst (asm) transmit_loop.simps) simp
    show ?thesis
    proof (cases p)
      case (Again g)
      with 1(1) [OF True a refl this] eq ci s show ?thesis by (auto intro: steady_trans)
    next
      case (Attempt g)
      with 1(2) [OF True a refl this] eq ci s show ?thesis by (auto intro: steady_trans)
    qed (use eq s gu in auto)
  qed
qed

lemma transmit_steady:
  "transmit_command_and_validate_response h buff m c = Some (r, c') \<Longrightarrow> \<not> comm_init_status c \<Longrightarrow> steady c c'"
  unfolding transmit_command_and_validate_response_def by (rule transmit_loop_steady)

section \<open>Concrete inputs\<close>

definition example_route :: path_info where
  "example_route = \<lparr>hop_count = 1, path = example_dst\<rparr>"

definition example_command :: bytes where
  "example_command = frame_pmesh_command_packet (gateway example_client) MESH_COMMISSION_PACKET example_route [0x00, 0x01]"

lemma example_write: "map_option fst (write_to_client_vector example_command example_client) = Some SUCCESS"
  by code_simp

theorem command_awaits_last_hop_witness:
  "\<exists>c'. write_to_client_vector example_command example_client = Some (SUCCESS, c')
    \<and> src_addr_check_buffer c' = example_dst \<and> need_to_validate_src_addr c'"
proof -
  from example_write obtain c' where
    w: "write_to_client_vector example_command example_client = Some (SUCCESS, c')" by auto
  have "route_ok example_route" "gateway_ok (gateway example_client)"
    by (simp_all add: route_ok_def gateway_ok_def example_route_def example_dst_def example_client_def)
  from command_awaits_last_hop [OF this _ w [unfolded example_command_def]] w show ?thesis
    by (simp add: example_route_def example_dst_def)
qed

theorem write_to_client_vector_sends_witness:
  "\<exists>c' chunks. write_to_client_vector example_command example_client = Some (SUCCESS, c')
    \<and> wire c' = wire example_client @ chunks \<and> prefix (concat chunks) example_command"
proof -
  from example_write obtain c' where
    w: "write_to_client_vector example_command example_client = Some (SUCCESS, c')" by auto
  from write_to_client_vector_sends [OF w] w show ?thesis by blast
qed

theorem write_to_client_failure_connected_witness:
  "\<exists>w c'. write_to_client [1, 2] (example_client\<lparr>gatewayStatus := DISCONNECTED, send_results := [1, - 1]\<rparr>) = Some (w, c')
    \<and> gatewayStatus c' = CONNECTED"
proof -
  let ?c = "example_client\<lparr>gatewayStatus := DISCONNECTED, send_results := [1, - 1]\<rparr>"
  have "map_option (\<lambda>(w, c'). concat (drop (length (wire ?c)) (wire c'))) (write_to_client [1, 2] ?c) = Some [1]"
    by code_simp
  then obtain w c' where w: "write_to_client [1, 2] ?c = Some (w, c')" "concat (drop (length (wire ?c)) (wire c')) = [1]"
    by auto
  from write_to_client_failure_connected [OF w(1)] w show ?thesis by auto
qed

end
