(* ===== verification/Nodes.thy ===== *)
theory Nodes
  imports Transmit
begin

text \<open>
  The nodes of a gateway as the database describes them (\<open>HES/src/database.cpp\<close>, and the
  functions of \<open>HES/src/client.cpp\<close> that build the list): addresses, primary and alternate paths,
  and what is missing for each node.

  The database server is not part of the repository: what a query returns is an argument, one
  field of \<open>database\<close> per query, \<open>None\<close> when the query fails.  The code that works on the rows is
  modelled.
\<close>

section \<open>Queries\<close>

type_synonym row = "cstr option list"

text \<open>A row has the columns its query selects; a column may be NULL.\<close>

definition col :: "row \<Rightarrow> nat \<Rightarrow> cstr option" where
  "col row k = (if k < length row then row ! k else None)"

record database =
  source_route_rows :: "row list option"
  alternate_route_rows :: "mac \<Rightarrow> row list option"
  missing_ip_rows :: "mac \<Rightarrow> int \<Rightarrow> int \<Rightarrow> row list option"
  blp_rows :: "mac \<Rightarrow> row list option"
  dlp_rows :: "mac \<Rightarrow> row list option"
  bhp_rows :: "mac \<Rightarrow> row list option"
  nameplate_rows :: "mac \<Rightarrow> row list option"
  silenced_rows :: "mac \<Rightarrow> row list option"
  ifv_rows :: "mac \<Rightarrow> row list option"
  sync_rows :: "int \<Rightarrow> row list option"
  sync_update_result :: "int \<Rightarrow> int"

text \<open>\<open>atoi\<close>: 0 without a digit, undefined beyond \<open>int\<close>.\<close>

definition atoi :: "cstr \<Rightarrow> int option" where
  "atoi s = (case strtol_val 10 s of None \<Rightarrow> Some 0
     | Some v \<Rightarrow> if - (2 ^ 31) \<le> v \<and> v < 2 ^ 31 then Some v else None)"

section \<open>The ordered map of nodes\<close>

type_synonym node_map = "(mac \<times> node_info) list"

text \<open>The order of \<open>std::array<uint8_t, 8>\<close>.\<close>

fun mac_less :: "mac \<Rightarrow> mac \<Rightarrow> bool" where
  "mac_less (a # as) (b # bs) = (a < b \<or> a = b \<and> mac_less as bs)"
| "mac_less [] (b # bs) = True"
| "mac_less _ [] = False"

text \<open>\<open>nodes_info[mac] = node\<close>.\<close>

fun put_node :: "mac \<Rightarrow> node_info \<Rightarrow> node_map \<Rightarrow> node_map" where
  "put_node mac node [] = [(mac, node)]"
| "put_node mac node ((m, n) # ns) =
     (if mac = m then (mac, node) # ns
      else if mac_less mac m then (mac, node) # (m, n) # ns
      else (m, n) # put_node mac node ns)"

section \<open>Routes\<close>

definition add_gateway_node_to_map_list :: "cstr \<Rightarrow> node_map \<Rightarrow> node_map option" where
  "add_gateway_node_to_map_list gwid nodes = do {
     gateway_mac \<leftarrow> mac_from_hex gwid;
     p \<leftarrow> mapM (\<lambda>i. do {
         a \<leftarrow> cread gwid (i * 2);
         b \<leftarrow> cread gwid (i * 2 + 1);
         v \<leftarrow> stoi 16 (takeWhile (\<lambda>c. c \<noteq> CHR 0x00) [a, b]);
         Some (word_of_int v)
       }) [4..<8];
     let node = (new_node_info gateway_mac)\<lparr>primary_path := \<lparr>hop_count = 0, path = p\<rparr>\<rparr>;
     Some (put_node gateway_mac node nodes)
   }"

text \<open>One row of the query of \<open>get_nodes_info_from_src_route_network_db\<close>.\<close>

definition source_route_row :: "row \<Rightarrow> node_map \<Rightarrow> node_map option" where
  "source_route_row row nodes = (case (col row 0, col row 1, col row 2) of
       (Some mac_hex, Some hops, Some hex_path) \<Rightarrow> do {
         hops \<leftarrow> atoi hops;
         mac \<leftarrow> mac_from_hex mac_hex;
         (ok, parsed_path) \<leftarrow> extract_path hex_path hops;
         if \<not> ok then Some nodes
         else do {
           let info = (case map_of nodes mac of Some n \<Rightarrow> n | None \<Rightarrow> new_node_info mac);
           Some (put_node mac (info\<lparr>node_mac_address := mac, primary_path := \<lparr>hop_count = hops, path = parsed_path\<rparr>\<rparr>) nodes)
         }
       }
     | _ \<Rightarrow> Some nodes)"

definition get_nodes_info_from_src_route_network_db :: "database \<Rightarrow> node_map \<Rightarrow> (int \<times> node_map) option" where
  "get_nodes_info_from_src_route_network_db db nodes = (case source_route_rows db of
       None \<Rightarrow> Some (FAILURE, nodes)
     | Some rows \<Rightarrow> map_option (Pair SUCCESS) (foldM source_route_row rows nodes))"

text \<open>One row of the query of \<open>get_alternate_path_for_node\<close>; NULL in it is undefined.\<close>

definition alternate_row :: "row \<Rightarrow> path_info list \<Rightarrow> path_info list option" where
  "alternate_row row paths = do {
     hops \<leftarrow> col row 0;
     hops \<leftarrow> atoi hops;
     hex_path \<leftarrow> col row 1;
     (ok, p) \<leftarrow> extract_path hex_path hops;
     Some (if ok then paths @ [\<lparr>hop_count = hops, path = p\<rparr>] else paths)
   }"

text \<open>The result is only logged.\<close>

definition get_alternate_path_for_node :: "database \<Rightarrow> node_info \<Rightarrow> node_info option" where
  "get_alternate_path_for_node db node = (case alternate_route_rows db (node_mac_address node) of
       None \<Rightarrow> Some node
     | Some rows \<Rightarrow> map_option (\<lambda>ps. node\<lparr>alternate_paths := ps\<rparr>) (foldM alternate_row rows []))"

definition get_alternate_path_for_all_nodes :: "database \<Rightarrow> cstr \<Rightarrow> node_map \<Rightarrow> node_map option" where
  "get_alternate_path_for_all_nodes db gwid nodes = do {
     gateway_mac \<leftarrow> mac_from_hex gwid;
     mapM (\<lambda>(mac, node). if mac = gateway_mac then Some (mac, node)
       else map_option (Pair mac) (get_alternate_path_for_node db node)) nodes
   }"

section \<open>What is missing\<close>

text \<open>A query that counts: false when it fails; \<open>std::stoi\<close> may throw.\<close>

definition counts_one :: "row list option \<Rightarrow> bool option" where
  "counts_one rows = (case rows of None \<Rightarrow> Some False | Some [] \<Rightarrow> Some False
     | Some (row # _) \<Rightarrow> (case col row 0 of None \<Rightarrow> Some False | Some s \<Rightarrow> map_option (\<lambda>v. v = 1) (stoi 10 s)))"

definition is_blp_available_last_hour :: "database \<Rightarrow> mac \<Rightarrow> bool option" where
  "is_blp_available_last_hour db mac = counts_one (blp_rows db mac)"

definition is_dlp_available_previous_day :: "database \<Rightarrow> mac \<Rightarrow> bool option" where
  "is_dlp_available_previous_day db mac = counts_one (dlp_rows db mac)"

definition is_bhp_available_previous_month :: "database \<Rightarrow> mac \<Rightarrow> bool option" where
  "is_bhp_available_previous_month db mac = counts_one (bhp_rows db mac)"

definition is_nameplate_available :: "database \<Rightarrow> mac \<Rightarrow> bool option" where
  "is_nameplate_available db mac = counts_one (nameplate_rows db mac)"

definition is_scalar_profile_available :: "mac \<Rightarrow> bool" where
  "is_scalar_profile_available mac = True"

definition is_node_silenced :: "database \<Rightarrow> mac \<Rightarrow> bool option" where
  "is_node_silenced db mac = counts_one (silenced_rows db mac)"

definition is_ifv_available_for_node :: "database \<Rightarrow> mac \<Rightarrow> int" where
  "is_ifv_available_for_node db mac = (case ifv_rows db mac of None \<Rightarrow> FAILURE | Some [] \<Rightarrow> 2
     | Some (row # _) \<Rightarrow> (case col row 0 of None \<Rightarrow> 0 | Some _ \<Rightarrow> 1))"

text \<open>The loop that reads at most four rows.\<close>

fun first_four :: "row list \<Rightarrow> int list \<Rightarrow> int list option" where
  "first_four [] acc = Some acc"
| "first_four (row # rows) acc = (case col row 0 of None \<Rightarrow> first_four rows acc
     | Some s \<Rightarrow> (if length acc \<ge> 4 then Some acc
         else do { cycle \<leftarrow> stoi 10 s; first_four rows (acc @ [cycle]) }))"

definition current_cycle :: "env \<Rightarrow> int" where
  "current_cycle e = (let lt = localtime e (time_now e) in tm_hour lt * 4 + tm_min lt sdiv 15 + 1)"

definition start_cycle :: "env \<Rightarrow> int" where
  "start_cycle e = (current_cycle e - 4 + 96) smod 96 + 1"

text \<open>Absolute to relative; what is not one of the last four quarters is skipped.\<close>

definition relative_cycles :: "int \<Rightarrow> int list \<Rightarrow> int list" where
  "relative_cycles current cids = filter (\<lambda>r. 0 \<le> r \<and> r \<le> 3) (map (\<lambda>cid. (current - cid + 96) smod 96) cids)"

definition get_last_hour_missing_ip_cycles_for_node :: "database \<Rightarrow> env \<Rightarrow> mac \<Rightarrow> int list option" where
  "get_last_hour_missing_ip_cycles_for_node db e mac =
     (case missing_ip_rows db mac (start_cycle e) (current_cycle e) of
       None \<Rightarrow> Some []
     | Some rows \<Rightarrow> map_option (relative_cycles (current_cycle e)) (first_four rows []))"

definition missing_info_of :: "database \<Rightarrow> env \<Rightarrow> mac \<Rightarrow> missing_cycle_info option" where
  "missing_info_of db e mac = do {
     ip \<leftarrow> get_last_hour_missing_ip_cycles_for_node db e mac;
     blp \<leftarrow> is_blp_available_last_hour db mac;
     dlp \<leftarrow> is_dlp_available_previous_day db mac;
     bhp \<leftarrow> is_bhp_available_previous_month db mac;
     np \<leftarrow> is_nameplate_available db mac;
     silenced \<leftarrow> is_node_silenced db mac;
     Some \<lparr>missing_ip_cycles = ip, is_blp_available = blp, is_dlp_available = dlp, is_bhp_available = bhp,
       is_name_plate_available = np, is_scalar_available = is_scalar_profile_available mac, is_silenced = silenced,
       verify_ifv_presence = is_ifv_available_for_node db mac\<rparr>
   }"

definition get_missing_info_for_all_nodes :: "database \<Rightarrow> env \<Rightarrow> node_map \<Rightarrow> node_map option" where
  "get_missing_info_for_all_nodes db e nodes = mapM (\<lambda>(mac, node). do {
     info \<leftarrow> missing_info_of db e (node_mac_address node);
     Some (mac, node\<lparr>missing_info := info\<rparr>)
   }) nodes"

definition build_node_list_from_db :: "database \<Rightarrow> env \<Rightarrow> cstr \<Rightarrow> node_map option" where
  "build_node_list_from_db db e gwid = do {
     nodes \<leftarrow> add_gateway_node_to_map_list gwid [];
     (ret, nodes) \<leftarrow> get_nodes_info_from_src_route_network_db db nodes;
     nodes \<leftarrow> get_alternate_path_for_all_nodes db gwid nodes;
     get_missing_info_for_all_nodes db e nodes
   }"

section \<open>The list of nodes is well formed\<close>

lemma mac_less_trans: "mac_less a b \<Longrightarrow> mac_less b c \<Longrightarrow> mac_less a c"
proof (induction a b arbitrary: c rule: mac_less.induct)
  case (1 a as b bs)
  then show ?case by (cases c) auto
next
  case (2 b bs)
  then show ?case by (cases c) auto
qed simp

lemma mac_less_total: "mac_less a b \<or> a = b \<or> mac_less b a"
  by (induction a b rule: mac_less.induct) (auto, metis list.exhaust mac_less.simps(2))

lemma mac_less_irrefl: "\<not> mac_less a a"
  by (induction a) auto

definition map_sorted :: "node_map \<Rightarrow> bool" where
  "map_sorted nodes \<longleftrightarrow> sorted_wrt mac_less (map fst nodes)"

lemma put_node_keys: "set (map fst (put_node mac node nodes)) = insert mac (set (map fst nodes))"
  by (induction mac node nodes rule: put_node.induct) auto

lemma put_node_sorted: "map_sorted nodes \<Longrightarrow> map_sorted (put_node mac node nodes)"
proof (induction mac node nodes rule: put_node.induct)
  case (2 mac node m n ns)
  then have s: "\<forall>x \<in> set (map fst ns). mac_less m x" "map_sorted ns" by (auto simp: map_sorted_def)
  consider "mac = m" | "mac \<noteq> m" "mac_less mac m" | "mac \<noteq> m" "\<not> mac_less mac m" "mac_less m mac"
    using mac_less_total by blast
  then show ?case
  proof cases
    case 3
    then have "map_sorted (put_node mac node ns)" using 2(1) s(2) by simp
    moreover have "\<forall>x \<in> set (map fst (put_node mac node ns)). mac_less m x"
      unfolding put_node_keys using s(1) 3(3) by simp
    ultimately show ?thesis using 3 by (simp add: map_sorted_def)
  qed (use s in \<open>auto simp: map_sorted_def intro: mac_less_trans\<close>)
qed (simp add: map_sorted_def)

lemma map_sorted_distinct: "map_sorted nodes \<Longrightarrow> distinct (map fst nodes)"
  unfolding map_sorted_def
  by (induction nodes) (auto simp: mac_less_irrefl)

text \<open>A put is seen by the next lookup and by no other.\<close>

lemma put_node_lookup:
  "map_sorted nodes \<Longrightarrow> map_of (put_node mac node nodes) k = (if k = mac then Some node else map_of nodes k)"
proof (induction mac node nodes rule: put_node.induct)
  case (2 mac node m n ns)
  then have "map_sorted ns" by (simp add: map_sorted_def)
  with 2 show ?case by auto
qed simp

locale node_store =
  fixes put :: "mac \<Rightarrow> node_info \<Rightarrow> 's \<Rightarrow> 's" and get :: "'s \<Rightarrow> mac \<Rightarrow> node_info option" and inv :: "'s \<Rightarrow> bool"
  assumes put_inv: "inv s \<Longrightarrow> inv (put mac node s)"
    and get_put: "inv s \<Longrightarrow> get (put mac node s) k = (if k = mac then Some node else get s k)"
begin

text \<open>What holds of every stored node under its address is kept by putting such a node.\<close>

lemma all_put:
  assumes "inv s" and "\<And>k n. get s k = Some n \<Longrightarrow> P k n" and "P mac node"
    and "get (put mac node s) k = Some n"
  shows "P k n"
  using assms get_put [OF assms(1), of mac node k] by (auto split: if_splits)

end

interpretation nodes: node_store put_node map_of map_sorted
  by unfold_locales (simp_all add: put_node_sorted put_node_lookup)

text \<open>A route from the database has four bytes for every hop; the gateway's own has its short address.\<close>

definition db_route :: "path_info \<Rightarrow> bool" where
  "db_route p \<longleftrightarrow> 0 \<le> hop_count p \<and> length (path p) = 4 * nat (hop_count p)"

definition own_route :: "mac \<Rightarrow> path_info \<Rightarrow> bool" where
  "own_route mac p \<longleftrightarrow> hop_count p = 0 \<and> path p = drop 4 mac"

definition node_ok :: "mac \<Rightarrow> node_info \<Rightarrow> bool" where
  "node_ok mac node \<longleftrightarrow> length mac = 8 \<and> node_mac_address node = mac
     \<and> (db_route (primary_path node) \<or> own_route mac (primary_path node)) \<and> list_all db_route (alternate_paths node)"

definition nodes_ok :: "node_map \<Rightarrow> bool" where
  "nodes_ok nodes \<longleftrightarrow> map_sorted nodes \<and> list_all (\<lambda>(mac, node). node_ok mac node) nodes"

lemma nodes_ok_lookup: "nodes_ok nodes \<Longrightarrow> map_of nodes k = Some n \<Longrightarrow> node_ok k n"
  by (auto simp: nodes_ok_def list_all_iff dest!: map_of_SomeD)

lemma nodes_ok_put:
  assumes "nodes_ok nodes" and "node_ok mac node"
  shows "nodes_ok (put_node mac node nodes)"
proof -
  have s: "map_sorted nodes" using assms(1) by (simp add: nodes_ok_def)
  have "node_ok k n" if "(k, n) \<in> set (put_node mac node nodes)" for k n
  proof (rule nodes.all_put [OF s, of node_ok mac node])
    show "map_of (put_node mac node nodes) k = Some n"
      using that map_sorted_distinct [OF put_node_sorted [OF s]] by simp
  qed (use assms nodes_ok_lookup in auto)
  with put_node_sorted [OF s] show ?thesis by (auto simp: nodes_ok_def list_all_iff)
qed

lemma extract_chunk_length: "extract_chunk s pos = Some c \<Longrightarrow> length c = 4"
  unfolding extract_chunk_def by (drule mapM_length) simp

lemma extract_path_loop_length:
  "extract_path_loop (n * 2) s pos False out = Some out' \<Longrightarrow> length out' = length out + 4 * n"
proof (induction n arbitrary: pos out)
  case (Suc n)
  from Suc.prems obtain c where "extract_chunk s (pos + 8) = Some c"
    "extract_path_loop (n * 2) s (pos + 16) False (out @ c) = Some out'"
    by (auto split: bind_splits simp: add.assoc)
  with Suc.IH [OF this(2)] extract_chunk_length [OF this(1)] show ?case by simp
qed simp

lemma extract_path_route:
  assumes "extract_path s h = Some (True, p)"
  shows "db_route \<lparr>hop_count = h, path = p\<rparr>"
  using assms extract_path_loop_length [of "nat h" s 0 "[]" p]
  by (auto simp: extract_path_def db_route_def split: if_splits)

lemma mac_from_hex_length: "mac_from_hex s = Some m \<Longrightarrow> length m = 8"
  by (auto simp: mac_from_hex_def dest: mapM_length)

lemma source_route_row_ok:
  assumes "source_route_row row nodes = Some nodes'" and "nodes_ok nodes"
  shows "nodes_ok nodes'"
proof -
  consider "nodes' = nodes" | mac_hex hops_text hex_path where
      "col row 0 = Some mac_hex" "col row 1 = Some hops_text" "col row 2 = Some hex_path"
    using assms(1) unfolding source_route_row_def by (auto split: option.splits)
  then consider "nodes' = nodes" | mac p hops info where "length mac = 8" "db_route \<lparr>hop_count = hops, path = p\<rparr>"
      "info = (case map_of nodes mac of Some n \<Rightarrow> n | None \<Rightarrow> new_node_info mac)"
      "nodes' = put_node mac (info\<lparr>node_mac_address := mac, primary_path := \<lparr>hop_count = hops, path = p\<rparr>\<rparr>) nodes"
  proof cases
    case 2
    with assms(1) obtain hops mac ok p where r: "mac_from_hex mac_hex = Some mac" "extract_path hex_path hops = Some (ok, p)"
      "ok \<longrightarrow> nodes' = put_node mac ((case map_of nodes mac of Some n \<Rightarrow> n | None \<Rightarrow> new_node_info mac)
        \<lparr>node_mac_address := mac, primary_path := \<lparr>hop_count = hops, path = p\<rparr>\<rparr>) nodes" "\<not> ok \<longrightarrow> nodes' = nodes"
      unfolding source_route_row_def Let_def by (auto split: bind_splits if_splits)
    show ?thesis
    proof (cases ok)
      case True
      with r that(2) [OF mac_from_hex_length [OF r(1)], of hops p] extract_path_route [of hex_path hops p] show ?thesis by simp
    qed (use r that(1) in simp)
  qed (use that in blast)
  then show ?thesis
  proof cases
    case 2
    then have "list_all db_route (alternate_paths info)"
      using nodes_ok_lookup [OF assms(2), of mac] by (auto simp: new_node_info_def node_ok_def split: option.splits)
    with 2 show ?thesis by (auto intro!: nodes_ok_put assms(2) simp: node_ok_def)
  qed (use assms in simp)
qed

lemma alternate_rows_ok:
  assumes "foldM alternate_row rows [] = Some ps"
  shows "list_all db_route ps"
  using assms
proof (rule foldM_inv [where P = "list_all db_route"])
  fix row ps ps'
  assume "list_all db_route ps" and "alternate_row row ps = Some ps'"
  then show "list_all db_route ps'"
    unfolding alternate_row_def by (auto split: bind_splits if_splits dest: extract_path_route)
qed simp

lemma get_alternate_path_for_node_ok:
  assumes "get_alternate_path_for_node db node = Some node'" and "node_ok mac node"
  shows "node_ok mac node'"
  using assms unfolding get_alternate_path_for_node_def
  by (auto simp: node_ok_def split: option.splits dest: alternate_rows_ok)

lemma mapM_nodes_ok:
  assumes "mapM f nodes = Some nodes'" and "nodes_ok nodes"
    and "\<And>mac node x. f (mac, node) = Some x \<Longrightarrow> node_ok mac node \<Longrightarrow> fst x = mac \<and> node_ok mac (snd x)"
  shows "nodes_ok nodes'"
proof -
  have "map fst nodes' = map fst nodes \<and> list_all (\<lambda>(mac, node). node_ok mac node) nodes'"
    if "list_all (\<lambda>(mac, node). node_ok mac node) nodes" "mapM f nodes = Some nodes'" for nodes nodes'
    using that
  proof (induction nodes arbitrary: nodes')
    case (Cons x nodes)
    obtain mac node where x: "x = (mac, node)" by fastforce
    from Cons.prems(2) obtain y ys where y: "f x = Some y" "mapM f nodes = Some ys" "nodes' = y # ys"
      by (auto split: bind_splits)
    with Cons.IH [OF _ y(2)] Cons.prems(1) assms(3) [of mac node y] x show ?case by (auto simp: case_prod_beta)
  qed simp
  from this [OF _ assms(1)] assms(2) show ?thesis by (simp add: nodes_ok_def map_sorted_def)
qed

lemma gateway_node_ok:
  assumes "add_gateway_node_to_map_list gwid [] = Some nodes"
  shows "nodes_ok nodes"
proof -
  define f :: "nat \<Rightarrow> u8 option" where "f = (\<lambda>i. do {
         a \<leftarrow> cread gwid (i * 2);
         b \<leftarrow> cread gwid (i * 2 + 1);
         v \<leftarrow> stoi 16 (takeWhile (\<lambda>c. c \<noteq> CHR 0x00) [a, b]);
         Some (word_of_int v)
       })"
  have "add_gateway_node_to_map_list gwid [] = do { mac \<leftarrow> mapM f [0..<8]; p \<leftarrow> mapM f [4..<8];
      Some [(mac, (new_node_info mac)\<lparr>primary_path := \<lparr>hop_count = 0, path = p\<rparr>\<rparr>)] }"
    by (simp only: add_gateway_node_to_map_list_def mac_from_hex_def f_def Let_def put_node.simps)
  with assms have run: "do { mac \<leftarrow> mapM f [0..<8]; p \<leftarrow> mapM f [4..<8];
      Some [(mac, (new_node_info mac)\<lparr>primary_path := \<lparr>hop_count = 0, path = p\<rparr>\<rparr>)] } = Some nodes" by simp
  have split: "[0..<8] = [0..<4] @ [4..<8::nat]" by (simp add: upt_rec)
  obtain us vs where m: "mapM f [0..<4] = Some us" "mapM f [4..<8] = Some vs"
    "nodes = [(us @ vs, (new_node_info (us @ vs))\<lparr>primary_path := \<lparr>hop_count = 0, path = vs\<rparr>\<rparr>)]"
    using run unfolding split mapM_append
    by (cases "mapM f [0..<4]"; cases "mapM f [4..<8]") (simp_all del: mapM.simps)
  then have "length us = 4" "length vs = 4" by (auto dest: mapM_length simp del: mapM.simps)
  with m(3) show ?thesis by (simp add: nodes_ok_def map_sorted_def node_ok_def own_route_def new_node_info_def)
qed

lemma build_nodes_ok:
  assumes "build_node_list_from_db db e gwid = Some nodes"
  shows "nodes_ok nodes"
proof -
  from assms obtain n1 ret n2 n3 where
    1: "add_gateway_node_to_map_list gwid [] = Some n1" and
    2: "get_nodes_info_from_src_route_network_db db n1 = Some (ret, n2)" and
    3: "get_alternate_path_for_all_nodes db gwid n2 = Some n3" and
    4: "get_missing_info_for_all_nodes db e n3 = Some nodes"
    unfolding build_node_list_from_db_def by (auto split: bind_splits)
  from 2 gateway_node_ok [OF 1] have "nodes_ok n2"
    unfolding get_nodes_info_from_src_route_network_db_def
    by (auto split: option.splits elim!: foldM_inv [where P = nodes_ok] intro: source_route_row_ok)
  with 3 have "nodes_ok n3"
    unfolding get_alternate_path_for_all_nodes_def
    by (auto split: bind_splits if_splits elim!: mapM_nodes_ok dest: get_alternate_path_for_node_ok)
  with 4 show ?thesis
    unfolding get_missing_info_for_all_nodes_def
    by (auto split: bind_splits elim!: mapM_nodes_ok simp: node_ok_def)
qed

text \<open>C40: whatever the database returns, the list of nodes has its addresses in order without
  repetition, every node carries the address it is stored under, and every route has four bytes
  for each of its hops, or is the node's own short address.\<close>

theorem build_node_list_well_formed:
  assumes "build_node_list_from_db db e gwid = Some nodes"
  shows "sorted_wrt mac_less (map fst nodes) \<and> distinct (map fst nodes) \<and>
    list_all (\<lambda>(mac, node). node_mac_address node = mac \<and>
      (db_route (primary_path node) \<or> own_route mac (primary_path node)) \<and> list_all db_route (alternate_paths node)) nodes"
  using build_nodes_ok [OF assms] map_sorted_distinct [of nodes]
  by (auto simp: nodes_ok_def map_sorted_def node_ok_def list_all_iff)

section \<open>Routes and missing cycles as the database holds them\<close>

lemma source_route_row_text:
  assumes "length mac = 8" and "\<forall>h \<in> set hops. length h = 8" and "atoi n = Some (int (length hops))"
  shows "source_route_row [Some (mac_to_hex mac), Some n, Some (path_hex hops)] nodes
    = Some (put_node mac ((case map_of nodes mac of Some n \<Rightarrow> n | None \<Rightarrow> new_node_info mac)
        \<lparr>node_mac_address := mac, primary_path := \<lparr>hop_count = int (length hops), path = path_bytes hops\<rparr>\<rparr>) nodes)"
proof -
  have "mac_from_hex (mac_to_hex mac) = Some mac" using mac_from_hex_to_hex [OF assms(1), of "[]"] by simp
  moreover have "extract_path (path_hex hops) (int (length hops)) = Some (True, path_bytes hops)"
    using extract_path_loop_hops [OF assms(2), of "[]" 0 "[]"] path_hex_length [OF assms(2)]
    by (simp add: extract_path_def)
  ultimately show ?thesis using assms(3) by (simp add: source_route_row_def col_def Let_def)
qed

text \<open>A route stored as text reaches its node as the short addresses of its hops, and touches no
  other node.\<close>

theorem source_route_row_roundtrip:
  assumes "length mac = 8" and "\<forall>h \<in> set hops. length h = 8" and "atoi n = Some (int (length hops))" and "map_sorted nodes"
  shows "\<exists>nodes'. source_route_row [Some (mac_to_hex mac), Some n, Some (path_hex hops)] nodes = Some nodes' \<and>
    map_option primary_path (map_of nodes' mac) = Some \<lparr>hop_count = int (length hops), path = path_bytes hops\<rparr> \<and>
    (\<forall>k. k \<noteq> mac \<longrightarrow> map_of nodes' k = map_of nodes k)"
  using source_route_row_text [OF assms(1-3), of nodes] nodes.get_put [OF assms(4)] by simp

text \<open>Minute of the day; local time moves evenly over the last hour.\<close>

definition day_minute :: "tm \<Rightarrow> int" where
  "day_minute t = tm_hour t * 60 + tm_min t"

definition even_hour :: "env \<Rightarrow> bool" where
  "even_hour e \<longleftrightarrow> (\<forall>n \<in> {0, 1, 2, 3}. tm_ok (localtime e (time_now e - n * 900)) \<and>
     day_minute (localtime e (time_now e - n * 900)) = (day_minute (localtime e (time_now e)) - 15 * n) mod 1440)"

lemma quarter_shift:
  assumes "0 \<le> (m :: int)" "m < 1440" "0 \<le> r" "r \<le> 3" "1 \<le> cid" "cid \<le> 96"
    and "r = (m div 15 + 1 - cid + 96) mod 96"
  shows "((m - 15 * r) mod 1440 + 5) div 15 mod 96 + 1 = (if m mod 15 \<le> 9 then cid else cid mod 96 + 1)"
proof -
  define q b where "q = m div 15" and "b = m mod 15"
  have m: "m = 15 * q + b" "0 \<le> b" "b < 15" "0 \<le> q" "q < 96" using assms(1,2) by (auto simp: q_def b_def)
  have r: "r = (if cid \<le> q + 1 then q + 1 - cid else q + 1 - cid + 96)"
  proof (cases "cid \<le> q + 1")
    case True
    have "(q + 1 - cid + 96) mod 96 = (q + 1 - cid) mod 96" by (rule mod_add_self2)
    also have "\<dots> = q + 1 - cid" using True m assms(5) by (intro mod_pos_pos_trivial) auto
    finally show ?thesis using True assms(7) by (simp add: q_def)
  next
    case False
    then have "(q + 1 - cid + 96) mod 96 = q + 1 - cid + 96" using m assms(6) by (intro mod_pos_pos_trivial) auto
    with False show ?thesis using assms(7) by (simp add: q_def)
  qed
  have shifted: "(m - 15 * r) mod 1440 = 15 * (cid - 1) + b"
  proof (cases "cid \<le> q + 1")
    case True
    with r m have "m - 15 * r = 15 * (cid - 1) + b" by simp
    then show ?thesis using m(2,3) assms(5,6) by simp
  next
    case False
    with r m have "m - 15 * r = 15 * (cid - 1) + b - 1440" by simp
    then have "(m - 15 * r) mod 1440 = (15 * (cid - 1) + b) mod 1440" by (simp only: minus_mod_self2)
    then show ?thesis using m(2,3) assms(5,6) by simp
  qed
  have div: "(15 * (cid - 1) + b + 5) div 15 = (if b \<le> 9 then cid - 1 else cid)"
    using m(2,3) by auto
  show ?thesis
    unfolding shifted div q_def [symmetric] b_def [symmetric] using assms(5,6) by auto
qed

text \<open>The cycle that is asked for by its distance \<open>r\<close> from the current quarter is stored under the
  identifier the database misses, provided the quarter is at most nine minutes old when it is
  stored, as in every window of the schedule.  From the tenth minute on it is stored under the
  identifier of the following quarter.\<close>

theorem missing_cycle_stored:
  assumes "even_hour e" and "1 \<le> cid" and "cid \<le> 96"
    and "relative_cycles (current_cycle e) [cid] = [r]"
  shows "calculate_cycle_id e r = (if tm_min (localtime e (time_now e)) mod 15 \<le> 9 then cid else cid mod 96 + 1)"
proof -
  let ?lt = "localtime e (time_now e)"
  have ok: "tm_ok ?lt" using assms(1) by (auto simp: even_hour_def)
  then have m: "0 \<le> day_minute ?lt" "day_minute ?lt < 1440" by (auto simp: day_minute_def tm_ok_def)
  have "tm_min ?lt sdiv 15 = tm_min ?lt div 15" using ok signed_divide_int_eq_divide_int [of "tm_min ?lt" 15]
    by (cases "tm_min ?lt = 0") (simp_all add: tm_ok_def)
  then have cur: "current_cycle e = day_minute ?lt div 15 + 1"
    by (simp add: current_cycle_def Let_def day_minute_def)
  have "0 < current_cycle e - cid + 96" using m(1) assms(3) cur by (simp add: pos_imp_zdiv_nonneg_iff add_pos_nonneg)
  then have "(current_cycle e - cid + 96) smod 96 = (current_cycle e - cid + 96) mod 96"
    using signed_modulo_int_eq_modulo_int [of "current_cycle e - cid + 96" 96] by simp
  with assms(4) have r: "r = (day_minute ?lt div 15 + 1 - cid + 96) mod 96" "0 \<le> r" "r \<le> 3"
    by (auto simp: relative_cycles_def cur split: if_splits)
  have "r \<in> {0, 1, 2, 3}" using r(2,3) by auto
  with assms(1) have t: "tm_ok (localtime e (time_now e - r * 900))"
    "day_minute (localtime e (time_now e - r * 900)) = (day_minute ?lt - 15 * r) mod 1440"
    unfolding even_hour_def by blast+
  have "day_minute ?lt = tm_min ?lt + tm_hour ?lt * 4 * 15" by (simp add: day_minute_def)
  then have d: "day_minute ?lt mod 15 = tm_min ?lt mod 15" by (simp only: mod_mult_self1)
  have "calculate_cycle_id e r = (day_minute (localtime e (time_now e - r * 900)) + 5) div 15 mod 96 + 1"
    using calculate_cycle_id_value [OF r(2,3) t(1)] by (simp only: day_minute_def)
  also have "\<dots> = (if day_minute ?lt mod 15 \<le> 9 then cid else cid mod 96 + 1)"
    unfolding t(2) by (rule quarter_shift [OF m r(2,3) assms(2,3) r(1)])
  finally show ?thesis unfolding d .
qed

section \<open>Concrete inputs\<close>

definition example_database :: database where
  "example_database = \<lparr>source_route_rows = Some [[Some ''3CC1F60100000045'', Some ''1'', Some ''3CC1F60100000045'']],
     alternate_route_rows = \<lambda>_. Some [[Some ''1'', Some ''3CC1F60100000045'']],
     missing_ip_rows = \<lambda>_ _ _. Some [[Some ''1'']], blp_rows = \<lambda>_. Some [[Some ''1'']], dlp_rows = \<lambda>_. None,
     bhp_rows = \<lambda>_. Some [], nameplate_rows = \<lambda>_. Some [[None]], silenced_rows = \<lambda>_. Some [[Some ''0'']],
     ifv_rows = \<lambda>_. Some [], sync_rows = \<lambda>_. Some [[Some ''0'']], sync_update_result = \<lambda>_. SUCCESS\<rparr>"

lemma example_nodes: "map_option length (build_node_list_from_db example_database example_env ''3CC1F601A3535435'') = Some 2"
  by code_simp

theorem build_node_list_well_formed_witness:
  "\<exists>nodes. build_node_list_from_db example_database example_env ''3CC1F601A3535435'' = Some nodes \<and> length nodes = 2
    \<and> distinct (map fst nodes)"
proof -
  from example_nodes obtain nodes where
    n: "build_node_list_from_db example_database example_env ''3CC1F601A3535435'' = Some nodes" "length nodes = 2"
    by auto
  from build_node_list_well_formed [OF n(1)] n show ?thesis by blast
qed

theorem source_route_row_roundtrip_witness:
  "\<exists>nodes'. source_route_row [Some (mac_to_hex [0x3C, 0xC1, 0xF6, 1, 0, 0, 0, 0x45]), Some ''1'',
      Some (path_hex [[0x3C, 0xC1, 0xF6, 1, 0, 0, 0, 0x45]])] [] = Some nodes' \<and>
    map_option primary_path (map_of nodes' [0x3C, 0xC1, 0xF6, 1, 0, 0, 0, 0x45])
      = Some \<lparr>hop_count = 1, path = [0, 0, 0, 0x45]\<rparr>"
proof -
  have "atoi ''1'' = Some 1" by code_simp
  then show ?thesis
    using source_route_row_roundtrip [of "[0x3C, 0xC1, 0xF6, 1, 0, 0, 0, 0x45]" "[[0x3C, 0xC1, 0xF6, 1, 0, 0, 0, 0x45]]" "''1''" "[]"]
    by (auto simp: map_sorted_def simp del: path_hex_simps)
qed

theorem missing_cycle_stored_witness:
  "calculate_cycle_id (example_env\<lparr>now_ns := 7500 * 1000000000\<rparr>) 1 = 8"
proof -
  let ?e = "example_env\<lparr>now_ns := 7500 * 1000000000\<rparr>"
  have "even_hour ?e" by (simp add: even_hour_def example_env_def time_now_def tm_ok_def day_minute_def)
  moreover have "relative_cycles (current_cycle ?e) [8] = [1]" by code_simp
  ultimately show ?thesis
    using missing_cycle_stored [of ?e 8 1] by (simp add: example_env_def time_now_def)
qed

end
