(* ===== verification/Pull_Cycle.thy ===== *)
theory Pull_Cycle
  imports Transmit
begin

text \<open>
  The pull cycle (\<open>HES/src/client.cpp\<close>): for every node of the gateway, what the database misses is
  asked for, page by page, on the primary path first and then on the alternate ones; a path that
  works becomes the primary path.  The functions take the address of a node where the source has
  a reference to it.
\<close>

section \<open>Commands\<close>

definition fuota_status :: bytes where "fuota_status = [0x00, 0x9B]"
definition fuota_disable :: bytes where "fuota_disable = [0x01, 0x9B, 0x00]"
definition flash_write :: bytes where "flash_write = [0x00, 0x02]"
definition soft_exit :: bytes where "soft_exit = [0x00, 0x01]"
definition dlms_connect :: bytes where "dlms_connect = [0x2B, 0x07, 0x00, 0x00, 0x00, 0x02, 0x01, 0x35]"
definition internal_firmware_version_cmd :: bytes where "internal_firmware_version_cmd = [0x00, 0x49, 0x46]"

section \<open>Paths of a node\<close>

text \<open>A reference to a path of a node.\<close>

datatype path_ref = Primary | Alternate nat

definition path_of_ref :: "node_info \<Rightarrow> path_ref \<Rightarrow> path_info option" where
  "path_of_ref node ref = (case ref of Primary \<Rightarrow> Some (primary_path node)
     | Alternate i \<Rightarrow> (if i < length (alternate_paths node) then Some (alternate_paths node ! i) else None))"

definition modify_node :: "mac \<Rightarrow> (node_info \<Rightarrow> node_info) \<Rightarrow> client \<Rightarrow> client option" where
  "modify_node mac f c = map_option (\<lambda>node. set_node mac (f node) c) (node_of c mac)"

text \<open>Alternate path \<open>i\<close> becomes the primary one; the old primary path goes to the end.\<close>

definition promote :: "nat \<Rightarrow> node_info \<Rightarrow> node_info" where
  "promote i node = node\<lparr>primary_path := alternate_paths node ! i,
     alternate_paths := take i (alternate_paths node) @ drop (Suc i) (alternate_paths node) @ [primary_path node]\<rparr>"

text \<open>The reassignment in \<open>attempt_dlms_reconnect_all_paths\<close>: every path equal to the one that works
  leaves the list, and the old primary path goes to its front.\<close>

definition reconnect_on :: "nat \<Rightarrow> node_info \<Rightarrow> node_info" where
  "reconnect_on i node = (let alt = alternate_paths node ! i in node\<lparr>primary_path := alt,
     alternate_paths := primary_path node # filter (\<lambda>x. \<not> (hop_count x = hop_count alt \<and> path x = path alt)) (alternate_paths node)\<rparr>)"

section \<open>Reconnection\<close>

definition attempt_dlms_reconnect :: "hooks \<Rightarrow> path_info \<Rightarrow> client \<Rightarrow> (int \<times> client) option" where
  "attempt_dlms_reconnect h p c = do {
     let old_state = currentState c;
     (ret, c) \<leftarrow> transmit_command_on_path_pmesh h MESH_DATA_QUERY dlms_connect p 3 (c\<lparr>currentState := DLMS_CONNECT\<rparr>);
     let c = c\<lparr>currentState := old_state\<rparr>;
     Some (if ret = DLMS_SUCCESS \<or> ret = SUCCESS then SUCCESS
           else if ret = DLMS_CONNECTION_FAILED then DLMS_CONNECTION_FAILED
           else FAILURE, c)
   }"

text \<open>The result tells too whether the list of alternate paths was replaced.\<close>

fun reconnect_alternates :: "hooks \<Rightarrow> mac \<Rightarrow> nat list \<Rightarrow> client \<Rightarrow> (int \<times> bool \<times> client) option" where
  "reconnect_alternates h mac [] c = Some (FAILURE, False, c)"
| "reconnect_alternates h mac (i # is) c = do {
     node \<leftarrow> node_of c mac;
     alt \<leftarrow> path_of_ref node (Alternate i);
     (ret_val, c) \<leftarrow> attempt_dlms_reconnect h alt c;
     if ret_val = SUCCESS then do {
       c \<leftarrow> modify_node mac (reconnect_on i) c;
       Some (SUCCESS, True, c)
     }
     else if ret_val = DLMS_CONNECTION_FAILED then Some (DLMS_CONNECTION_FAILED, False, c)
     else reconnect_alternates h mac is c
   }"

definition attempt_dlms_reconnect_all_paths :: "hooks \<Rightarrow> mac \<Rightarrow> path_info \<Rightarrow> client \<Rightarrow> (int \<times> bool \<times> client) option" where
  "attempt_dlms_reconnect_all_paths h mac failed_path c = do {
     (ret, c) \<leftarrow> attempt_dlms_reconnect h failed_path c;
     if ret = SUCCESS then Some (SUCCESS, False, c)
     else if ret = DLMS_CONNECTION_FAILED then Some (DLMS_CONNECTION_FAILED, False, c)
     else if gatewayStatus c = CONNECTED then do {
       node \<leftarrow> node_of c mac;
       reconnect_alternates h mac [0..<length (alternate_paths node)] c
     }
     else Some (FAILURE, False, c)
   }"

section \<open>The pages of a profile\<close>

text \<open>The loop of \<open>pull_profile_pages_on_path\<close> with \<open>k\<close> of its 16 passes left; the page index is a
  reference argument, so its last value is returned too.  Once the list of alternate paths was
  replaced, a reference into it is dangling.\<close>

fun pull_pages :: "hooks \<Rightarrow> (client \<Rightarrow> u8 \<Rightarrow> bytes option) \<Rightarrow> mac \<Rightarrow> path_ref \<Rightarrow> nat \<Rightarrow> u8 \<Rightarrow> client \<Rightarrow> (int \<times> u8 \<times> client) option" where
  "pull_pages h frame_fn mac ref 0 page_index c = Some (FAILURE, page_index, c)"
| "pull_pages h frame_fn mac ref (Suc k) page_index c = do {
     node \<leftarrow> node_of c mac;
     p \<leftarrow> path_of_ref node ref;
     dlms_cmd \<leftarrow> frame_fn c page_index;
     (ret, c) \<leftarrow> transmit_command_on_path_pmesh h MESH_DATA_QUERY dlms_cmd p 3 c;
     if ret = NEXT_PAGE_PRESENT then
       (let page_index = page_index + 1
        in if page_index \<ge> 16 then Some (FAILURE, page_index, c)
           else pull_pages h frame_fn mac ref k page_index c)
     else if ret = SUCCESS then Some (SUCCESS, page_index, c)
     else if ret = DLMS_CONNECTION_FAILED then do {
       (rc, moved, c) \<leftarrow> attempt_dlms_reconnect_all_paths h mac p c;
       if rc = SUCCESS then
         (if moved \<and> ref \<noteq> Primary then None else pull_pages h frame_fn mac ref k page_index c)
       else Some (DLMS_CONNECTION_FAILED, page_index, c)
     }
     else if ret = DLMS_ERROR then Some (DLMS_ERROR, page_index, c)
     else Some (FAILURE, page_index, c)
   }"

definition pull_profile_pages_on_path ::
    "hooks \<Rightarrow> path_ref \<Rightarrow> (client \<Rightarrow> u8 \<Rightarrow> bytes option) \<Rightarrow> u8 \<Rightarrow> mac \<Rightarrow> client \<Rightarrow> (int \<times> u8 \<times> client) option" where
  "pull_profile_pages_on_path h ref frame_fn page_index mac c = pull_pages h frame_fn mac ref 16 page_index c"

fun try_alternates :: "hooks \<Rightarrow> (client \<Rightarrow> u8 \<Rightarrow> bytes option) \<Rightarrow> mac \<Rightarrow> nat list \<Rightarrow> u8 \<Rightarrow> client \<Rightarrow> (int \<times> client) option" where
  "try_alternates h frame_fn mac [] page_index c = Some (FAILURE, c)"
| "try_alternates h frame_fn mac (i # is) page_index c = do {
     (ret, page_index, c) \<leftarrow> pull_profile_pages_on_path h (Alternate i) frame_fn page_index mac c;
     if ret = SUCCESS then do {
       c \<leftarrow> modify_node mac (promote i) c;
       Some (SUCCESS, c)
     }
     else if ret = DLMS_ERROR then Some (FAILURE, c)
     else if ret = DLMS_CONNECTION_FAILED then Some (FAILURE, c)
     else try_alternates h frame_fn mac is page_index c
   }"

definition try_paths_for_profile_pull ::
    "hooks \<Rightarrow> mac \<Rightarrow> (client \<Rightarrow> u8 \<Rightarrow> bytes option) \<Rightarrow> u8 \<Rightarrow> client \<Rightarrow> (int \<times> client) option" where
  "try_paths_for_profile_pull h mac frame_fn page_index c = do {
     (ret, page_index, c) \<leftarrow> pull_profile_pages_on_path h Primary frame_fn page_index mac c;
     if ret = SUCCESS then Some (SUCCESS, c)
     else if ret = DLMS_ERROR then Some (FAILURE, c)
     else if ret = DLMS_CONNECTION_FAILED then Some (FAILURE, c)
     else if gatewayStatus c = CONNECTED then do {
       node \<leftarrow> node_of c mac;
       try_alternates h frame_fn mac [0..<length (alternate_paths node)] page_index c
     }
     else Some (FAILURE, c)
   }"

section \<open>Commands without pages\<close>

text \<open>The loop over the alternate paths of \<open>check_fuota_status\<close>, \<open>fuota_disable_for_a_node\<close> and
  \<open>pull_internal_firmware_version_for_a_node\<close>: \<open>use_path\<close> works on a copy of the path and says with which
  result the function returns, if it does; the path is then promoted.\<close>

fun promote_first :: "(path_info \<Rightarrow> client \<Rightarrow> (int option \<times> client) option) \<Rightarrow> mac \<Rightarrow> nat list \<Rightarrow> client \<Rightarrow>
    (int option \<times> client) option" where
  "promote_first use_path mac [] c = Some (None, c)"
| "promote_first use_path mac (i # is) c = do {
     node \<leftarrow> node_of c mac;
     alt_path \<leftarrow> path_of_ref node (Alternate i);
     (ret, c) \<leftarrow> use_path alt_path c;
     case ret of Some r \<Rightarrow> do {
         c \<leftarrow> modify_node mac (promote i) c;
         Some (Some r, c)
       }
     | None \<Rightarrow> promote_first use_path mac is c
   }"

definition on_alternates :: "(path_info \<Rightarrow> client \<Rightarrow> (int option \<times> client) option) \<Rightarrow> mac \<Rightarrow> client \<Rightarrow>
    (int option \<times> client) option" where
  "on_alternates use_path mac c =
     (if gatewayStatus c = CONNECTED then do {
        node \<leftarrow> node_of c mac;
        promote_first use_path mac [0..<length (alternate_paths node)] c
      }
      else Some (None, c))"

definition check_fuota_status :: "hooks \<Rightarrow> mac \<Rightarrow> client \<Rightarrow> (int \<times> client) option" where
  "check_fuota_status h mac c = do {
     let c = c\<lparr>currentState := FUOTA_STATUS\<rparr>;
     node \<leftarrow> node_of c mac;
     (ret, c) \<leftarrow> transmit_command_on_path_pmesh h MESH_COMMISSION_PACKET fuota_status (primary_path node) 3 c;
     if ret \<noteq> FAILURE then Some (ret, c)
     else do {
       (ret, c) \<leftarrow> on_alternates (\<lambda>alt_path c. do {
         (ret, c) \<leftarrow> transmit_command_on_path_pmesh h MESH_COMMISSION_PACKET fuota_status alt_path 3 c;
         Some (if ret \<noteq> FAILURE then Some ret else None, c)
       }) mac c;
       case ret of Some r \<Rightarrow> Some (r, c) | None \<Rightarrow> Some (FAILURE, c\<lparr>currentState := IDLE\<rparr>)
     }
   }"

definition flash_save :: "hooks \<Rightarrow> path_info \<Rightarrow> client \<Rightarrow> (int \<times> client) option" where
  "flash_save h p c = do {
     (ret, c) \<leftarrow> transmit_command_on_path_pmesh h MESH_COMMISSION_PACKET flash_write p 3 (c\<lparr>currentState := FLASH_SAVE\<rparr>);
     Some (if ret = SUCCESS then SUCCESS else FAILURE, c)
   }"

definition soft_reset :: "hooks \<Rightarrow> path_info \<Rightarrow> client \<Rightarrow> (int \<times> client) option" where
  "soft_reset h p c = do {
     (ret, c) \<leftarrow> transmit_command_on_path_pmesh h MESH_COMMISSION_PACKET soft_exit p 3 (c\<lparr>currentState := SOFT_RESET\<rparr>);
     Some (if ret = SUCCESS then SUCCESS else FAILURE, c)
   }"

definition perform_flash_and_reset :: "hooks \<Rightarrow> path_info \<Rightarrow> client \<Rightarrow> (int \<times> client) option" where
  "perform_flash_and_reset h p c = do {
     (ret, c) \<leftarrow> flash_save h p c;
     if ret \<noteq> SUCCESS then Some (FAILURE, c)
     else do {
       (ret, c) \<leftarrow> soft_reset h p c;
       Some (if ret \<noteq> SUCCESS then FAILURE else SUCCESS, c)
     }
   }"

definition fuota_disable_for_a_node :: "hooks \<Rightarrow> mac \<Rightarrow> client \<Rightarrow> (int \<times> client) option" where
  "fuota_disable_for_a_node h mac c = do {
     let c = c\<lparr>currentState := FUOTA_DISABLE\<rparr>;
     node \<leftarrow> node_of c mac;
     (ret, c) \<leftarrow> transmit_command_on_path_pmesh h MESH_COMMISSION_PACKET fuota_disable (primary_path node) 3 c;
     (done, c) \<leftarrow> (if ret = SUCCESS then do {
         node \<leftarrow> node_of c mac;
         (rc, c) \<leftarrow> perform_flash_and_reset h (primary_path node) c;
         Some (rc = SUCCESS, c)
       } else Some (False, c));
     if done then Some (ret, c)
     else do {
       (ret, c) \<leftarrow> on_alternates (\<lambda>alt_path c. do {
         (ret, c) \<leftarrow> transmit_command_on_path_pmesh h MESH_COMMISSION_PACKET fuota_disable alt_path 3 c;
         if ret \<noteq> FAILURE then do {
           (rc, c) \<leftarrow> perform_flash_and_reset h alt_path c;
           Some (if rc = SUCCESS then Some ret else None, c)
         }
         else Some (None, c)
       }) mac c;
       Some (case ret of Some r \<Rightarrow> r | None \<Rightarrow> FAILURE, c)
     }
   }"

definition pull_internal_firmware_version_for_a_node :: "hooks \<Rightarrow> mac \<Rightarrow> client \<Rightarrow> (int \<times> client) option" where
  "pull_internal_firmware_version_for_a_node h mac c = do {
     let c = c\<lparr>currentState := INTERNAL_FV, currentNode := Some mac\<rparr>;
     c \<leftarrow> modify_node mac (\<lambda>node. node\<lparr>node_data := (node_data node)\<lparr>internal_firmware_version := replicate 256 0\<rparr>\<rparr>) c;
     node \<leftarrow> node_of c mac;
     (ret, c) \<leftarrow> transmit_command_on_path_pmesh h MESH_COMMISSION_PACKET internal_firmware_version_cmd (primary_path node) 3 c;
     if ret = SUCCESS then Some (ret, c\<lparr>currentNode := None\<rparr>)
     else do {
       (ret, c) \<leftarrow> on_alternates (\<lambda>alt_path c. do {
         (ret, c) \<leftarrow> transmit_command_on_path_pmesh h MESH_COMMISSION_PACKET internal_firmware_version_cmd alt_path 3 c;
         Some (if ret = SUCCESS then Some ret else None, c)
       }) mac c;
       case ret of Some r \<Rightarrow> Some (r, c\<lparr>currentNode := None\<rparr>)
       | None \<Rightarrow> Some (FAILURE, c\<lparr>currentState := IDLE, currentNode := None\<rparr>)
     }
   }"

section \<open>The profiles of a node\<close>

text \<open>The body that the four functions of a profile share: state, node, cleared buffer, page 0.\<close>

definition pull_profile_for_a_node ::
    "hooks \<Rightarrow> current_state \<Rightarrow> (node_profile \<Rightarrow> node_profile) \<Rightarrow> (client \<Rightarrow> u8 \<Rightarrow> bytes option) \<Rightarrow> mac \<Rightarrow> client \<Rightarrow> (int \<times> client) option" where
  "pull_profile_for_a_node h state clear_profile frame_fn mac c = do {
     let c = c\<lparr>currentState := state, currentNode := Some mac\<rparr>;
     c \<leftarrow> modify_node mac (\<lambda>node. node\<lparr>node_data := clear_profile (node_data node)\<rparr>) c;
     (ret, c) \<leftarrow> try_paths_for_profile_pull h mac frame_fn 0 c;
     Some (ret, c\<lparr>currentNode := None\<rparr>)
   }"

definition clear_nameplate :: "node_profile \<Rightarrow> node_profile" where
  "clear_nameplate d = d\<lparr>name_plate_profile := clear_buffer (name_plate_profile d)\<rparr>"
definition clear_daily_load :: "node_profile \<Rightarrow> node_profile" where
  "clear_daily_load d = d\<lparr>daily_load_profile := clear_buffer (daily_load_profile d)\<rparr>"
definition clear_blocks :: "node_profile \<Rightarrow> node_profile" where
  "clear_blocks d = d\<lparr>block_load_profile := clear_block_load (block_load_profile d)\<rparr>"
definition clear_billing :: "node_profile \<Rightarrow> node_profile" where
  "clear_billing d = d\<lparr>billing_history := clear_buffer (billing_history d)\<rparr>"
definition clear_instantaneous :: "node_profile \<Rightarrow> node_profile" where
  "clear_instantaneous d = d\<lparr>instantaneous_profile := clear_buffer (instantaneous_profile d)\<rparr>"

definition pull_nameplate_for_a_node :: "hooks \<Rightarrow> mac \<Rightarrow> client \<Rightarrow> (int \<times> client) option" where
  "pull_nameplate_for_a_node h =
     pull_profile_for_a_node h NAMEPLATE clear_nameplate (\<lambda>c i. Some (frame_dlms_nameplate_command_packet i))"

definition pull_daily_load_profile_for_a_node :: "hooks \<Rightarrow> mac \<Rightarrow> client \<Rightarrow> (int \<times> client) option" where
  "pull_daily_load_profile_for_a_node h =
     pull_profile_for_a_node h DAILY_LOAD clear_daily_load (\<lambda>c i. frame_dlms_dlp_command_packet (clock c) i)"

definition pull_block_load_profile_for_a_node :: "hooks \<Rightarrow> mac \<Rightarrow> client \<Rightarrow> (int \<times> client) option" where
  "pull_block_load_profile_for_a_node h =
     pull_profile_for_a_node h BLOCK_LOAD clear_blocks (\<lambda>c i. frame_dlms_blp_command_packet (clock c) i)"

definition pull_billing_history_profile_for_a_node :: "hooks \<Rightarrow> mac \<Rightarrow> client \<Rightarrow> (int \<times> client) option" where
  "pull_billing_history_profile_for_a_node h =
     pull_profile_for_a_node h BILLING_HISTORY clear_billing (\<lambda>c i. Some (frame_dlms_bhp_command_packet i))"

definition pull_instantaneous_profile_for_cycle :: "hooks \<Rightarrow> mac \<Rightarrow> int \<Rightarrow> client \<Rightarrow> (int \<times> client) option" where
  "pull_instantaneous_profile_for_cycle h mac cycle c = do {
     let c = c\<lparr>currentState := INSTANTANEOUS_PROFILE, currentNode := Some mac, current_ip_cycle := cycle\<rparr>;
     (ret, c) \<leftarrow> try_paths_for_profile_pull h mac (\<lambda>c i. Some (frame_dlms_ip_command_packet (current_ip_cycle c) i)) 0 c;
     Some (ret, c\<lparr>current_ip_cycle := - 1, currentNode := None\<rparr>)
   }"

text \<open>An insertion of \<open>MySqlDatabase\<close>; its result is not looked at.\<close>

definition db_insert :: "db_op \<Rightarrow> client \<Rightarrow> client" where
  "db_insert op c = c\<lparr>push := (push c)\<lparr>db_log := db_log (push c) @ [op]\<rparr>\<rparr>"

definition set_missing_cycles :: "int list \<Rightarrow> node_info \<Rightarrow> node_info" where
  "set_missing_cycles cs node = node\<lparr>missing_info := (missing_info node)\<lparr>missing_ip_cycles := cs\<rparr>\<rparr>"

text \<open>The loop over the missing cycles; every downloaded one leaves the list.\<close>

fun pull_cycles :: "hooks \<Rightarrow> mac \<Rightarrow> int list \<Rightarrow> client \<Rightarrow> (int \<times> client) option" where
  "pull_cycles h mac [] c = Some (SUCCESS, c)"
| "pull_cycles h mac (cycle # cs) c = do {
     (ret, c) \<leftarrow> pull_instantaneous_profile_for_cycle h mac cycle c;
     if ret = SUCCESS then do {
       node \<leftarrow> node_of c mac;
       let c = db_insert (InsertInstantaneous (node_mac_address node) (gateway_id c) (calculate_cycle_id (clock c) cycle)
         (instantaneous_profile (node_data node)) False) c;
       c \<leftarrow> modify_node mac (set_missing_cycles cs) c;
       pull_cycles h mac cs c
     }
     else Some (FAILURE, c)
   }"

definition pull_missing_instantaneous_for_a_node :: "hooks \<Rightarrow> mac \<Rightarrow> client \<Rightarrow> (int \<times> client) option" where
  "pull_missing_instantaneous_for_a_node h mac c = do {
     node \<leftarrow> node_of c mac;
     let missing_cycles = missing_ip_cycles (missing_info node);
     if missing_cycles = [] then Some (SUCCESS, c)
     else do {
       let missing_cycles = take 4 missing_cycles;
       c \<leftarrow> modify_node mac (set_missing_cycles missing_cycles) c;
       pull_cycles h mac missing_cycles c
     }
   }"

section \<open>All nodes\<close>

text \<open>\<open>ODM_Flag\<close> is set by another thread: what it is found to be at each look, and 0 afterwards.\<close>

definition read_ODM_Flag :: "client \<Rightarrow> bool \<times> client" where
  "read_ODM_Flag c = (case odm_flags c of [] \<Rightarrow> (False, c) | b # bs \<Rightarrow> (b, c\<lparr>odm_flags := bs\<rparr>))"

text \<open>The loop over the nodes that the functions below share.\<close>

fun for_all_nodes :: "(mac \<Rightarrow> client \<Rightarrow> client option) \<Rightarrow> mac list \<Rightarrow> client \<Rightarrow> (int \<times> client) option" where
  "for_all_nodes process [] c = Some (SUCCESS, c)"
| "for_all_nodes process (mac # macs) c = do {
     c \<leftarrow> process mac c;
     if gatewayStatus c = DISCONNECTED then Some (FAILURE, c)
     else (let (odm, c) = read_ODM_Flag c
       in if odm then Some (FAILURE, c) else for_all_nodes process macs c)
   }"

definition node_macs :: "client \<Rightarrow> mac list" where
  "node_macs c = map fst (nodes_info c)"

definition unsilence_node :: "hooks \<Rightarrow> mac \<Rightarrow> client \<Rightarrow> client option" where
  "unsilence_node h mac c = do {
     node \<leftarrow> node_of c mac;
     if is_silenced (missing_info node) then do {
       (fuota_status, c) \<leftarrow> check_fuota_status h mac c;
       if fuota_status = SUCCESS then Some (db_insert (DeleteUnsilenced mac (gateway_id c)) c)
       else if fuota_status = ENABLED then do {
         (result, c) \<leftarrow> fuota_disable_for_a_node h mac c;
         Some (if result = SUCCESS then db_insert (DeleteUnsilenced mac (gateway_id c)) c else c)
       }
       else Some c
     }
     else Some c
   }"

definition unsilence_all_nodes :: "hooks \<Rightarrow> client \<Rightarrow> (int \<times> client) option" where
  "unsilence_all_nodes h c = for_all_nodes (unsilence_node h) (node_macs c) c"

definition firmware_version_node :: "hooks \<Rightarrow> mac \<Rightarrow> client \<Rightarrow> client option" where
  "firmware_version_node h mac c = do {
     node \<leftarrow> node_of c mac;
     if verify_ifv_presence (missing_info node) = 0 then do {
       (result, c) \<leftarrow> pull_internal_firmware_version_for_a_node h mac c;
       if result = SUCCESS then do {
         node \<leftarrow> node_of c mac;
         Some (db_insert (UpdateInternalFirmwareVersion mac (gateway_id c) (internal_firmware_version (node_data node))) c)
       }
       else Some c
     }
     else Some c
   }"

definition pull_missing_internal_firmware_version_for_all_nodes :: "hooks \<Rightarrow> client \<Rightarrow> (int \<times> client) option" where
  "pull_missing_internal_firmware_version_for_all_nodes h c = for_all_nodes (firmware_version_node h) (node_macs c) c"

text \<open>A node whose profile is missing: the profile is pulled, inserted and cleared.\<close>

definition profile_node ::
    "(missing_cycle_info \<Rightarrow> bool) \<Rightarrow> (mac \<Rightarrow> client \<Rightarrow> (int \<times> client) option) \<Rightarrow> (client \<Rightarrow> mac \<Rightarrow> node_profile \<Rightarrow> db_op) \<Rightarrow>
     (node_profile \<Rightarrow> node_profile) \<Rightarrow> mac \<Rightarrow> client \<Rightarrow> client option" where
  "profile_node available pull insert_op clear_profile mac c = do {
     node \<leftarrow> node_of c mac;
     if \<not> available (missing_info node) then do {
       (ret, c) \<leftarrow> pull mac c;
       if ret = SUCCESS then do {
         node \<leftarrow> node_of c mac;
         let c = db_insert (insert_op c mac (node_data node)) c;
         modify_node mac (\<lambda>node. node\<lparr>node_data := clear_profile (node_data node)\<rparr>) c
       }
       else Some c
     }
     else Some c
   }"

definition pull_missing_nameplate_for_all_nodes :: "hooks \<Rightarrow> client \<Rightarrow> (int \<times> client) option" where
  "pull_missing_nameplate_for_all_nodes h c = for_all_nodes
     (profile_node is_name_plate_available (pull_nameplate_for_a_node h)
       (\<lambda>c mac d. InsertNamePlate mac (gateway_id c) (name_plate_profile d)) clear_nameplate) (node_macs c) c"

definition pull_missing_daily_load_for_all_nodes :: "hooks \<Rightarrow> client \<Rightarrow> (int \<times> client) option" where
  "pull_missing_daily_load_for_all_nodes h c = for_all_nodes
     (profile_node is_dlp_available (pull_daily_load_profile_for_a_node h)
       (\<lambda>c mac d. InsertDailyLoad mac (gateway_id c) (daily_load_profile d) False) clear_daily_load) (node_macs c) c"

definition pull_missing_block_load_for_all_nodes :: "hooks \<Rightarrow> client \<Rightarrow> (int \<times> client) option" where
  "pull_missing_block_load_for_all_nodes h c = for_all_nodes
     (profile_node is_blp_available (pull_block_load_profile_for_a_node h)
       (\<lambda>c mac d. InsertBlockLoad mac (gateway_id c) (calculate_cycle_id_for_block_load (clock c)) (block_load_profile d) False)
       clear_blocks) (node_macs c) c"

definition pull_missing_billing_history_for_all_nodes :: "hooks \<Rightarrow> client \<Rightarrow> (int \<times> client) option" where
  "pull_missing_billing_history_for_all_nodes h c = for_all_nodes
     (profile_node is_bhp_available (pull_billing_history_profile_for_a_node h)
       (\<lambda>c mac d. InsertBillingHistory mac (gateway_id c) (billing_history d) False) clear_billing) (node_macs c) c"

definition instantaneous_node :: "hooks \<Rightarrow> mac \<Rightarrow> client \<Rightarrow> client option" where
  "instantaneous_node h mac c = do {
     node \<leftarrow> node_of c mac;
     if missing_ip_cycles (missing_info node) \<noteq> [] then do {
       (ret, c) \<leftarrow> pull_missing_instantaneous_for_a_node h mac c;
       if ret = SUCCESS then modify_node mac (\<lambda>node. node\<lparr>node_data := clear_instantaneous (node_data node)\<rparr>) c
       else Some c
     }
     else Some c
   }"

definition pull_missing_ip_profile_for_all_nodes :: "hooks \<Rightarrow> client \<Rightarrow> (int \<times> client) option" where
  "pull_missing_ip_profile_for_all_nodes h c = for_all_nodes (instantaneous_node h) (node_macs c) c"

end
