(* ===== verification/Retries.thy ===== *)
theory Retries
  imports Transmit
begin

text \<open>
  How often a command is sent.  The retry loop (\<open>transmit_command_and_validate_response\<close>,
  \<open>HES/src/client.cpp\<close>) writes its packet at most \<open>maxRetries\<close> times whatever the gateway does, and
  exactly that often when the gateway is silent.
\<close>

section \<open>An upper bound\<close>

abbreviation (input) PONG :: bytes where "PONG \<equiv> [0x50, 0x4F, 0x4E, 0x47]"

text \<open>A run that writes the packet \<open>n\<close> times at most and nothing else but answers to \<open>PING\<close>.\<close>

definition writes :: "bytes \<Rightarrow> nat \<Rightarrow> client \<Rightarrow> client \<Rightarrow> bool" where
  "writes buff n c c' \<longleftrightarrow> send_results c = [] \<and> send_results c' = [] \<and>
     (\<exists>ws. wire c' = wire c @ ws \<and> set ws \<subseteq> {buff, PONG} \<and> length (filter (\<lambda>w. w \<noteq> PONG) ws) \<le> n)"

lemma writes_refl: "send_results c = [] \<Longrightarrow> writes buff 0 c c"
  by (simp add: writes_def)

lemma writes_trans:
  assumes "writes buff m a b" and "writes buff n b c"
  shows "writes buff (m + n) a c"
proof -
  from assms obtain us vs where "wire b = wire a @ us" "wire c = wire b @ vs" "set us \<subseteq> {buff, PONG}" "set vs \<subseteq> {buff, PONG}"
    "length (filter (\<lambda>w. w \<noteq> PONG) us) \<le> m" "length (filter (\<lambda>w. w \<noteq> PONG) vs) \<le> n"
    unfolding writes_def by blast
  with assms show ?thesis unfolding writes_def by (intro conjI exI [of _ "us @ vs"]) auto
qed

lemma writes_mono: "writes buff m a b \<Longrightarrow> m \<le> n \<Longrightarrow> writes buff n a b"
  unfolding writes_def by fastforce

lemma writes_update [simp]:
  "writes buff n c (c'\<lparr>gatewayStatus := g\<rparr>) = writes buff n c c'"
  "writes buff n c (c'\<lparr>need_to_validate_src_addr := x\<rparr>) = writes buff n c c'"
  "writes buff n (c\<lparr>clock := t, inbox := i\<rparr>) c' = writes buff n c c'"
  by (simp_all add: writes_def)

lemma send_loop_all:
  assumes "send_results c = []"
  shows "send_loop f left c = (SUCCESS, if left = [] then c else c\<lparr>wire := wire c @ [left]\<rparr>)"
  using assms by (subst send_loop.simps) (simp add: send_def send_loop.simps)

lemma write_writes:
  "write_to_client_vector b c = Some (w, c') \<Longrightarrow> send_results c = [] \<Longrightarrow> writes b 1 c c'"
  "write_to_client b c = Some (w, c') \<Longrightarrow> send_results c = [] \<Longrightarrow> writes b 1 c c'"
  unfolding write_to_client_vector_def write_to_client_def
  by (auto split: bind_splits dest!: get_destination_address_wire simp: send_loop_all same_wire_def writes_def)

lemma write_pong:
  assumes "write_to_client PONG c = Some (w, c')" and "send_results c = []"
  shows "writes buff 0 c c'"
  using write_writes(2) [OF assms] by (auto simp: writes_def filter_empty_conv)

lemma receive_data_writes:
  assumes "receive_data n c = Some (k, b, c')" and "send_results c = []"
  shows "writes buff 0 c c'"
proof -
  obtain r bs c1 where r: "recv n c = (r, bs, c1)" by (rule prod_cases3)
  with assms(2) have 1: "wire c1 = wire c" "send_results c1 = []" unfolding recv_def
    by (auto split: list.splits prod.splits rx.splits if_splits)
  from assms(1) r obtain c2 where 2: "c2 = c1 \<or> (\<exists>w. write_to_client PONG c1 = Some (w, c2))"
      "c' = c2 \<or> c' = c2\<lparr>gatewayStatus := DISCONNECTED\<rparr>"
    unfolding receive_data_def by (auto simp: Let_def split: bind_splits if_splits rx.splits)
  from 2(1) write_pong [OF _ 1(2)] writes_refl [OF 1(2)] have "writes buff 0 c1 c2" by blast
  with 2(2) 1 assms(2) show ?thesis by (auto simp: writes_def)
qed

lemma listen_writes:
  assumes "listen h got c = Some (p, c')" and "send_results c = []" and "\<not> comm_init_status c"
  shows "writes buff 0 c c'"
proof -
  from assms(1) obtain k b c1 where r: "receive_data 512 c = Some (k, b, c1)"
    unfolding listen_def by (auto split: bind_splits)
  note 1 = receive_data_writes [OF r assms(2)] and ci = steady_init(1) [OF receive_data_steady [OF r assms(3)]]
  from assms(1) r consider "c' = c1" | ret c2 where "client_received_data h (b, 0) k c1 = Some (ret, c2)"
      "c' = c2 \<or> c' = c2\<lparr>need_to_validate_src_addr := True\<rparr>"
    unfolding listen_def by (auto split: bind_splits if_splits)
  then show ?thesis
  proof cases
    case (2 ret c2)
    with client_received_data_quiet [OF 2(1) ci] 1 show ?thesis by (auto simp: writes_def quiet_def)
  qed (simp add: 1)
qed

lemma attempt_writes:
  assumes "attempt h buff need got c = Some (p, c')" and "send_results c = []" and "\<not> comm_init_status c"
  shows "writes buff (if need then 1 else 0) c c'"
proof -
  from assms(1) obtain w c1 where w: "(if need then write_to_client_vector buff c else Some (SUCCESS, c)) = Some (w, c1)"
    unfolding attempt_def by (auto split: bind_splits)
  then have 1: "writes buff (if need then 1 else 0) c c1"
    using write_writes(1) assms(2) writes_refl by (auto split: if_splits)
  from w have ci: "\<not> comm_init_status c1"
    using write_steady(1) [OF _ assms(3)] assms(3) by (auto split: if_splits dest: steady_init(1))
  from assms(1) w have "c' = c1 \<or> listen h got c1 = Some (p, c')"
    unfolding attempt_def by (auto split: if_splits)
  with 1 listen_writes [OF _ _ ci] writes_trans [of buff _ c c1 0 c'] show ?thesis by (fastforce simp: writes_def)
qed

text \<open>Each attempt that is counted writes the packet once; the first one of a round that goes on
  waiting has written it before.\<close>

lemma transmit_loop_writes:
  "transmit_loop h buff m k need got c = Some (r, c') \<Longrightarrow> send_results c = [] \<Longrightarrow> \<not> comm_init_status c
    \<Longrightarrow> writes buff (m - k - (if need then 0 else 1)) c c'"
proof (induction h buff m k need got c arbitrary: r c' rule: transmit_loop.induct)
  case (1 h buff m k need got c)
  show ?case
  proof (cases "k < m")
    case False
    with 1(3,4) show ?thesis by (subst (asm) transmit_loop.simps) (auto simp: give_up_def writes_refl split: if_splits)
  next
    case True
    with 1(3) obtain p c1 where a: "attempt h buff need got c = Some (p, c1)"
      by (subst (asm) transmit_loop.simps) (auto split: option.splits)
    note w = attempt_writes [OF a 1(4,5)] and ci = steady_init(1) [OF attempt_steady [OF a 1(5)]]
    then have sr: "send_results c1 = []" by (simp add: writes_def)
    from 1(3) True a have eq: "(case p of Return ret \<Rightarrow> Some (ret, c1) | Break got \<Rightarrow> give_up m got c1
      | Again got \<Rightarrow> transmit_loop h buff m k False got c1 | Attempt got \<Rightarrow> transmit_loop h buff m (k + 1) True got c1) = Some (r, c')"
      by (subst (asm) transmit_loop.simps) simp
    have last: "writes buff (m - k - (if need then 0 else 1)) c c1"
      using w True by (rule_tac writes_mono) auto
    show ?thesis
    proof (cases p)
      case (Again g)
      with writes_trans [OF w 1(1) [OF True a refl this _ sr ci]] eq True show ?thesis
        by (auto elim: writes_mono)
    next
      case (Attempt g)
      with writes_trans [OF w 1(2) [OF True a refl this _ sr ci]] eq True show ?thesis
        by (auto elim: writes_mono)
    qed (use eq last in \<open>auto simp: give_up_def split: if_splits\<close>)
  qed
qed

text \<open>C12: whatever the gateway answers, and however often, a command is written at most \<open>maxRetries\<close>
  times, and nothing else is written but answers to \<open>PING\<close>.\<close>

theorem transmit_attempts_bounded:
  assumes "transmit_command_and_validate_response h buff m c = Some (r, c')" and "send_results c = []" and "\<not> comm_init_status c"
  shows "\<exists>ws. wire c' = wire c @ ws \<and> set ws \<subseteq> {buff, PONG} \<and> length (filter (\<lambda>w. w \<noteq> PONG) ws) \<le> unat m"
  using transmit_loop_writes [OF assms(1) [unfolded transmit_command_and_validate_response_def] assms(2,3)]
  by (simp add: writes_def)

section \<open>A silent gateway\<close>

text \<open>A state after which nothing arrives any more.\<close>

definition silent :: "client \<Rightarrow> bool" where
  "silent c \<longleftrightarrow> inbox c = [] \<and> send_results c = [] \<and> gatewayStatus c = CONNECTED \<and> \<not> duplicate_gateway c"

lemma receive_nothing: "inbox c = [] \<Longrightarrow> 4 \<le> n \<Longrightarrow> receive_data n c = Some (- 1, replicate n 0, c)"
proof -
  assume c: "inbox c = []" and n: "4 \<le> n"
  then obtain k where "n = 4 + k" using le_Suc_ex by blast
  then have "rd_seq (replicate n 0, 0) 0 4 = Some [0, 0, 0, 0]"
    by (simp add: numeral_eq_Suc)
  with c show ?thesis by (simp add: receive_data_def recv_def Let_def)
qed

lemma silent_attempt:
  assumes "silent c" and "get_destination_address (buff, 0) c = Some c1" and "buff \<noteq> []" and "silent c1"
  shows "attempt h buff True got c = Some (Attempt got, c1\<lparr>wire := wire c1 @ [buff]\<rparr>)"
  using assms by (simp add: attempt_def write_to_client_vector_def send_loop_all listen_def receive_nothing silent_def)

lemma silent_loop:
  assumes "\<And>c. get_destination_address (buff, 0) c = Some (c\<lparr>src_addr_check_buffer := a, need_to_validate_src_addr := True\<rparr>)"
    and "buff \<noteq> []"
  shows "silent c \<Longrightarrow> k < m \<Longrightarrow> transmit_loop h buff m k True False c = Some (FAILURE, c\<lparr>src_addr_check_buffer := a,
    need_to_validate_src_addr := True, wire := wire c @ replicate (m - k) buff, gatewayStatus := DISCONNECTED\<rparr>)"
proof (induction "m - k" arbitrary: k c)
  case (Suc n)
  let ?c = "c\<lparr>src_addr_check_buffer := a, need_to_validate_src_addr := True\<rparr>"
  let ?c1 = "?c\<lparr>wire := wire c @ [buff]\<rparr>"
  from Suc.prems(1) have s: "silent ?c" "silent ?c1" by (simp_all add: silent_def)
  have a: "attempt h buff True False c = Some (Attempt False, ?c1)"
    using silent_attempt [OF Suc.prems(1) assms(1) assms(2) s(1), of h False] by simp
  have step: "transmit_loop h buff m k True False c = transmit_loop h buff m (k + 1) True False ?c1"
    using Suc.prems(2) a by (subst transmit_loop.simps) simp
  show ?case
  proof (cases "k + 1 < m")
    case True
    with Suc.hyps(1) [of "k + 1" ?c1] Suc.hyps(2) s(2) have "transmit_loop h buff m (k + 1) True False ?c1
      = Some (FAILURE, ?c1\<lparr>src_addr_check_buffer := a, need_to_validate_src_addr := True,
          wire := wire ?c1 @ replicate (m - (k + 1)) buff, gatewayStatus := DISCONNECTED\<rparr>)" by simp
    moreover have "m - k = Suc (m - (k + 1))" using True by simp
    ultimately show ?thesis unfolding step by simp
  next
    case False
    with Suc.prems(2) have "m = Suc k" by simp
    then show ?thesis unfolding step by (subst transmit_loop.simps) (simp add: give_up_def)
  qed
qed simp

text \<open>C13: a command to a gateway that stays silent is written exactly \<open>maxRetries\<close> times, whole; then the
  result is \<open>FAILURE\<close> and the gateway is marked as disconnected.\<close>

theorem silent_gateway_disconnected:
  assumes "route_ok p" and "gateway_ok (gateway c)" and "ty \<in> {MESH_PING_REQUEST, MESH_DATA_QUERY, MESH_COMMISSION_PACKET}"
    and "silent c" and "0 < retries" and "retries < 256"
  shows "transmit_command_on_path_pmesh h ty cmd p retries c = Some (FAILURE,
    c\<lparr>src_addr_check_buffer := drop (length (path p) - 4) (path p), need_to_validate_src_addr := True,
      wire := wire c @ replicate (nat retries) (frame_pmesh_command_packet (gateway c) ty p cmd), gatewayStatus := DISCONNECTED\<rparr>)"
proof -
  have m: "unat (word_of_int retries :: u8) = nat retries"
    using assms(5,6) by (simp add: unat_eq_nat_uint uint_word_of_int_eq take_bit_int_eq_self)
  have ne: "frame_pmesh_command_packet (gateway c) ty p cmd \<noteq> []"
    by (simp add: frame_pmesh_command_packet_def Let_def)
  from silent_loop [OF command_awaits [OF assms(1-3), of cmd] ne assms(4)] assms(5) m show ?thesis
    by (simp add: transmit_command_on_path_pmesh_def transmit_command_and_validate_response_def)
qed

section \<open>Concrete inputs\<close>

lemma example_silent: "silent example_client" "route_ok example_route" "gateway_ok (gateway example_client)"
  by (simp_all add: silent_def route_ok_def gateway_ok_def example_route_def example_dst_def example_client_def)

theorem silent_gateway_disconnected_witness:
  "\<exists>c'. transmit_command_on_path_pmesh example_hooks MESH_COMMISSION_PACKET [0x00, 0x01] example_route 3 example_client = Some (FAILURE, c')
    \<and> wire c' = [example_command, example_command, example_command] \<and> gatewayStatus c' = DISCONNECTED"
  using silent_gateway_disconnected [OF example_silent(2,3) _ example_silent(1), of MESH_COMMISSION_PACKET 3 example_hooks "[0x00, 0x01]"]
  by (simp add: numeral_3_eq_3 example_command_def) (simp add: example_client_def)

text \<open>An answer after two attempts that stay without one: two receptions time out before it.\<close>

definition late_client :: client where
  "late_client = example_client\<lparr>inbox := [(example_env, RxTimeout), (example_env, RxTimeout), (example_env, RxData (at_answer 1))]\<rparr>"

lemma late_run: "map_option fst (transmit_command_and_validate_response example_hooks example_command 3 late_client) = Some SUCCESS"
  by code_simp

theorem transmit_attempts_bounded_witness:
  "\<exists>c' ws. transmit_command_and_validate_response example_hooks example_command 3 late_client = Some (SUCCESS, c')
    \<and> wire c' = wire late_client @ ws \<and> length (filter (\<lambda>w. w \<noteq> PONG) ws) \<le> 3"
proof -
  from late_run obtain c' where t: "transmit_command_and_validate_response example_hooks example_command 3 late_client = Some (SUCCESS, c')"
    by auto
  from transmit_attempts_bounded [OF t] t show ?thesis by (auto simp: late_client_def example_client_def)
qed

end
