(* ===== verification/Download.thy ===== *)
theory Download
  imports Retries Pull_Cycle
begin

text \<open>
  A profile pulled from a meter that answers: the pages arrive one by one, each in answer to its own
  command, and end up in the node (\<open>pull_instantaneous_profile_for_cycle\<close> and what it calls in
  \<open>HES/src/client.cpp\<close> and \<open>HES/src/pull.cpp\<close>).
\<close>

section \<open>What lies behind a packet in its buffer\<close>

lemma rd_more: "rd (m, 0) k = Some b \<Longrightarrow> rd (m @ z, 0) k = Some b"
  by (auto simp: rd.simps nth_append split: if_splits)

lemma rd_seq_more: "rd_seq (m, 0) k n = Some bs \<Longrightarrow> rd_seq (m @ z, 0) k n = Some bs"
  by (induction n arbitrary: k bs) (auto split: bind_splits dest!: rd_more [of m _ _ z])

lemma checksum_matches_more: "checksum_matches (m, 0) = Some b \<Longrightarrow> checksum_matches (m @ z, 0) = Some b"
  unfolding checksum_matches_def calculate_checksum_def
  by (auto split: bind_splits dest!: rd_more [of m _ _ z] rd_seq_more [of m _ _ _ z])

lemma vec_more: "vec (m, 0) n = Some bs \<Longrightarrow> vec (m @ z, 0) n = Some bs"
  by (auto simp: vec_def rd_seq_more split: if_splits)

lemma pull_page_more:
  assumes "pull_page get put parse arrived e node (m, 0) len = Some x"
  shows "pull_page get put parse arrived e node (m @ z, 0) len = Some x"
  using assms unfolding pull_page_def
  by (auto simp: Let_def split: if_splits bind_splits
    dest!: checksum_matches_more [of m _ z] rd_more [of m _ _ z] rd_seq_more [of m _ _ _ z] vec_more [of m _ _ z])

section \<open>A page of an instantaneous profile\<close>

definition ip_page :: "bytes \<Rightarrow> u8 \<Rightarrow> u8 \<Rightarrow> (u8 \<times> dlms_value) list \<Rightarrow> bytes" where
  "ip_page dst index next rs = profile_page PULL_START_BYTE dst FI_CACHE_DATA COMMAND_IP_PROFILE index next rs"

text \<open>The bytes before the checksum must not read like an error status: \<open>processPacketType\<close> looks for
  \<open>0E 01 29\<close> and \<open>0E 01 25\<close> at the end of every data response.\<close>

definition ordinary :: "bytes \<Rightarrow> bool" where
  "ordinary p \<longleftrightarrow> (let n = length p in \<not> (p ! (n - 4) = 0x0E \<and> p ! (n - 3) = 0x01 \<and> p ! (n - 2) \<in> {0x29, 0x25}))"

lemma ip_page_bytes:
  assumes "length dst = 4"
  shows "rd (ip_page dst i n rs @ z, 0) 0 = Some HES_START_BYTE"
    and "rd (ip_page dst i n rs @ z, 0) 2 = Some MESH_DATA_RESPONSE"
    and "rd (ip_page dst i n rs @ z, 0) 17 = Some PULL_START_BYTE"
    and "rd (ip_page dst i n rs @ z, 0) 21 = Some FI_CACHE_DATA"
    and "rd (ip_page dst i n rs @ z, 0) 22 = Some COMMAND_IP_PROFILE"
    and "rd (ip_page dst i n rs @ z, 0) 23 = Some 0"
    and "rd (ip_page dst i n rs @ z, 0) 24 = Some n"
    and "rd_seq (ip_page dst i n rs @ z, 0) 11 4 = Some dst"
proof -
  obtain a b d e where dst: "dst = [a, b, d, e]" using assms by (auto simp: numeral_eq_Suc length_Suc_conv)
  show "rd (ip_page dst i n rs @ z, 0) 0 = Some HES_START_BYTE" "rd (ip_page dst i n rs @ z, 0) 2 = Some MESH_DATA_RESPONSE"
    "rd (ip_page dst i n rs @ z, 0) 17 = Some PULL_START_BYTE" "rd (ip_page dst i n rs @ z, 0) 21 = Some FI_CACHE_DATA"
    "rd (ip_page dst i n rs @ z, 0) 22 = Some COMMAND_IP_PROFILE"
    "rd (ip_page dst i n rs @ z, 0) 23 = Some 0" "rd (ip_page dst i n rs @ z, 0) 24 = Some n"
    by (simp_all add: ip_page_def rd.simps profile_page_def page_body_def Let_def dst nth_append)
  show "rd_seq (ip_page dst i n rs @ z, 0) 11 4 = Some dst"
    using page_fields(7) [OF assms] unfolding ip_page_def by (rule rd_seq_more)
qed

lemma uint_word_of_nat_small: "k < 256 \<Longrightarrow> uint (word_of_nat k :: u8) = int k"
  by (simp add: unsigned_of_nat take_bit_nat_eq_self)

lemma ip_page_length:
  assumes "length dst = 4" and "fits_page rs"
  shows "length (ip_page dst i n rs) = 27 + length (concat (map enc_record rs))" and "length (ip_page dst i n rs) \<le> 256"
    and "rd (ip_page dst i n rs @ z, 0) 1 = Some (word_of_nat (length (ip_page dst i n rs) - 1))"
    and "uint (word_of_nat (length (ip_page dst i n rs) - 1) :: u8) + 1 = int (length (ip_page dst i n rs))"
proof -
  show l: "length (ip_page dst i n rs) = 27 + length (concat (map enc_record rs))"
    using assms(1) by (simp add: ip_page_def profile_page_def length_page_body Let_def)
  with assms(2) show u: "length (ip_page dst i n rs) \<le> 256" by (simp add: fits_page_def)
  have "ip_page dst i n rs ! 1 = word_of_nat (26 + length (concat (map enc_record rs)))"
    using page_fields(1) [OF assms(1)] by (simp add: ip_page_def)
  then show "rd (ip_page dst i n rs @ z, 0) 1 = Some (word_of_nat (length (ip_page dst i n rs) - 1))"
    using l by (simp add: rd.simps nth_append)
  have "length (ip_page dst i n rs) - 1 < 256" using l u by simp
  then show "uint (word_of_nat (length (ip_page dst i n rs) - 1) :: u8) + 1 = int (length (ip_page dst i n rs))"
    using l uint_word_of_nat_small [of "length (ip_page dst i n rs) - 1"] by (simp del: of_nat_diff)
qed

lemma ip_page_type:
  assumes "length dst = 4" and "fits_page rs" and "ordinary (ip_page dst i n rs)" and "n \<in> {0, 1}"
    and "\<not> need_to_validate_src_addr c"
  shows "processPacketType (ip_page dst i n rs @ z, 0) (int (length (ip_page dst i n rs))) c = Some (SUCCESS, c)"
proof -
  define p where "p = ip_page dst i n rs"
  have l: "27 \<le> length p" using ip_page_length(1) [OF assms(1,2)] by (simp add: p_def)
  have at: "rd (p @ z, 0) (int (length p) - int k) = Some (p ! (length p - k))" if "0 < k" "k \<le> 4" for k
    using that l by (auto simp: rd.simps nth_append nat_diff_distrib)
  note [simp] = ip_page_bytes [OF assms(1), of i n rs z, folded p_def]
    at [of 1, simplified] at [of 2, simplified] at [of 3, simplified] at [of 4, simplified]
  have lm: "length_matches (p @ z, 0) (int (length p)) = Some True"
    using ip_page_length(3,4) [OF assms(1,2)] by (simp add: length_matches_def p_def)
  have "\<not> (p ! (length p - 4) = 0x0E \<and> p ! (length p - 3) = 0x01 \<and> p ! (length p - 2) \<in> {0x29, 0x25})"
    using assms(3) by (simp add: ordinary_def p_def Let_def)
  then show ?thesis
    unfolding p_def [symmetric] processPacketType_def
    using assms(4,5) lm by (auto simp: eqB_def type_in_def connect_status_def accept_packet_def)
qed

lemma ip_page_data:
  assumes "length dst = 4" and "fits_page rs" and "node_mac_address node = to_mac_array dst" and "n \<in> {0, 1}"
  shows "process_ip_profile_data e node (ip_page dst i n rs @ z, 0) (int (length (ip_page dst i n rs)))
    = Some (if n = 0 then SUCCESS else NEXT_PAGE_PRESENT,
        node\<lparr>node_data := (node_data node)\<lparr>instantaneous_profile := (instantaneous_profile (node_data node))
          \<lparr>last_packet_time := now_ns e,
           total_packets_received := total_packets_received (instantaneous_profile (node_data node)) + 1,
           profile_data := profile_data (instantaneous_profile (node_data node)) ++ map_of (rev rs)\<rparr>\<rparr>\<rparr>)"
  using pull_page_more [OF pull_ip_page [OF assms(1-3), of e PULL_START_BYTE FI_CACHE_DATA COMMAND_IP_PROFILE i n,
      unfolded process_ip_profile_data_def], of z] assms(4)
  by (auto simp: process_ip_profile_data_def ip_page_def)

text \<open>The node after a page.\<close>

definition with_records :: "env \<Rightarrow> (u8 \<times> dlms_value) list \<Rightarrow> node_info \<Rightarrow> node_info" where
  "with_records e rs node = node\<lparr>node_data := (node_data node)\<lparr>instantaneous_profile := (instantaneous_profile (node_data node))
     \<lparr>last_packet_time := now_ns e,
      total_packets_received := total_packets_received (instantaneous_profile (node_data node)) + 1,
      profile_data := profile_data (instantaneous_profile (node_data node)) ++ map_of (rev rs)\<rparr>\<rparr>\<rparr>"

text \<open>The client while it waits for a page of the node \<open>node\<close>, whose short address is \<open>dst\<close>.\<close>

definition awaits_page :: "mac \<Rightarrow> node_info \<Rightarrow> bytes \<Rightarrow> client \<Rightarrow> bool" where
  "awaits_page mac node dst c \<longleftrightarrow> targetState c = PULL \<and> currentState c = INSTANTANEOUS_PROFILE \<and> currentNode c = Some mac
     \<and> node_of c mac = Some node \<and> node_mac_address node = to_mac_array dst \<and> length dst = 4
     \<and> src_addr_check_buffer c = dst \<and> need_to_validate_src_addr c \<and> \<not> comm_init_status c"

definition received :: "bytes \<Rightarrow> client \<Rightarrow> client" where
  "received p c = c\<lparr>client_rx_buffer := p @ replicate (4096 - length p) 0, buffer_rx_length := int (length p),
     need_to_validate_src_addr := False\<rparr>"

lemma ip_page_valid:
  assumes "awaits_page mac node dst c" and "fits_page rs"
  shows "is_valid_packet (ip_page dst i n rs @ z, 0) (int (length (ip_page dst i n rs))) c
    = Some (SUCCESS, c\<lparr>need_to_validate_src_addr := False\<rparr>)"
proof -
  have d: "length dst = 4" using assms(1) by (simp add: awaits_page_def)
  have "length_matches (ip_page dst i n rs @ z, 0) (int (length (ip_page dst i n rs))) = Some True"
    using ip_page_length(3,4) [OF d assms(2)] by (simp add: length_matches_def)
  with ip_page_bytes [OF d] assms(1) show ?thesis
    by (simp add: is_valid_packet_def eqB_def validate_source_address_def awaits_page_def)
qed

lemma page_received:
  assumes "awaits_page mac node dst c" and "fits_page rs" and "ordinary (ip_page dst i n rs)" and "n \<in> {0, 1}"
  shows "client_received_data h (ip_page dst i n rs @ z, 0) (int (length (ip_page dst i n rs))) c
    = Some (if n = 0 then SUCCESS else NEXT_PAGE_PRESENT,
        set_node mac (with_records (clock c) rs node) (received (ip_page dst i n rs) c))"
proof -
  let ?p = "ip_page dst i n rs"
  let ?c0 = "c\<lparr>client_rx_buffer := ?p @ replicate (4096 - length ?p) 0, buffer_rx_length := int (length ?p)\<rparr>"
  let ?c1 = "?c0\<lparr>need_to_validate_src_addr := False\<rparr>"
  have a: "awaits_page mac node dst ?c0" and d: "length dst = 4" and nd: "node_of ?c1 mac = Some node"
    using assms(1) by (simp_all add: awaits_page_def node_of_def)
  have framed: "framed ?p"
    using ip_page_length(1,4) [OF d assms(2), of i n] ip_page_length(3) [OF d assms(2), of i n "[]"]
    by (simp add: framed_def rd.simps unat_eq_nat_uint split: if_splits)
  note l = ip_page_length(2) [OF d assms(2), of i n]
  note b = ip_page_bytes [OF d, of i n rs z]
  have pull: "pull_response (?p @ z, 0) (int (length ?p)) ?c1
    = Some (Some (if n = 0 then SUCCESS else NEXT_PAGE_PRESENT), set_node mac (with_records (clock c) rs node) ?c1)"
    using assms(1) nd b ip_page_data [OF d assms(2) _ assms(4), of node "clock ?c1" i z]
    by (simp add: pull_response_def ip_response_def with_current_node_def eqB_def profile_page_response_def awaits_page_def
      with_records_def)
  have "processPacketType (?p @ z, 0) (int (length ?p)) ?c1 = Some (SUCCESS, ?c1)"
    by (rule ip_page_type [OF d assms(2-4)]) simp
  with pull b have "client_process_data h (?p @ z, 0) (int (length ?p)) ?c1
    = Some (if n = 0 then SUCCESS else NEXT_PAGE_PRESENT, set_node mac (with_records (clock c) rs node) ?c1)"
    using assms(1) by (simp add: client_process_data_def eqB_def awaits_page_def)
  with ip_page_valid [OF a assms(2), of i n z] have "validate_received_data h (?p @ z, 0) (int (length ?p)) ?c0
    = Some (if n = 0 then SUCCESS else NEXT_PAGE_PRESENT, set_node mac (with_records (clock c) rs node) ?c1)"
    by (simp add: validate_received_data_def)
  with client_received_packets [of "[?p]" c h z] framed l assms(1) show ?thesis
    by (simp add: awaits_page_def received_def)
qed

section \<open>One command and its page\<close>

text \<open>A client in the middle of the pull of \<open>node\<close>, over a connection that takes whole packets.\<close>

definition pulling :: "mac \<Rightarrow> node_info \<Rightarrow> bytes \<Rightarrow> client \<Rightarrow> bool" where
  "pulling mac node dst c \<longleftrightarrow> targetState c = PULL \<and> currentState c = INSTANTANEOUS_PROFILE \<and> currentNode c = Some mac
     \<and> node_of c mac = Some node \<and> node_mac_address node = to_mac_array dst \<and> length dst = 4
     \<and> route_ok (primary_path node) \<and> drop (length (path (primary_path node)) - 4) (path (primary_path node)) = dst
     \<and> gateway_ok (gateway c) \<and> send_results c = [] \<and> \<not> comm_init_status c"

text \<open>The client after the exchange of \<open>frame\<close> against \<open>page\<close>, apart from the node.\<close>

definition exchanged :: "bytes \<Rightarrow> bytes \<Rightarrow> env \<Rightarrow> bytes \<Rightarrow> client \<Rightarrow> client" where
  "exchanged frame page t dst c = received page (c\<lparr>src_addr_check_buffer := dst, need_to_validate_src_addr := True,
     wire := wire c @ [frame], clock := t, inbox := tl (inbox c)\<rparr>)"

lemma HES_ne_P: "HES_START_BYTE \<noteq> 0x50"
  by simp

lemma exchange_page:
  assumes "pulling mac node dst c" and "fits_page rs" and "ordinary (ip_page dst i n rs)" and "n \<in> {0, 1}"
    and "inbox c = (t, RxData (ip_page dst i n rs)) # rest"
  shows "transmit_command_on_path_pmesh h MESH_DATA_QUERY cmd (primary_path node) 3 c
    = Some (if n = 0 then SUCCESS else NEXT_PAGE_PRESENT, set_node mac (with_records t rs node)
        (exchanged (frame_pmesh_command_packet (gateway c) MESH_DATA_QUERY (primary_path node) cmd) (ip_page dst i n rs) t dst c))"
proof -
  let ?f = "frame_pmesh_command_packet (gateway c) MESH_DATA_QUERY (primary_path node) cmd"
  let ?page = "ip_page dst i n rs"
  let ?c = "c\<lparr>src_addr_check_buffer := dst, need_to_validate_src_addr := True\<rparr>"
  let ?c1 = "?c\<lparr>wire := wire c @ [?f]\<rparr>"
  let ?c2 = "?c1\<lparr>clock := t, inbox := rest\<rparr>"
  have d: "length dst = 4" using assms(1) by (simp add: pulling_def)
  have f: "?f \<noteq> []" by (simp add: frame_pmesh_command_packet_def Let_def)
  have w: "write_to_client_vector ?f c = Some (SUCCESS, ?c1)"
    using command_awaits [of "primary_path node" "gateway c" MESH_DATA_QUERY cmd c] assms(1) f
    by (simp add: pulling_def write_to_client_vector_def send_loop_all)
  note l = ip_page_length(1,2) [OF d assms(2), of i n]
  have pad: "take 512 ?page @ replicate (512 - length ?page) 0 = ?page @ replicate (512 - length ?page) 0"
    using l by simp
  have ne: "?page \<noteq> []" using l by auto
  have "rd (?page @ replicate (512 - length ?page) 0, 0) 0 = Some HES_START_BYTE" by (rule ip_page_bytes(1) [OF d])
  moreover have "rd_seq (?page @ replicate (512 - length ?page) 0, 0) 0 4 = Some (take 4 ?page)"
  proof (rule rd_seq_more)
    have "length (take 4 ?page) = 4" using l by simp
    then show "rd_seq (?page, 0) 0 4 = Some (take 4 ?page)"
      using rd_seq_prefix [of "take 4 ?page" "drop 4 ?page"] by simp
  qed
  moreover from this have "rd (?page @ replicate (512 - length ?page) 0, 0) 0 = Some (take 4 ?page ! 0)"
    using rd_seq_nth [of _ 0 4 "take 4 ?page" 0] by simp
  ultimately have head: "\<exists>head. rd_seq (?page @ replicate (512 - length ?page) 0, 0) 0 4 = Some head
      \<and> head \<noteq> [0x50, 0x49, 0x4E, 0x47]"
    by (intro exI [of _ "take 4 ?page"]) (metis HES_ne_P nth_Cons_0 option.inject)
  have r: "receive_data 512 ?c1 = Some (int (length ?page), ?page @ replicate (512 - length ?page) 0, ?c2)"
    using head assms(5) l ne pad by (auto simp: receive_data_def recv_def Let_def simp del: replicate.simps)
  have "awaits_page mac node dst ?c2"
    using assms(1) by (simp add: pulling_def awaits_page_def node_of_def)
  note g = page_received [OF this assms(2-4), of h "replicate (512 - length ?page) 0"]
  have "attempt h ?f True False c = Some (Return (if n = 0 then SUCCESS else NEXT_PAGE_PRESENT),
      set_node mac (with_records t rs node) (received ?page ?c2))"
    using w r g ne assms(4) by (auto simp: attempt_def listen_def final_result_def)
  moreover have "received ?page ?c2 = exchanged ?f ?page t dst c"
    using assms(5) by (simp add: exchanged_def)
  ultimately show ?thesis
    by (simp add: transmit_command_on_path_pmesh_def transmit_command_and_validate_response_def transmit_loop.simps [of h ?f 3])
qed

section \<open>All pages\<close>

text \<open>The pages of a meter as they arrive: when, with which index byte and which records.  Every page but
  the last announces another one.\<close>

type_synonym page = "env \<times> u8 \<times> (u8 \<times> dlms_value) list"

fun arrivals :: "bytes \<Rightarrow> page list \<Rightarrow> (env \<times> rx) list" where
  "arrivals dst [] = []"
| "arrivals dst ((t, i, rs) # ps) = (t, RxData (ip_page dst i (if ps = [] then 0 else 1) rs)) # arrivals dst ps"

fun pages_ok :: "bytes \<Rightarrow> page list \<Rightarrow> bool" where
  "pages_ok dst [] = True"
| "pages_ok dst ((t, i, rs) # ps) = (fits_page rs \<and> ordinary (ip_page dst i (if ps = [] then 0 else 1) rs) \<and> pages_ok dst ps)"

fun with_pages :: "page list \<Rightarrow> node_info \<Rightarrow> node_info" where
  "with_pages [] node = node"
| "with_pages ((t, i, rs) # ps) node = with_pages ps (with_records t rs node)"

definition ip_command :: "client \<Rightarrow> path_info \<Rightarrow> nat \<Rightarrow> bytes" where
  "ip_command c p i = frame_pmesh_command_packet (gateway c) MESH_DATA_QUERY p
     (frame_dlms_ip_command_packet (current_ip_cycle c) (word_of_nat i))"

lemma pulling_next:
  assumes "pulling mac node dst c"
  shows "pulling mac (with_records t rs node) dst (set_node mac (with_records t rs node) (exchanged f p t dst c))"
  using assms by (simp add: pulling_def node_of_def set_node_def exchanged_def received_def with_records_def update_conv')

lemma word_index: "j < 256 \<Longrightarrow> unat (word_of_nat j :: u8) = j"
  by (simp add: unsigned_of_nat take_bit_nat_eq_self)

lemma pull_all_pages:
  assumes "pulling mac node dst c" and "pages_ok dst ps" and "ps \<noteq> []" and "length ps \<le> k" and "j + length ps \<le> 16"
    and "inbox c = arrivals dst ps @ rest"
  shows "\<exists>i c'. pull_pages h (\<lambda>c i. Some (frame_dlms_ip_command_packet (current_ip_cycle c) i)) mac Primary k (word_of_nat j) c
      = Some (SUCCESS, i, c') \<and> pulling mac (with_pages ps node) dst c'
    \<and> wire c' = wire c @ map (ip_command c (primary_path node)) [j..<j + length ps] \<and> inbox c' = rest
    \<and> (\<forall>m. m \<noteq> mac \<longrightarrow> node_of c' m = node_of c m) \<and> push c' = push c"
  using assms
proof (induction ps arbitrary: node k j c)
  case (Cons p ps)
  obtain t i rs where p: "p = (t, i, rs)" by (cases p)
  obtain k' where k: "k = Suc k'" using Cons.prems(4) by (cases k) auto
  let ?fn = "\<lambda>c i. Some (frame_dlms_ip_command_packet (current_ip_cycle c) i)"
  let ?f = "ip_command c (primary_path node) j"
  define n where "n = (if ps = [] then 0 else 1 :: u8)"
  let ?c = "set_node mac (with_records t rs node) (exchanged ?f (ip_page dst i n rs) t dst c)"
  from Cons.prems(2) p have ok: "fits_page rs" "ordinary (ip_page dst i n rs)" "pages_ok dst ps" by (simp_all add: n_def)
  have inbox: "inbox c = (t, RxData (ip_page dst i n rs)) # arrivals dst ps @ rest"
    using Cons.prems(6) p by (simp add: n_def)
  have n: "n \<in> {0, 1}" "n = 0 \<longleftrightarrow> ps = []" by (simp_all add: n_def)
  have node: "node_of c mac = Some node" using Cons.prems(1) by (simp add: pulling_def)
  note ex = exchange_page [OF Cons.prems(1) ok(1,2) n(1) inbox, of h "frame_dlms_ip_command_packet (current_ip_cycle c) (word_of_nat j)",
      folded ip_command_def]
  note pl = pulling_next [OF Cons.prems(1), of t rs ?f "ip_page dst i n rs"]
  have after: "wire ?c = wire c @ [?f]" "inbox ?c = arrivals dst ps @ rest" "gateway ?c = gateway c"
      "current_ip_cycle ?c = current_ip_cycle c" "push ?c = push c" "m \<noteq> mac \<Longrightarrow> node_of ?c m = node_of c m" for m
    using inbox by (simp_all add: set_node_def exchanged_def received_def node_of_def update_conv')
  show ?case
  proof (cases "ps = []")
    case True
    with ex n(2) node k p after pl show ?thesis by (simp add: path_of_ref_def)
  next
    case False
    have lt: "j + 1 < 16" using Cons.prems(5) False by (cases ps) simp_all
    have idx: "(word_of_nat j :: u8) + 1 = word_of_nat (j + 1)" "\<not> (16 :: u8) \<le> word_of_nat (j + 1)"
      using lt word_index [of "j + 1"] by (simp_all add: word_le_nat_alt)
    have "length ps \<le> k'" "j + 1 + length ps \<le> 16" using Cons.prems(4,5) k by simp_all
    from Cons.IH [OF pl ok(3) False this after(2)] obtain i' c' where
      r: "pull_pages h ?fn mac Primary k' (word_of_nat (j + 1)) ?c = Some (SUCCESS, i', c')"
      and post: "pulling mac (with_pages ps (with_records t rs node)) dst c'"
        "wire c' = wire ?c @ map (ip_command ?c (primary_path (with_records t rs node))) [j + 1..<j + 1 + length ps]"
        "inbox c' = rest" "\<forall>m. m \<noteq> mac \<longrightarrow> node_of c' m = node_of ?c m" "push c' = push ?c" by auto
    have "ip_command ?c (primary_path (with_records t rs node)) = ip_command c (primary_path node)"
      using after(3,4) by (simp add: ip_command_def fun_eq_iff with_records_def)
    moreover have "[j..<j + length (p # ps)] = j # [j + 1..<j + 1 + length ps]" by (simp add: upt_conv_Cons del: upt_Suc)
    moreover have "pull_pages h ?fn mac Primary k (word_of_nat j) c = Some (SUCCESS, i', c')"
      using ex n(2) False node k idx r by (simp add: path_of_ref_def Let_def add.commute [of _ "1 :: u8"])
    ultimately show ?thesis using post after p by simp
  qed
qed simp

lemma with_pages_data:
  "profile_data (instantaneous_profile (node_data (with_pages ps node)))
     = profile_data (instantaneous_profile (node_data node)) ++ map_of (rev (concat (map (\<lambda>(t, i, rs). rs) ps)))
   \<and> total_packets_received (instantaneous_profile (node_data (with_pages ps node)))
     = total_packets_received (instantaneous_profile (node_data node)) + int (length ps)"
  by (induction ps node rule: with_pages.induct) (simp_all add: with_records_def)

text \<open>C7: when the meter answers the command for each page with that page, the pull of an instantaneous
  profile succeeds: the records of all pages are in the profile of the node, on top of what it held
  (a later record replaces an earlier one of the same index) and every page is counted; exactly one
  command was sent for each page, in the order of the pages; no other node and nothing of the
  pushed data changed.\<close>

theorem instantaneous_profile_downloaded:
  assumes "pulling mac node dst (c\<lparr>currentState := INSTANTANEOUS_PROFILE, currentNode := Some mac\<rparr>)"
    and "pages_ok dst ps" and "0 < length ps" and "length ps \<le> 16" and "inbox c = arrivals dst ps @ rest"
  shows "\<exists>c' node'. pull_instantaneous_profile_for_cycle h mac cycle c = Some (SUCCESS, c') \<and> node_of c' mac = Some node'
    \<and> profile_data (instantaneous_profile (node_data node'))
        = profile_data (instantaneous_profile (node_data node)) ++ map_of (rev (concat (map (\<lambda>(t, i, rs). rs) ps)))
    \<and> total_packets_received (instantaneous_profile (node_data node'))
        = total_packets_received (instantaneous_profile (node_data node)) + int (length ps)
    \<and> wire c' = wire c @ map (\<lambda>i. frame_pmesh_command_packet (gateway c) MESH_DATA_QUERY (primary_path node)
        (frame_dlms_ip_command_packet cycle (word_of_nat i))) [0..<length ps]
    \<and> inbox c' = rest \<and> (\<forall>m. m \<noteq> mac \<longrightarrow> node_of c' m = node_of c m) \<and> push c' = push c"
proof -
  let ?c = "c\<lparr>currentState := INSTANTANEOUS_PROFILE, currentNode := Some mac, current_ip_cycle := cycle\<rparr>"
  have "pulling mac node dst ?c" using assms(1) by (simp add: pulling_def node_of_def)
  moreover have "inbox ?c = arrivals dst ps @ rest" using assms(5) by simp
  ultimately obtain i c1 where r: "pull_pages h (\<lambda>c i. Some (frame_dlms_ip_command_packet (current_ip_cycle c) i)) mac Primary 16 0 ?c
      = Some (SUCCESS, i, c1)" "pulling mac (with_pages ps node) dst c1"
      "wire c1 = wire ?c @ map (ip_command ?c (primary_path node)) [0..<length ps]" "inbox c1 = rest"
      "\<forall>m. m \<noteq> mac \<longrightarrow> node_of c1 m = node_of ?c m" "push c1 = push ?c"
    using pull_all_pages [of mac node dst ?c ps 16 0 rest h] assms(2-4) by auto
  let ?c' = "c1\<lparr>current_ip_cycle := - 1, currentNode := None\<rparr>"
  have "pull_instantaneous_profile_for_cycle h mac cycle c = Some (SUCCESS, ?c')"
    using r(1) by (simp add: pull_instantaneous_profile_for_cycle_def try_paths_for_profile_pull_def pull_profile_pages_on_path_def Let_def)
  moreover have "node_of ?c' mac = Some (with_pages ps node)" using r(2) by (simp add: pulling_def node_of_def)
  moreover have "ip_command ?c (primary_path node) = (\<lambda>i. frame_pmesh_command_packet (gateway c) MESH_DATA_QUERY (primary_path node)
      (frame_dlms_ip_command_packet cycle (word_of_nat i)))" by (simp add: ip_command_def fun_eq_iff)
  ultimately show ?thesis using r(3-6) with_pages_data [of ps node] by (auto simp: node_of_def)
qed

section \<open>A page that reads like an error\<close>

text \<open>A page whose records end with \<open>0E 01 29\<close> or \<open>0E 01 25\<close> before the checksum is complete and correct,
  but is answered as \<open>DLMS_CHECKSUM_ERROR\<close> or \<open>DLMS_CONNECTION_FAILED\<close>, and none of its records is stored.\<close>

theorem page_misread_as_error:
  assumes "awaits_page mac node dst c" and "fits_page rs" and "\<not> ordinary (ip_page dst i n rs)"
  shows "\<exists>r c'. client_received_data h (ip_page dst i n rs @ z, 0) (int (length (ip_page dst i n rs))) c = Some (r, c')
    \<and> r \<in> {DLMS_CHECKSUM_ERROR, DLMS_CONNECTION_FAILED} \<and> nodes_info c' = nodes_info c
    \<and> checksum_matches (ip_page dst i n rs @ z, 0) = Some True"
proof -
  define p where "p = ip_page dst i n rs"
  let ?c0 = "c\<lparr>client_rx_buffer := p @ replicate (4096 - length p) 0, buffer_rx_length := int (length p)\<rparr>"
  let ?c1 = "?c0\<lparr>need_to_validate_src_addr := False\<rparr>"
  have a: "awaits_page mac node dst ?c0" and d: "length dst = 4"
    using assms(1) by (simp_all add: awaits_page_def node_of_def)
  have framed: "framed p"
    using ip_page_length(1,4) [OF d assms(2), of i n] ip_page_length(3) [OF d assms(2), of i n "[]"]
    by (simp add: p_def framed_def rd.simps unat_eq_nat_uint split: if_splits)
  have l: "27 \<le> length p" using ip_page_length(1) [OF d assms(2)] by (simp add: p_def)
  have at: "rd (p @ z, 0) (int (length p) - int k) = Some (p ! (length p - k))" if "0 < k" "k \<le> 4" for k
    using that l by (auto simp: rd.simps nth_append nat_diff_distrib)
  have end_bytes: "p ! (length p - 4) = 0x0E \<and> p ! (length p - 3) = 0x01 \<and> p ! (length p - 2) \<in> {0x29, 0x25}"
    using assms(3) by (simp add: ordinary_def p_def Let_def)
  obtain r where r: "processPacketType (p @ z, 0) (int (length p)) ?c1 = Some (r, ?c1)"
    "r \<in> {DLMS_CHECKSUM_ERROR, DLMS_CONNECTION_FAILED}"
    using end_bytes ip_page_bytes [OF d, of i n rs z, folded p_def]
      at [of 1, simplified] at [of 2, simplified] at [of 3, simplified] at [of 4, simplified]
    by (fastforce simp: processPacketType_def eqB_def type_in_def)
  have "client_process_data h (p @ z, 0) (int (length p)) ?c1 = Some (r, ?c1)"
    using r ip_page_bytes [OF d, of i n rs z, folded p_def] by (auto simp: client_process_data_def eqB_def)
  with ip_page_valid [OF a assms(2), of i n z, folded p_def]
  have "validate_received_data h (p @ z, 0) (int (length p)) ?c0 = Some (r, ?c1)"
    by (simp add: validate_received_data_def)
  with client_received_packets [of "[p]" c h z] framed ip_page_length(2) [OF d assms(2), of i n] assms(1)
  have "client_received_data h (p @ z, 0) (int (length p)) c = Some (r, ?c1)"
    by (simp add: awaits_page_def p_def)
  moreover have "checksum_matches (p @ z, 0) = Some True"
    using profile_page_checksum [OF d assms(2)] by (auto simp: p_def ip_page_def intro: checksum_matches_more)
  ultimately show ?thesis using r(2) by (auto simp: p_def)
qed

section \<open>Concrete inputs\<close>

definition example_pages :: "page list" where
  "example_pages = [(example_env, 0, [(1, example_value)]), (example_env, 1, [(2, example_value)])]"

definition example_puller :: client where
  "example_puller = example_client\<lparr>nodes_info := [(to_mac_array example_dst, example_node\<lparr>primary_path := example_route\<rparr>)],
     inbox := arrivals example_dst example_pages\<rparr>"

theorem instantaneous_profile_downloaded_witness:
  "\<exists>c'. pull_instantaneous_profile_for_cycle example_hooks (to_mac_array example_dst) 3 example_puller = Some (SUCCESS, c')
    \<and> length (wire c') = 2 \<and> inbox c' = []"
proof -
  have "pulling (to_mac_array example_dst) (example_node\<lparr>primary_path := example_route\<rparr>) example_dst
      (example_puller\<lparr>currentState := INSTANTANEOUS_PROFILE, currentNode := Some (to_mac_array example_dst)\<rparr>)"
    by (simp add: pulling_def node_of_def example_puller_def example_client_def example_node_def new_node_info_def
      example_route_def route_ok_def gateway_ok_def example_dst_def)
  moreover have "pages_ok example_dst example_pages" by code_simp
  ultimately show ?thesis
    using instantaneous_profile_downloaded [of "to_mac_array example_dst" _ example_dst example_puller example_pages "[]" example_hooks 3]
    by (fastforce simp: example_pages_def example_puller_def example_client_def)
qed

text \<open>An octet string that ends with the three bytes.\<close>

definition misread_record :: "u8 \<times> dlms_value" where
  "misread_record = (1, \<lparr>vtype = 0x09, typeName = typeNames 0x09, payload = UInt64Value 0, octetString = [0x0E, 0x01, 0x29]\<rparr>)"

theorem page_misread_as_error_witness:
  "\<exists>c'. client_received_data example_hooks (ip_page example_dst 0 0 [misread_record] @ [], 0)
      (int (length (ip_page example_dst 0 0 [misread_record])))
      (example_client\<lparr>currentState := INSTANTANEOUS_PROFILE\<rparr>) = Some (DLMS_CHECKSUM_ERROR, c')"
proof -
  let ?c = "example_client\<lparr>currentState := INSTANTANEOUS_PROFILE\<rparr>"
  have "awaits_page (to_mac_array example_dst) example_node example_dst ?c"
    by (simp add: awaits_page_def node_of_def example_client_def example_node_def new_node_info_def example_dst_def)
  moreover have "fits_page [misread_record]" "\<not> ordinary (ip_page example_dst 0 0 [misread_record])" by code_simp+
  moreover have "map_option fst (client_received_data example_hooks (ip_page example_dst 0 0 [misread_record] @ [], 0)
      (int (length (ip_page example_dst 0 0 [misread_record]))) ?c) = Some DLMS_CHECKSUM_ERROR" by code_simp
  ultimately show ?thesis using page_misread_as_error [of _ example_node example_dst ?c "[misread_record]" 0 0 example_hooks "[]"] by auto
qed

end
