(* ===== verification/Pull_Safety.thy ===== *)
theory Pull_Safety
  imports Download
begin

text \<open>
  What a pull cycle keeps and what it stores.  No operation of the cycle loses or invents a
  route, changes the settings of the client, or inserts anything but the profiles of the nodes it
  pulled; the lemmas follow the operations of \<open>Pull_Cycle\<close> in their order.
\<close>

section \<open>What the cycle keeps\<close>

definition paths_of :: "node_info \<Rightarrow> path_info set" where
  "paths_of node = insert (primary_path node) (set (alternate_paths node))"

definition route_sets :: "client \<Rightarrow> (mac \<times> mac \<times> missing_cycle_info \<times> path_info set) list" where
  "route_sets c = map (\<lambda>(m, n). (m, node_mac_address n, missing_info n, paths_of n)) (nodes_info c)"

text \<open>\<open>kept ops c c'\<close>: a run from \<open>c\<close> to \<open>c'\<close> that makes exactly the insertions \<open>ops\<close> on the pull side.\<close>

definition kept :: "db_op list \<Rightarrow> client \<Rightarrow> client \<Rightarrow> bool" where
  "kept ops c c' \<longleftrightarrow> targetState c' = targetState c \<and> gateway_id c' = gateway_id c \<and> gateway c' = gateway c
     \<and> tx_page_index c' = tx_page_index c \<and> duplicate_gateway c' = duplicate_gateway c \<and> route_sets c' = route_sets c
     \<and> pulled_log c' = pulled_log c @ ops \<and> \<not> comm_init_status c \<and> \<not> comm_init_status c'"

lemma kept_refl: "\<not> comm_init_status c \<Longrightarrow> kept [] c c"
  by (simp add: kept_def)

lemma kept_trans: "kept a c1 c2 \<Longrightarrow> kept b c2 c3 \<Longrightarrow> kept (a @ b) c1 c3"
  by (simp add: kept_def)

lemma kept_trans_Nil [trans]: "kept [] c1 c2 \<Longrightarrow> kept b c2 c3 \<Longrightarrow> kept b c1 c3"
  by (simp add: kept_def)

lemma kept_init: "kept ops c c' \<Longrightarrow> \<not> comm_init_status c'" "kept ops c c' \<Longrightarrow> \<not> comm_init_status c"
  by (simp_all add: kept_def)

lemma routes_route_sets: "routes_of c' = routes_of c \<Longrightarrow> route_sets c' = route_sets c"
proof -
  let ?g = "\<lambda>(m, a, mi, p, alts). (m, a, mi, insert p (set alts))"
  have "route_sets c = map ?g (routes_of c)" for c
    by (auto simp: route_sets_def routes_of_def paths_of_def)
  then show "routes_of c' = routes_of c \<Longrightarrow> route_sets c' = route_sets c" by simp
qed

lemma steady_kept: "steady c c' \<Longrightarrow> kept [] c c'"
  using routes_route_sets [of c' c] by (simp add: steady_def kept_def)

lemma kept_updates [simp]:
  "kept ops c (c'\<lparr>currentState := s\<rparr>) = kept ops c c'"
  "kept ops c (c'\<lparr>currentNode := n\<rparr>) = kept ops c c'"
  "kept ops c (c'\<lparr>current_ip_cycle := k\<rparr>) = kept ops c c'"
  "kept ops c (c'\<lparr>odm_flags := fs\<rparr>) = kept ops c c'"
  "kept ops (c\<lparr>currentState := s\<rparr>) c' = kept ops c c'"
  "kept ops (c\<lparr>currentNode := n\<rparr>) c' = kept ops c c'"
  "kept ops (c\<lparr>current_ip_cycle := k\<rparr>) c' = kept ops c c'"
  by (auto simp: kept_def route_sets_def pulled_log_def)

lemma steady_state [simp]:
  "steady c (c'\<lparr>currentState := s\<rparr>) = steady c c'"
  "steady (c\<lparr>currentState := s\<rparr>) c' = steady c c'"
  by (simp_all add: steady_def routes_of_def pulled_log_def)

lemma db_insert_kept: "pulled op \<Longrightarrow> \<not> comm_init_status c \<Longrightarrow> kept [op] c (db_insert op c)"
  by (simp add: kept_def db_insert_def route_sets_def pulled_log_def)

lemma modify_node_kept:
  assumes "modify_node mac f c = Some c'" and "\<not> comm_init_status c"
    and "\<And>n. node_of c mac = Some n \<Longrightarrow>
      node_mac_address (f n) = node_mac_address n \<and> missing_info (f n) = missing_info n \<and> paths_of (f n) = paths_of n"
  shows "kept [] c c'"
proof -
  from assms(1) obtain n where n: "node_of c mac = Some n" "c' = set_node mac (f n) c"
    by (auto simp: modify_node_def)
  have "route_sets c' = route_sets c"
    unfolding route_sets_def n(2) set_node_def
    using n(1) assms(3) [OF n(1)] by (simp add: node_of_def map_update_same)
  with n(2) assms(2) show ?thesis by (simp add: kept_def) (simp add: set_node_def pulled_log_def)
qed

lemma modify_data_kept:
  assumes "modify_node mac (\<lambda>node. node\<lparr>node_data := g (node_data node)\<rparr>) c = Some c'" and "\<not> comm_init_status c"
  shows "kept [] c c'"
  using assms by (rule modify_node_kept) (simp add: paths_of_def)

section \<open>Paths\<close>

lemma promote_paths: "i < length (alternate_paths node) \<Longrightarrow> paths_of (promote i node) = paths_of node"
proof -
  assume i: "i < length (alternate_paths node)"
  let ?a = "alternate_paths node"
  have "set ?a = set (take i ?a) \<union> {?a ! i} \<union> set (drop (Suc i) ?a)"
    using i by (subst id_take_nth_drop [OF i]) auto
  then show ?thesis by (auto simp: paths_of_def promote_def)
qed

lemma reconnect_paths: "i < length (alternate_paths node) \<Longrightarrow> paths_of (reconnect_on i node) = paths_of node"
  by (auto simp: paths_of_def reconnect_on_def Let_def)

lemma promote_kept:
  assumes "modify_node mac (promote i) c = Some c'" and "\<not> comm_init_status c"
    and "\<And>n. node_of c mac = Some n \<Longrightarrow> i < length (alternate_paths n)"
  shows "kept [] c c'"
  using assms(1,2) by (rule modify_node_kept) (use assms(3) in \<open>simp add: promote_paths\<close>, simp add: promote_def)

lemma reconnect_kept:
  assumes "modify_node mac (reconnect_on i) c = Some c'" and "\<not> comm_init_status c"
    and "\<And>n. node_of c mac = Some n \<Longrightarrow> i < length (alternate_paths n)"
  shows "kept [] c c'"
  using assms(1,2) by (rule modify_node_kept)
    (use assms(3) in \<open>simp add: reconnect_paths\<close>, simp add: reconnect_on_def Let_def)

text \<open>A node keeps its alternate paths while packets are exchanged.\<close>

lemma steady_node:
  assumes "steady c c'" and "node_of c' mac = Some n'"
  shows "\<exists>n. node_of c mac = Some n \<and> primary_path n = primary_path n' \<and> alternate_paths n = alternate_paths n'
    \<and> missing_info n = missing_info n' \<and> node_mac_address n = node_mac_address n'"
proof -
  have "map_of (map (\<lambda>(m, n). (m, f n)) ns) mac = map_option f (map_of ns mac)" for f :: "node_info \<Rightarrow> 'a" and ns mac
    by (induction ns) auto
  then have *: "map_of (routes_of c) mac = map_option (\<lambda>n. (node_mac_address n, missing_info n, primary_path n, alternate_paths n)) (node_of c mac)" for c
    by (simp add: routes_of_def node_of_def)
  have "routes_of c' = routes_of c" using assms(1) by (simp add: steady_def)
  with * [of c] * [of c'] assms(2) show ?thesis by (cases "node_of c mac") auto
qed

lemma alternate_in_range: "path_of_ref node (Alternate i) = Some p \<Longrightarrow> i < length (alternate_paths node)"
  by (simp add: path_of_ref_def split: if_splits)

lemma alternate_stays:
  "steady c c' \<Longrightarrow> node_of c mac = Some n \<Longrightarrow> path_of_ref n (Alternate i) = Some p \<Longrightarrow>
    node_of c' mac = Some n' \<Longrightarrow> i < length (alternate_paths n')"
  by (drule (1) steady_node) (auto dest: alternate_in_range)

lemma transmit_path_steady:
  "transmit_command_on_path_pmesh h ty cmd p k c = Some (r, c') \<Longrightarrow> \<not> comm_init_status c \<Longrightarrow> steady c c'"
  unfolding transmit_command_on_path_pmesh_def by (rule transmit_steady)

section \<open>Reconnection and pages\<close>

lemma attempt_dlms_reconnect_steady:
  assumes "attempt_dlms_reconnect h p c = Some (r, c')" and "\<not> comm_init_status c"
  shows "steady c c'"
proof -
  from assms(1) obtain ret c1 where
    "transmit_command_on_path_pmesh h MESH_DATA_QUERY dlms_connect p 3 (c\<lparr>currentState := DLMS_CONNECT\<rparr>) = Some (ret, c1)"
    and c': "c' = c1\<lparr>currentState := currentState c\<rparr>"
    unfolding attempt_dlms_reconnect_def Let_def by (auto split: bind_splits)
  from transmit_path_steady [OF this(1)] assms(2) have "steady (c\<lparr>currentState := DLMS_CONNECT\<rparr>) c1" by simp
  then show ?thesis by (simp add: c')
qed

text \<open>Either nothing was replaced, or an alternate path became the primary one.\<close>

lemma reconnect_alternates_kept:
  "reconnect_alternates h mac is c = Some (r, moved, c') \<Longrightarrow> \<not> comm_init_status c \<Longrightarrow>
    kept [] c c' \<and> (\<not> moved \<longrightarrow> steady c c' \<and> r \<noteq> SUCCESS)"
proof (induction "is" arbitrary: c)
  case Nil
  then show ?case by (simp add: kept_refl steady_refl)
next
  case (Cons i "is")
  from Cons.prems(1) obtain node alt rv c1 where n: "node_of c mac = Some node" "path_of_ref node (Alternate i) = Some alt"
    "attempt_dlms_reconnect h alt c = Some (rv, c1)"
    by (auto split: bind_splits)
  note s = attempt_dlms_reconnect_steady [OF n(3) Cons.prems(2)]
  note ci = steady_init(1) [OF s]
  have eq: "(if rv = SUCCESS then modify_node mac (reconnect_on i) c1 \<bind> (\<lambda>c. Some (SUCCESS, True, c))
      else if rv = DLMS_CONNECTION_FAILED then Some (DLMS_CONNECTION_FAILED, False, c1)
      else reconnect_alternates h mac is c1) = Some (r, moved, c')"
    using Cons.prems(1) n by simp
  consider "modify_node mac (reconnect_on i) c1 = Some c'" "moved"
    | "c' = c1" "\<not> moved" "r = DLMS_CONNECTION_FAILED" | "reconnect_alternates h mac is c1 = Some (r, moved, c')"
    using eq by (cases "rv = SUCCESS"; cases "rv = DLMS_CONNECTION_FAILED") (auto split: bind_splits)
  then show ?case
  proof cases
    case 1
    then have "kept [] c1 c'" using ci alternate_stays [OF s n(1,2)] by (blast intro: reconnect_kept)
    with 1 s show ?thesis by (auto dest: steady_kept intro: kept_trans_Nil)
  next
    case 2
    with s show ?thesis by (simp add: steady_kept)
  next
    case 3
    from Cons.IH [OF this ci] s show ?thesis by (auto dest: steady_kept intro: kept_trans_Nil steady_trans)
  qed
qed

lemma reconnect_all_kept:
  assumes "attempt_dlms_reconnect_all_paths h mac p c = Some (r, moved, c')" and "\<not> comm_init_status c"
  shows "kept [] c c' \<and> (\<not> moved \<longrightarrow> steady c c')"
proof -
  from assms(1) obtain ret c1 where a: "attempt_dlms_reconnect h p c = Some (ret, c1)"
    unfolding attempt_dlms_reconnect_all_paths_def by (auto split: bind_splits)
  note s = attempt_dlms_reconnect_steady [OF this assms(2)]
  from assms(1) a consider "c' = c1" "\<not> moved" | "is" where "reconnect_alternates h mac is c1 = Some (r, moved, c')"
    unfolding attempt_dlms_reconnect_all_paths_def by (auto split: bind_splits if_splits)
  then show ?thesis
  proof cases
    case 1
    with s show ?thesis by (simp add: steady_kept)
  next
    case 2
    from reconnect_alternates_kept [OF this steady_init(1) [OF s]] s show ?thesis
      by (auto dest: steady_kept intro: kept_trans_Nil steady_trans)
  qed
qed

lemma pull_pages_kept:
  "pull_pages h f mac ref k page c = Some (r, page', c') \<Longrightarrow> \<not> comm_init_status c \<Longrightarrow>
    kept [] c c' \<and> (ref \<noteq> Primary \<longrightarrow> r = SUCCESS \<longrightarrow> steady c c')"
proof (induction k arbitrary: page c)
  case 0
  then show ?case by (simp add: kept_refl)
next
  case (Suc k)
  from Suc.prems(1) obtain node p cmd ret c1 where
    t: "transmit_command_on_path_pmesh h MESH_DATA_QUERY cmd p 3 c = Some (ret, c1)"
    and n: "node_of c mac = Some node" "path_of_ref node ref = Some p" "f c page = Some cmd"
    by (auto split: bind_splits)
  note s = transmit_path_steady [OF t Suc.prems(2)]
  note ci = steady_init(1) [OF s]
  from Suc.prems(1) n t consider "c' = c1" | page1 where "pull_pages h f mac ref k page1 c1 = Some (r, page', c')"
    | moved c2 where "attempt_dlms_reconnect_all_paths h mac p c1 = Some (SUCCESS, moved, c2)" "moved \<longrightarrow> ref = Primary"
      "pull_pages h f mac ref k page c2 = Some (r, page', c')"
    | rc moved c2 where "attempt_dlms_reconnect_all_paths h mac p c1 = Some (rc, moved, c2)" "c' = c2" "r = DLMS_CONNECTION_FAILED"
    by (auto simp: Let_def split: bind_splits if_splits)
  then show ?case
  proof cases
    case 1
    with s show ?thesis by (simp add: steady_kept)
  next
    case (2 page1)
    from Suc.IH [OF this ci] s show ?thesis by (auto dest: steady_kept intro: kept_trans_Nil steady_trans)
  next
    case (3 moved c2)
    note k = reconnect_all_kept [OF 3(1) ci]
    with Suc.IH [OF 3(3)] kept_init(1) have "kept [] c2 c' \<and> (ref \<noteq> Primary \<longrightarrow> r = SUCCESS \<longrightarrow> steady c2 c')" by blast
    with k s 3(2) show ?thesis by (auto dest: steady_kept intro: kept_trans_Nil steady_trans)
  next
    case (4 rc moved c2)
    with reconnect_all_kept [OF 4(1) ci] s show ?thesis by (auto dest: steady_kept intro: kept_trans_Nil)
  qed
qed

text \<open>The reference is to a path that exists.\<close>

lemma pull_pages_ref:
  "pull_pages h f mac ref (Suc k) page c = Some x \<Longrightarrow> \<exists>node p. node_of c mac = Some node \<and> path_of_ref node ref = Some p"
  by (auto split: bind_splits)

lemma try_alternates_kept:
  "try_alternates h f mac is page c = Some (r, c') \<Longrightarrow> \<not> comm_init_status c \<Longrightarrow> kept [] c c'"
proof (induction "is" arbitrary: page c)
  case Nil
  then show ?case by (simp add: kept_refl)
next
  case (Cons i "is")
  from Cons.prems(1) obtain ret page1 c1 where
    p: "pull_pages h f mac (Alternate i) (Suc 15) page c = Some (ret, page1, c1)"
    by (auto simp: pull_profile_pages_on_path_def split: bind_splits)
  note k = pull_pages_kept [OF p Cons.prems(2)]
  note ci = kept_init(1) [OF conjunct1 [OF k]]
  from Cons.prems(1) p consider "ret = SUCCESS" "modify_node mac (promote i) c1 = Some c'" | "c' = c1"
    | page2 where "try_alternates h f mac is page2 c1 = Some (r, c')"
    by (auto simp: pull_profile_pages_on_path_def split: bind_splits if_splits)
  then show ?case
  proof cases
    case 1
    with k have s: "steady c c1" by simp
    from pull_pages_ref [OF p] obtain node q where n: "node_of c mac = Some node" "path_of_ref node (Alternate i) = Some q" by blast
    from promote_kept [OF 1(2) ci] alternate_stays [OF s n] have "kept [] c1 c'" by blast
    with k show ?thesis by (blast intro: kept_trans_Nil)
  next
    case (3 page2)
    from Cons.IH [OF this ci] k show ?thesis by (blast intro: kept_trans_Nil)
  qed (use k in simp)
qed

lemma try_paths_kept:
  assumes "try_paths_for_profile_pull h mac f page c = Some (r, c')" and "\<not> comm_init_status c"
  shows "kept [] c c'"
proof -
  from assms(1) obtain ret page1 c1 where p: "pull_pages h f mac Primary 16 page c = Some (ret, page1, c1)"
    by (auto simp: try_paths_for_profile_pull_def pull_profile_pages_on_path_def split: bind_splits)
  note k = conjunct1 [OF pull_pages_kept [OF p assms(2)]]
  from assms(1) p consider "c' = c1" | "is" page2 where "try_alternates h f mac is page2 c1 = Some (r, c')"
    by (auto simp: try_paths_for_profile_pull_def pull_profile_pages_on_path_def split: bind_splits if_splits)
  then show ?thesis
    using k try_alternates_kept [OF _ kept_init(1) [OF k]] by cases (blast intro: kept_trans_Nil)+
qed

section \<open>Commands without pages\<close>

lemma promote_first_kept:
  assumes "promote_first use_path mac is c = Some (r, c')" and "\<not> comm_init_status c"
    and use_path: "\<And>p c r c'. use_path p c = Some (r, c') \<Longrightarrow> \<not> comm_init_status c \<Longrightarrow> steady c c'"
  shows "kept [] c c'"
  using assms(1,2)
proof (induction "is" arbitrary: c)
  case Nil
  then show ?case by (simp add: kept_refl)
next
  case (Cons i "is")
  from Cons.prems(1) obtain node alt ret c1 where n: "node_of c mac = Some node" "path_of_ref node (Alternate i) = Some alt"
    and t: "use_path alt c = Some (ret, c1)"
    by (auto split: bind_splits)
  note s = use_path [OF t Cons.prems(2)]
  note ci = steady_init(1) [OF s]
  from Cons.prems(1) n t consider c2 where "modify_node mac (promote i) c1 = Some c2" "c' = c2"
    | "promote_first use_path mac is c1 = Some (r, c')"
    by (auto split: bind_splits option.splits)
  then show ?case
  proof cases
    case 1
    from promote_kept [OF 1(1) ci] alternate_stays [OF s n] 1(2) have "kept [] c1 c'" by blast
    with s show ?thesis by (blast dest: steady_kept intro: kept_trans_Nil)
  next
    case 2
    from Cons.IH [OF this ci] s show ?thesis by (blast dest: steady_kept intro: kept_trans_Nil)
  qed
qed

lemma on_alternates_kept:
  assumes "on_alternates use_path mac c = Some (r, c')" and "\<not> comm_init_status c"
    and "\<And>p c r c'. use_path p c = Some (r, c') \<Longrightarrow> \<not> comm_init_status c \<Longrightarrow> steady c c'"
  shows "kept [] c c'"
proof -
  from assms(1) consider "c' = c" | "is" where "promote_first use_path mac is c = Some (r, c')"
    unfolding on_alternates_def by (auto split: bind_splits if_splits)
  then show ?thesis
    using assms(2) promote_first_kept [OF _ assms(2,3)] by cases (auto simp: kept_refl)
qed

lemma check_fuota_status_kept:
  assumes "check_fuota_status h mac c = Some (r, c')" and "\<not> comm_init_status c"
  shows "kept [] c c'"
proof -
  let ?c = "c\<lparr>currentState := FUOTA_STATUS\<rparr>"
  let ?on_alt = "\<lambda>alt_path c. do {
         (ret, c) \<leftarrow> transmit_command_on_path_pmesh h MESH_COMMISSION_PACKET fuota_status alt_path 3 c;
         Some (if ret \<noteq> FAILURE then Some ret else None, c)
       }"
  from assms(1) obtain p ret c1 where
    t: "transmit_command_on_path_pmesh h MESH_COMMISSION_PACKET fuota_status p 3 ?c = Some (ret, c1)"
    and e: "c' = c1 \<or> (\<exists>r c2. on_alternates ?on_alt mac c1 = Some (r, c2) \<and> (c' = c2 \<or> c' = c2\<lparr>currentState := IDLE\<rparr>))"
    unfolding check_fuota_status_def Let_def by (auto split: bind_splits if_splits option.splits)
  with transmit_path_steady [OF t] assms(2) have 1: "kept [] c c1" by (auto dest: steady_kept)
  have "kept [] c1 c2" if "on_alternates ?on_alt mac c1 = Some (r, c2)" for r c2
    by (rule on_alternates_kept [OF that kept_init(1) [OF 1]]) (auto split: bind_splits intro: transmit_path_steady)
  with e 1 show ?thesis by (auto intro: kept_trans_Nil)
qed

lemma flash_reset_steady:
  assumes "perform_flash_and_reset h p c = Some (r, c')" and "\<not> comm_init_status c"
  shows "steady c c'"
proof -
  have 1: "steady c c'" if "flash_save h p c = Some (r, c')" "\<not> comm_init_status c" for r c c'
    using that transmit_path_steady [of h MESH_COMMISSION_PACKET flash_write p 3 "c\<lparr>currentState := FLASH_SAVE\<rparr>"]
    unfolding flash_save_def by (auto split: bind_splits)
  have 2: "steady c c'" if "soft_reset h p c = Some (r, c')" "\<not> comm_init_status c" for r c c'
    using that transmit_path_steady [of h MESH_COMMISSION_PACKET soft_exit p 3 "c\<lparr>currentState := SOFT_RESET\<rparr>"]
    unfolding soft_reset_def by (auto split: bind_splits)
  from assms(1) obtain r1 c1 where f: "flash_save h p c = Some (r1, c1)"
    "c' = c1 \<or> (\<exists>r2. soft_reset h p c1 = Some (r2, c'))"
    unfolding perform_flash_and_reset_def by (auto split: bind_splits if_splits)
  note s = 1 [OF f(1) assms(2)]
  from f(2) show ?thesis using s 2 [OF _ steady_init(1) [OF s]] by (auto intro: steady_trans)
qed

lemma fuota_disable_kept:
  assumes "fuota_disable_for_a_node h mac c = Some (r, c')" and "\<not> comm_init_status c"
  shows "kept [] c c'"
proof -
  let ?c = "c\<lparr>currentState := FUOTA_DISABLE\<rparr>"
  let ?on_alt = "\<lambda>alt_path c. do {
         (ret, c) \<leftarrow> transmit_command_on_path_pmesh h MESH_COMMISSION_PACKET fuota_disable alt_path 3 c;
         if ret \<noteq> FAILURE then do {
           (rc, c) \<leftarrow> perform_flash_and_reset h alt_path c;
           Some (if rc = SUCCESS then Some ret else None, c)
         }
         else Some (None, c)
       }"
  from assms(1) obtain p ret c1 ok c2 where
    t: "transmit_command_on_path_pmesh h MESH_COMMISSION_PACKET fuota_disable p 3 ?c = Some (ret, c1)"
    and d: "(if ret = SUCCESS then do {
         node \<leftarrow> node_of c1 mac;
         (rc, c) \<leftarrow> perform_flash_and_reset h (primary_path node) c1;
         Some (rc = SUCCESS, c)
       } else Some (False, c1)) = Some (ok, c2)"
    and e: "c' = c2 \<or> (\<exists>r. on_alternates ?on_alt mac c2 = Some (r, c'))"
    unfolding fuota_disable_for_a_node_def Let_def by (auto split: bind_splits if_splits option.splits)
  from transmit_path_steady [OF t] assms(2) have 1: "steady c c1" by simp
  from d have "c2 = c1 \<or> (\<exists>q rc. perform_flash_and_reset h q c1 = Some (rc, c2))" by (auto split: bind_splits if_splits)
  with flash_reset_steady [OF _ steady_init(1) [OF 1]] have "c2 = c1 \<or> steady c1 c2" by blast
  with 1 have 2: "steady c c2" by (auto intro: steady_trans)
  have on_path: "steady c c'" if "?on_alt q c = Some (r, c')" "\<not> comm_init_status c" for q c r c'
  proof -
    from that(1) obtain ret c1 where t: "transmit_command_on_path_pmesh h MESH_COMMISSION_PACKET fuota_disable q 3 c = Some (ret, c1)"
      and f: "c' = c1 \<or> (\<exists>rc. perform_flash_and_reset h q c1 = Some (rc, c'))"
      by (auto split: bind_splits if_splits)
    note s = transmit_path_steady [OF t that(2)]
    from f show ?thesis using s flash_reset_steady [OF _ steady_init(1) [OF s]] by (auto intro: steady_trans)
  qed
  have "kept [] c2 c'" if "on_alternates ?on_alt mac c2 = Some (r, c')" for r
    by (rule on_alternates_kept [OF that steady_init(1) [OF 2] on_path])
  with e 2 show ?thesis by (auto dest: steady_kept intro: kept_trans_Nil)
qed

lemma internal_fv_kept:
  assumes "pull_internal_firmware_version_for_a_node h mac c = Some (r, c')" and "\<not> comm_init_status c"
  shows "kept [] c c'"
proof -
  let ?c = "c\<lparr>currentState := INTERNAL_FV, currentNode := Some mac\<rparr>"
  let ?on_alt = "\<lambda>alt_path c. do {
         (ret, c) \<leftarrow> transmit_command_on_path_pmesh h MESH_COMMISSION_PACKET internal_firmware_version_cmd alt_path 3 c;
         Some (if ret = SUCCESS then Some ret else None, c)
       }"
  from assms(1) obtain c0 p ret c1 where
    m: "modify_node mac (\<lambda>node. node\<lparr>node_data := (node_data node)\<lparr>internal_firmware_version := replicate 256 0\<rparr>\<rparr>) ?c = Some c0"
    and t: "transmit_command_on_path_pmesh h MESH_COMMISSION_PACKET internal_firmware_version_cmd p 3 c0 = Some (ret, c1)"
    and e: "c' = c1\<lparr>currentNode := None\<rparr> \<or> (\<exists>r c2. on_alternates ?on_alt mac c1 = Some (r, c2) \<and>
      (c' = c2\<lparr>currentNode := None\<rparr> \<or> c' = c2\<lparr>currentState := IDLE, currentNode := None\<rparr>))"
    unfolding pull_internal_firmware_version_for_a_node_def Let_def
    by (auto split: bind_splits if_splits option.splits)
  from modify_data_kept [OF m] assms(2) have 0: "kept [] c c0" by simp
  with transmit_path_steady [OF t kept_init(1) [OF 0]] have 1: "kept [] c c1" by (blast dest: steady_kept intro: kept_trans_Nil)
  have "kept [] c1 c2" if "on_alternates ?on_alt mac c1 = Some (r, c2)" for r c2
    by (rule on_alternates_kept [OF that kept_init(1) [OF 1]]) (auto split: bind_splits intro: transmit_path_steady)
  with e 1 show ?thesis by (auto intro: kept_trans_Nil)
qed

lemma pull_profile_kept:
  assumes "pull_profile_for_a_node h state clear_profile f mac c = Some (r, c')" and "\<not> comm_init_status c"
  shows "kept [] c c'"
proof -
  from assms(1) obtain c1 c2 where
    m: "modify_node mac (\<lambda>node. node\<lparr>node_data := clear_profile (node_data node)\<rparr>) (c\<lparr>currentState := state, currentNode := Some mac\<rparr>) = Some c1"
    and t: "try_paths_for_profile_pull h mac f 0 c1 = Some (r, c2)" and c': "c' = c2\<lparr>currentNode := None\<rparr>"
    unfolding pull_profile_for_a_node_def Let_def by (auto split: bind_splits)
  from modify_data_kept [OF m] assms(2) have 1: "kept [] c c1" by simp
  from kept_trans_Nil [OF 1 try_paths_kept [OF t kept_init(1) [OF 1]]] show ?thesis by (simp add: c')
qed

lemma pull_cycle_kept:
  assumes "pull_instantaneous_profile_for_cycle h mac cycle c = Some (r, c')" and "\<not> comm_init_status c"
  shows "kept [] c c'"
proof -
  from assms(1) obtain c2 where
    "try_paths_for_profile_pull h mac (\<lambda>c i. Some (frame_dlms_ip_command_packet (current_ip_cycle c) i)) 0
       (c\<lparr>currentState := INSTANTANEOUS_PROFILE, currentNode := Some mac, current_ip_cycle := cycle\<rparr>) = Some (r, c2)"
    and c': "c' = c2\<lparr>current_ip_cycle := - 1, currentNode := None\<rparr>"
    unfolding pull_instantaneous_profile_for_cycle_def Let_def by (auto split: bind_splits)
  from try_paths_kept [OF this(1)] assms(2) show ?thesis by (simp add: c')
qed

section \<open>All nodes\<close>

text \<open>The instantaneous cycles also shorten the list of missing cycles of a node; what is kept beside it:\<close>

definition kept_routes :: "client \<Rightarrow> client \<Rightarrow> bool" where
  "kept_routes c c' \<longleftrightarrow> targetState c' = targetState c \<and> gateway_id c' = gateway_id c \<and> gateway c' = gateway c
     \<and> map (\<lambda>(m, n). (m, node_mac_address n, paths_of n)) (nodes_info c') = map (\<lambda>(m, n). (m, node_mac_address n, paths_of n)) (nodes_info c)
     \<and> \<not> comm_init_status c \<and> \<not> comm_init_status c'"

lemma kept_kept_routes: "kept ops c c' \<Longrightarrow> kept_routes c c'"
proof -
  let ?g = "\<lambda>(m, a, mi, ps). (m, a, ps)"
  have "map (\<lambda>(m, n). (m, node_mac_address n, paths_of n)) (nodes_info c) = map ?g (route_sets c)" for c
    by (auto simp: route_sets_def)
  then show "kept ops c c' \<Longrightarrow> kept_routes c c'" by (simp add: kept_def kept_routes_def)
qed

lemma kept_routes_refl: "\<not> comm_init_status c \<Longrightarrow> kept_routes c c"
  by (simp add: kept_routes_def)

lemma kept_routes_trans: "kept_routes a b \<Longrightarrow> kept_routes b c \<Longrightarrow> kept_routes a c"
  by (simp add: kept_routes_def)

lemma modify_cycles_kept_routes:
  assumes "modify_node mac (set_missing_cycles cs) c = Some c'" and "\<not> comm_init_status c"
  shows "kept_routes c c' \<and> pulled_log c' = pulled_log c"
proof -
  from assms(1) obtain n where n: "node_of c mac = Some n" "c' = set_node mac (set_missing_cycles cs n) c"
    by (auto simp: modify_node_def)
  have "map (\<lambda>(m, n). (m, node_mac_address n, paths_of n)) (nodes_info c')
      = map (\<lambda>(m, n). (m, node_mac_address n, paths_of n)) (nodes_info c)"
    unfolding n(2) set_node_def using n(1) by (simp add: node_of_def map_update_same set_missing_cycles_def paths_of_def)
  with n(2) assms(2) show ?thesis by (simp add: kept_routes_def) (simp add: set_node_def pulled_log_def)
qed

lemma pull_cycles_routes:
  "pull_cycles h mac cs c = Some (r, c') \<Longrightarrow> \<not> comm_init_status c \<Longrightarrow> kept_routes c c'"
proof (induction cs arbitrary: c)
  case Nil
  then show ?case by (simp add: kept_routes_refl)
next
  case (Cons cycle cs)
  from Cons.prems(1) obtain r1 c1 where p: "pull_instantaneous_profile_for_cycle h mac cycle c = Some (r1, c1)"
    by (auto split: bind_splits)
  note k = pull_cycle_kept [OF p Cons.prems(2)]
  note ci = kept_init(1) [OF k]
  from Cons.prems(1) p have "c' = c1 \<or> (\<exists>(x :: node_info) c2.
      modify_node mac (set_missing_cycles cs) (db_insert (InsertInstantaneous (node_mac_address x) (gateway_id c1)
         (calculate_cycle_id (clock c1) cycle) (instantaneous_profile (node_data x)) False) c1) = Some c2
      \<and> pull_cycles h mac cs c2 = Some (r, c'))"
    by (auto simp: Let_def split: bind_splits if_splits)
  then consider "c' = c1" | x :: node_info and c2 where
      "modify_node mac (set_missing_cycles cs) (db_insert (InsertInstantaneous (node_mac_address x) (gateway_id c1)
         (calculate_cycle_id (clock c1) cycle) (instantaneous_profile (node_data x)) False) c1) = Some c2"
      "pull_cycles h mac cs c2 = Some (r, c')" by blast
  then show ?case
  proof cases
    case (2 x c2)
    note i = db_insert_kept [OF _ ci, of "InsertInstantaneous (node_mac_address (x :: node_info)) (gateway_id c1)
         (calculate_cycle_id (clock c1) cycle) (instantaneous_profile (node_data x)) False", simplified]
    note m = conjunct1 [OF modify_cycles_kept_routes [OF 2(1) kept_init(1) [OF i]]]
    then have "\<not> comm_init_status c2" by (simp add: kept_routes_def)
    from Cons.IH [OF 2(2) this] m kept_kept_routes [OF i] kept_kept_routes [OF k] show ?thesis
      by (blast intro: kept_routes_trans)
  qed (use k kept_kept_routes in blast)
qed

lemma for_all_nodes_routes:
  assumes "for_all_nodes f macs c = Some (r, c')" and "\<not> comm_init_status c"
    and step: "\<And>mac c c'. f mac c = Some c' \<Longrightarrow> \<not> comm_init_status c \<Longrightarrow> kept_routes c c'"
  shows "kept_routes c c'"
  using assms(1,2)
proof (induction macs arbitrary: c)
  case Nil
  then show ?case by (simp add: kept_routes_refl)
next
  case (Cons mac macs)
  from Cons.prems(1) obtain c1 where 1: "f mac c = Some c1" by (auto split: bind_splits)
  note k = step [OF 1 Cons.prems(2)]
  have odm: "kept_routes c (snd (read_ODM_Flag c1))" "\<not> comm_init_status (snd (read_ODM_Flag c1))"
    using k by (auto simp: read_ODM_Flag_def kept_routes_def split: list.splits)
  from Cons.prems(1) 1 have "c' = c1 \<or> c' = snd (read_ODM_Flag c1) \<or> for_all_nodes f macs (snd (read_ODM_Flag c1)) = Some (r, c')"
    by (auto simp: Let_def split: if_splits prod.splits)
  with k odm Cons.IH [OF _ odm(2)] show ?case by (blast intro: kept_routes_trans)
qed

lemma profile_node_kept:
  assumes "profile_node available pull op clear_profile mac c = Some c'" and "\<not> comm_init_status c"
    and pull: "\<And>mac c r c'. pull mac c = Some (r, c') \<Longrightarrow> \<not> comm_init_status c \<Longrightarrow> kept [] c c'"
    and pulled: "\<And>c mac d. pulled (op c mac d)"
  shows "\<exists>ops. kept ops c c' \<and> (ops = [] \<or> (\<exists>node c1 d. node_of c mac = Some node \<and> \<not> available (missing_info node)
    \<and> gateway_id c1 = gateway_id c \<and> ops = [op c1 mac d]))"
proof -
  from assms(1) obtain node where n: "node_of c mac = Some node" unfolding profile_node_def by (auto split: bind_splits)
  show ?thesis
  proof (cases "available (missing_info node)")
    case True
    with assms(1,2) n show ?thesis by (auto simp: profile_node_def intro: kept_refl)
  next
    case False
    with assms(1) n obtain ret c1 where p: "pull mac c = Some (ret, c1)" unfolding profile_node_def by (auto split: bind_splits)
    note k = pull [OF p assms(2)]
    note ci = kept_init(1) [OF k]
    have gw: "gateway_id c1 = gateway_id c" using k by (simp add: kept_def)
    from assms(1) n p False have "c' = c1 \<or> (\<exists>node :: node_info.
        modify_node mac (\<lambda>node. node\<lparr>node_data := clear_profile (node_data node)\<rparr>) (db_insert (op c1 mac (node_data node)) c1) = Some c')"
      by (cases "node_of c1 mac") (auto simp: profile_node_def Let_def split: if_splits)
    then consider "c' = c1" | d where
        "modify_node mac (\<lambda>node. node\<lparr>node_data := clear_profile (node_data node)\<rparr>) (db_insert (op c1 mac d) c1) = Some c'"
      by blast
    then show ?thesis
    proof cases
      case (2 d)
      note i = db_insert_kept [OF pulled ci, of c1 mac d]
      from kept_trans [OF kept_trans_Nil [OF k i] modify_data_kept [OF 2 kept_init(1) [OF i]]]
      have "kept [op c1 mac d] c c'" by simp
      with n False gw show ?thesis by blast
    qed (use k in blast)
  qed
qed

lemma map_of_route_sets:
  "map_of (route_sets c) mac = map_option (\<lambda>n. (node_mac_address n, missing_info n, paths_of n)) (node_of c mac)"
proof -
  have "map_of (map (\<lambda>(m, n). (m, f n)) ns) mac = map_option f (map_of ns mac)" for f :: "node_info \<Rightarrow> 'a" and ns
    by (induction ns) auto
  then show ?thesis by (simp add: route_sets_def node_of_def)
qed

lemma kept_missing_info:
  assumes "kept ops c c'"
  shows "map_option missing_info (node_of c' mac) = map_option missing_info (node_of c mac)"
proof -
  have "route_sets c' = route_sets c" using assms by (simp add: kept_def)
  with map_of_route_sets [of c mac] map_of_route_sets [of c' mac] show ?thesis
    by (cases "node_of c mac"; cases "node_of c' mac") auto
qed

text \<open>The nodes of a list that miss a profile, at the start of the loop.\<close>

definition missing_macs :: "(missing_cycle_info \<Rightarrow> bool) \<Rightarrow> client \<Rightarrow> mac list \<Rightarrow> mac list" where
  "missing_macs available c macs =
     filter (\<lambda>m. case node_of c m of Some n \<Rightarrow> \<not> available (missing_info n) | None \<Rightarrow> False) macs"

lemma for_all_nodes_profiles:
  assumes "for_all_nodes (profile_node available pull op clear_profile) macs c = Some (r, c')" and "\<not> comm_init_status c"
    and pull: "\<And>mac c r c'. pull mac c = Some (r, c') \<Longrightarrow> \<not> comm_init_status c \<Longrightarrow> kept [] c c'"
    and pulled: "\<And>c mac d. pulled (op c mac d)"
  shows "\<exists>ops ms. kept ops c c' \<and> subseq ms (missing_macs available c macs)
    \<and> list_all2 (\<lambda>x m. \<exists>c1 d. gateway_id c1 = gateway_id c \<and> x = op c1 m d) ops ms"
  using assms(1,2)
proof (induction macs arbitrary: c)
  case Nil
  then have "kept [] c c'" by (simp add: kept_refl)
  then show ?case by (intro exI [of _ "[]"]) (simp add: missing_macs_def)
next
  case (Cons mac macs)
  let ?f = "profile_node available pull op clear_profile"
  from Cons.prems(1) obtain c1 where 1: "?f mac c = Some c1" by (auto split: bind_splits)
  have "\<exists>ops. kept ops c c1 \<and> (ops = [] \<or> (\<exists>node c1 d. node_of c mac = Some node \<and> \<not> available (missing_info node)
    \<and> gateway_id c1 = gateway_id c \<and> ops = [op c1 mac d]))"
    by (rule profile_node_kept [OF 1 Cons.prems(2)]) (fact pull pulled)+
  then obtain ops1 where k: "kept ops1 c c1"
    and o: "ops1 = [] \<or> (\<exists>node c2 d. node_of c mac = Some node \<and> \<not> available (missing_info node)
      \<and> gateway_id c2 = gateway_id c \<and> ops1 = [op c2 mac d])" by blast
  define ms1 where "ms1 = (if ops1 = [] then [] else [mac])"
  from o have l1: "list_all2 (\<lambda>x m. \<exists>c1 d. gateway_id c1 = gateway_id c \<and> x = op c1 m d) ops1 ms1"
    by (auto simp: ms1_def)
  from o have s1: "subseq (ms1 @ ms) (missing_macs available c (mac # macs))" if "subseq ms (missing_macs available c macs)" for ms
    using that by (auto simp: ms1_def missing_macs_def)
  define c2 where "c2 = snd (read_ODM_Flag c1)"
  have k2: "kept ops1 c c2" using k by (auto simp: c2_def read_ODM_Flag_def split: list.splits)
  from Cons.prems(1) 1 have "c' = c1 \<or> c' = c2 \<or> for_all_nodes ?f macs c2 = Some (r, c')"
    by (auto simp: Let_def c2_def split: if_splits prod.splits)
  moreover have ?case if "kept ops1 c c'"
    using that l1 s1 [of "[]"] by auto
  moreover have ?case if "for_all_nodes ?f macs c2 = Some (r, c')"
  proof -
    from Cons.IH [OF that kept_init(1) [OF k2]] obtain ops ms where
      r: "kept ops c2 c'" "subseq ms (missing_macs available c2 macs)"
      "list_all2 (\<lambda>x m. \<exists>c1 d. gateway_id c1 = gateway_id c2 \<and> x = op c1 m d) ops ms" by blast
    have gw: "gateway_id c2 = gateway_id c" using k2 by (simp add: kept_def)
    have "missing_macs available c2 macs = missing_macs available c macs"
      unfolding missing_macs_def
    proof (rule filter_cong [OF refl])
      fix m
      have "map_option missing_info (node_of c2 m) = map_option missing_info (node_of c m)"
        using k2 by (auto simp: kept_missing_info)
      then show "(case node_of c2 m of Some n \<Rightarrow> \<not> available (missing_info n) | None \<Rightarrow> False)
        = (case node_of c m of Some n \<Rightarrow> \<not> available (missing_info n) | None \<Rightarrow> False)"
        by (cases "node_of c2 m"; cases "node_of c m") auto
    qed
    with r have "subseq (ms1 @ ms) (missing_macs available c (mac # macs))" using s1 [of ms] by simp
    with kept_trans [OF k2 r(1)] list_all2_appendI [OF l1 r(3) [unfolded gw]] show ?thesis by auto
  qed
  ultimately show ?case using k k2 by blast
qed

section \<open>What a cycle inserts\<close>

text \<open>\<open>stores available c macs R c'\<close>: the insertions of a run from \<open>c\<close> to \<open>c'\<close> are for some of the nodes of \<open>macs\<close>
  that miss a profile in \<open>c\<close>, in their order, each of the form \<open>R\<close>.\<close>

definition stores :: "(missing_cycle_info \<Rightarrow> bool) \<Rightarrow> client \<Rightarrow> mac list \<Rightarrow> (mac \<Rightarrow> db_op \<Rightarrow> bool) \<Rightarrow> client \<Rightarrow> bool" where
  "stores available c macs R c' \<longleftrightarrow> (\<exists>ms ops. pulled_log c' = pulled_log c @ ops
     \<and> subseq ms (missing_macs available c macs) \<and> list_all2 R ms ops)"

lemma stores_loop:
  assumes "for_all_nodes (profile_node available (pull_profile_for_a_node h s clr f) op clear_profile) macs c = Some (r, c')"
    and "\<not> comm_init_status c" and "\<And>c mac d. pulled (op c mac d)"
    and "\<And>c1 m d. gateway_id c1 = gateway_id c \<Longrightarrow> R m (op c1 m d)"
  shows "stores available c macs R c'"
proof -
  have "\<exists>ops ms. kept ops c c' \<and> subseq ms (missing_macs available c macs)
    \<and> list_all2 (\<lambda>x m. \<exists>c1 d. gateway_id c1 = gateway_id c \<and> x = op c1 m d) ops ms"
    by (rule for_all_nodes_profiles [OF assms(1,2)]) (fact pull_profile_kept assms(3))+
  then obtain ops ms where
    k: "kept ops c c'" "subseq ms (missing_macs available c macs)"
    and l: "list_all2 (\<lambda>x m. \<exists>c1 d. gateway_id c1 = gateway_id c \<and> x = op c1 m d) ops ms" by blast
  have "list_all2 R ms ops"
    unfolding list_all2_conv_all_nth using l assms(4) by (auto simp: list_all2_conv_all_nth)
  with k show ?thesis by (auto simp: stores_def kept_def)
qed

text \<open>C11: the four loops over the profiles insert pulled profiles only for nodes that miss them, under the
  address of the node and the gateway, each node at most once and in the order of the list.\<close>

theorem missing_profiles_stored:
  assumes "\<not> comm_init_status c"
  shows "(pull_missing_nameplate_for_all_nodes h c = Some (r, c') \<longrightarrow>
      stores is_name_plate_available c (node_macs c) (\<lambda>m op. \<exists>b. op = InsertNamePlate m (gateway_id c) b) c')
    \<and> (pull_missing_daily_load_for_all_nodes h c = Some (r, c') \<longrightarrow>
      stores is_dlp_available c (node_macs c) (\<lambda>m op. \<exists>b. op = InsertDailyLoad m (gateway_id c) b False) c')
    \<and> (pull_missing_block_load_for_all_nodes h c = Some (r, c') \<longrightarrow>
      stores is_blp_available c (node_macs c) (\<lambda>m op. \<exists>e b. op = InsertBlockLoad m (gateway_id c)
        (calculate_cycle_id_for_block_load e) b False) c')
    \<and> (pull_missing_billing_history_for_all_nodes h c = Some (r, c') \<longrightarrow>
      stores is_bhp_available c (node_macs c) (\<lambda>m op. \<exists>b. op = InsertBillingHistory m (gateway_id c) b False) c')"
  unfolding pull_missing_nameplate_for_all_nodes_def pull_missing_daily_load_for_all_nodes_def
    pull_missing_block_load_for_all_nodes_def pull_missing_billing_history_for_all_nodes_def
    pull_nameplate_for_a_node_def pull_daily_load_profile_for_a_node_def
    pull_block_load_profile_for_a_node_def pull_billing_history_profile_for_a_node_def
  by (intro conjI impI; erule stores_loop [OF _ assms]; auto)

section \<open>The cycles of a node\<close>

definition cycles_of :: "client \<Rightarrow> mac \<Rightarrow> int list" where
  "cycles_of c mac = (case node_of c mac of Some n \<Rightarrow> missing_ip_cycles (missing_info n) | None \<Rightarrow> [])"

text \<open>An insertion of one of the cycles of the node \<open>mac\<close>.\<close>

definition stores_cycle :: "mac \<Rightarrow> cstr \<Rightarrow> int \<Rightarrow> db_op \<Rightarrow> bool" where
  "stores_cycle mac gw cycle op \<longleftrightarrow> (\<exists>e b. op = InsertInstantaneous mac gw (calculate_cycle_id e cycle) b False)"

lemma kept_node_mac:
  assumes "kept ops c c'"
  shows "map_option node_mac_address (node_of c' mac) = map_option node_mac_address (node_of c mac)"
proof -
  have "route_sets c' = route_sets c" using assms by (simp add: kept_def)
  with map_of_route_sets [of c mac] map_of_route_sets [of c' mac] show ?thesis
    by (cases "node_of c mac"; cases "node_of c' mac") auto
qed

lemma pull_cycles_stores:
  assumes "pull_cycles h mac cs c = Some (r, c')" and "\<not> comm_init_status c" and "node_of c mac = Some node"
    and "cycles_of c mac = cs"
  shows "\<exists>k ops. k \<le> length cs \<and> pulled_log c' = pulled_log c @ ops
    \<and> list_all2 (stores_cycle (node_mac_address node) (gateway_id c)) (take k cs) ops
    \<and> cycles_of c' mac = drop k cs \<and> r = (if k = length cs then SUCCESS else FAILURE)"
  using assms
proof (induction cs arbitrary: c node)
  case Nil
  then show ?case by simp
next
  case (Cons cycle cs)
  from Cons.prems(1) obtain r1 c1 where p: "pull_instantaneous_profile_for_cycle h mac cycle c = Some (r1, c1)"
    by (auto split: bind_splits)
  note k = pull_cycle_kept [OF p Cons.prems(2)]
  note ci = kept_init(1) [OF k]
  show ?case
  proof (cases "r1 = SUCCESS")
    case False
    with Cons.prems(1) p have "c' = c1" "r = FAILURE" by (auto split: bind_splits if_splits)
    moreover have "cycles_of c1 mac = cycle # cs"
      using kept_missing_info [OF k, of mac] Cons.prems(3,4) by (auto simp: cycles_of_def)
    ultimately show ?thesis using k by (intro exI [of _ 0]) (simp add: kept_def)
  next
    case True
    with Cons.prems(1) p obtain x c2 where
      x: "node_of c1 mac = Some x" and m: "modify_node mac (set_missing_cycles cs) (db_insert (InsertInstantaneous (node_mac_address x)
        (gateway_id c1) (calculate_cycle_id (clock c1) cycle) (instantaneous_profile (node_data x)) False) c1) = Some c2"
      and rec: "pull_cycles h mac cs c2 = Some (r, c')"
      by (auto simp: Let_def split: bind_splits)
    let ?op = "InsertInstantaneous (node_mac_address x) (gateway_id c1) (calculate_cycle_id (clock c1) cycle)
      (instantaneous_profile (node_data x)) False"
    have mac: "node_mac_address x = node_mac_address node" and gw: "gateway_id c1 = gateway_id c"
      using kept_node_mac [OF k, of mac] x Cons.prems(3) k by (simp_all add: kept_def)
    note i = db_insert_kept [OF _ ci, of ?op, simplified]
    note mk = modify_cycles_kept_routes [OF m kept_init(1) [OF i]]
    have nd: "node_of c2 mac = Some (set_missing_cycles cs x)"
      using m x by (auto simp: modify_node_def node_of_def set_node_def db_insert_def update_conv')
    then have "cycles_of c2 mac = cs" by (simp add: cycles_of_def set_missing_cycles_def)
    moreover have ci2: "\<not> comm_init_status c2" and gw2: "gateway_id c2 = gateway_id c"
      and log: "pulled_log c2 = pulled_log c @ [?op]"
      using mk i k gw by (simp_all add: kept_routes_def kept_def)
    ultimately obtain j ops where "j \<le> length cs" "pulled_log c' = pulled_log c2 @ ops"
      "list_all2 (stores_cycle (node_mac_address node) (gateway_id c)) (take j cs) ops"
      "cycles_of c' mac = drop j cs" "r = (if j = length cs then SUCCESS else FAILURE)"
      using Cons.IH [OF rec ci2 nd] mac gw2 by (auto simp: set_missing_cycles_def)
    moreover have "stores_cycle (node_mac_address node) (gateway_id c) cycle ?op"
      using mac gw by (auto simp: stores_cycle_def)
    ultimately show ?thesis using log by (intro exI [of _ "Suc j"] exI [of _ "?op # ops"]) simp
  qed
qed


section \<open>No route is lost\<close>

lemma unsilence_node_routes:
  assumes "unsilence_node h mac c = Some c'" and "\<not> comm_init_status c"
  shows "kept_routes c c'"
proof -
  have ins: "kept_routes c (db_insert (DeleteUnsilenced mac g) c)" if "\<not> comm_init_status c" for c :: client and g
    using kept_kept_routes [OF db_insert_kept [of "DeleteUnsilenced mac g" c]] that by simp
  from assms(1) obtain node where n: "node_of c mac = Some node" unfolding unsilence_node_def by (auto split: bind_splits)
  show ?thesis
  proof (cases "is_silenced (missing_info node)")
    case False
    with assms n show ?thesis by (simp add: unsilence_node_def kept_routes_refl)
  next
    case True
    from assms(1) n True obtain s c1 where s: "check_fuota_status h mac c = Some (s, c1)"
      unfolding unsilence_node_def by (auto split: bind_splits)
    have rest: "c' = c1 \<or> (\<exists>g. c' = db_insert (DeleteUnsilenced mac g) c1)
        \<or> (\<exists>r c2. fuota_disable_for_a_node h mac c1 = Some (r, c2) \<and> (c' = c2 \<or> (\<exists>g. c' = db_insert (DeleteUnsilenced mac g) c2)))"
      using assms(1) n True s unfolding unsilence_node_def by (auto split: bind_splits if_splits)
    note 1 = check_fuota_status_kept [OF s assms(2)]
    note k1 = kept_kept_routes [OF 1] and i1 = kept_init(1) [OF 1]
    have 2: "kept_routes c c2 \<and> \<not> comm_init_status c2" if "fuota_disable_for_a_node h mac c1 = Some (r, c2)" for r c2
      using fuota_disable_kept [OF that i1] k1 by (blast dest: kept_init(1) kept_kept_routes intro: kept_routes_trans)
    from rest show ?thesis using k1 ins [OF i1] 2 ins by (blast intro: kept_routes_trans)
  qed
qed

lemma firmware_version_node_routes:
  assumes "firmware_version_node h mac c = Some c'" and "\<not> comm_init_status c"
  shows "kept_routes c c'"
proof -
  from assms(1) have "c' = c \<or> (\<exists>r c1. pull_internal_firmware_version_for_a_node h mac c = Some (r, c1)
      \<and> (c' = c1 \<or> (\<exists>g v. c' = db_insert (UpdateInternalFirmwareVersion mac g v) c1)))"
    unfolding firmware_version_node_def by (auto split: bind_splits if_splits; metis)
  then consider "c' = c" | r c1 where "pull_internal_firmware_version_for_a_node h mac c = Some (r, c1)"
      "c' = c1 \<or> (\<exists>g v. c' = db_insert (UpdateInternalFirmwareVersion mac g v) c1)" by blast
  then show ?thesis
  proof cases
    case (2 r c1)
    note k = internal_fv_kept [OF 2(1) assms(2)]
    have "kept_routes c1 (db_insert (UpdateInternalFirmwareVersion mac g v) c1)" for g v
      using kept_kept_routes [OF db_insert_kept [of "UpdateInternalFirmwareVersion mac g v" c1]] kept_init(1) [OF k] by simp
    with 2(2) kept_kept_routes [OF k] show ?thesis by (blast intro: kept_routes_trans)
  qed (use assms(2) kept_routes_refl in auto)
qed

lemma profile_node_routes:
  assumes "profile_node available (pull_profile_for_a_node h s clr f) op clear_profile mac c = Some c'" and "\<not> comm_init_status c"
    and "\<And>c mac d. pulled (op c mac d)"
  shows "kept_routes c c'"
proof -
  have "\<exists>ops. kept ops c c' \<and> (ops = [] \<or> (\<exists>node c1 d. node_of c mac = Some node \<and> \<not> available (missing_info node)
    \<and> gateway_id c1 = gateway_id c \<and> ops = [op c1 mac d]))"
    by (rule profile_node_kept [OF assms(1,2)]) (fact pull_profile_kept assms(3))+
  then show ?thesis by (blast intro: kept_kept_routes)
qed

lemma instantaneous_node_routes:
  assumes "instantaneous_node h mac c = Some c'" and "\<not> comm_init_status c"
  shows "kept_routes c c'"
proof -
  from assms(1) consider "c' = c" | r c1 where "pull_missing_instantaneous_for_a_node h mac c = Some (r, c1)"
      "c' = c1 \<or> modify_node mac (\<lambda>node. node\<lparr>node_data := clear_instantaneous (node_data node)\<rparr>) c1 = Some c'"
    unfolding instantaneous_node_def by (auto split: bind_splits if_splits)
  then show ?thesis
  proof cases
    case (2 r c1)
    have 1: "kept_routes c c1"
    proof -
      from 2(1) consider "c1 = c" | cs c2 where "modify_node mac (set_missing_cycles cs) c = Some c2" "pull_cycles h mac cs c2 = Some (r, c1)"
        unfolding pull_missing_instantaneous_for_a_node_def by (auto simp: Let_def split: bind_splits if_splits)
      then show ?thesis
      proof cases
        case (2 cs c2)
        note m = conjunct1 [OF modify_cycles_kept_routes [OF 2(1) assms(2)]]
        then have "\<not> comm_init_status c2" by (simp add: kept_routes_def)
        from m pull_cycles_routes [OF 2(2) this] show ?thesis by (rule kept_routes_trans)
      qed (use assms(2) kept_routes_refl in auto)
    qed
    then have i: "\<not> comm_init_status c1" by (simp add: kept_routes_def)
    from 2(2) 1 kept_kept_routes [OF modify_data_kept [OF _ i]] show ?thesis by (blast intro: kept_routes_trans)
  qed (use assms(2) kept_routes_refl in auto)
qed

lemmas all_nodes_defs = unsilence_all_nodes_def pull_missing_internal_firmware_version_for_all_nodes_def
  pull_missing_ip_profile_for_all_nodes_def pull_missing_nameplate_for_all_nodes_def pull_missing_daily_load_for_all_nodes_def
  pull_missing_block_load_for_all_nodes_def pull_missing_billing_history_for_all_nodes_def pull_nameplate_for_a_node_def
  pull_daily_load_profile_for_a_node_def pull_block_load_profile_for_a_node_def pull_billing_history_profile_for_a_node_def

lemmas node_routes = unsilence_node_routes firmware_version_node_routes instantaneous_node_routes profile_node_routes

text \<open>C9: whatever the network answers and whichever paths are tried, promoted or reconnected, a loop over
  all nodes loses and invents no route: every node keeps its address and its set of paths, and the
  gateway and the target state stay what they were.\<close>

theorem routes_never_lost:
  assumes "f \<in> {unsilence_all_nodes, pull_missing_internal_firmware_version_for_all_nodes, pull_missing_nameplate_for_all_nodes,
      pull_missing_ip_profile_for_all_nodes, pull_missing_daily_load_for_all_nodes, pull_missing_block_load_for_all_nodes,
      pull_missing_billing_history_for_all_nodes}"
    and "f h c = Some (r, c')" and "\<not> comm_init_status c"
  shows "map (\<lambda>(m, n). (m, node_mac_address n, paths_of n)) (nodes_info c')
      = map (\<lambda>(m, n). (m, node_mac_address n, paths_of n)) (nodes_info c)
    \<and> gateway c' = gateway c \<and> gateway_id c' = gateway_id c \<and> targetState c' = targetState c"
proof -
  have "f = unsilence_all_nodes \<or> f = pull_missing_internal_firmware_version_for_all_nodes \<or> f = pull_missing_ip_profile_for_all_nodes
      \<or> f = pull_missing_nameplate_for_all_nodes \<or> f = pull_missing_daily_load_for_all_nodes
      \<or> f = pull_missing_block_load_for_all_nodes \<or> f = pull_missing_billing_history_for_all_nodes"
    using assms(1) by blast
  with assms(2) have "kept_routes c c'"
    by (elim disjE) (simp_all only: all_nodes_defs, (erule for_all_nodes_routes [OF _ assms(3)], erule node_routes; simp)+)
  then show ?thesis by (simp add: kept_routes_def)
qed

section \<open>Concrete inputs\<close>

definition example_mac :: mac where
  "example_mac = to_mac_array example_dst"

definition example_routed :: node_info where
  "example_routed = example_node\<lparr>primary_path := example_route\<rparr>"

text \<open>The meter answers for its third missing cycle and then stays silent.\<close>

definition cycles_client :: client where
  "cycles_client = example_client\<lparr>nodes_info := [(example_mac, set_missing_cycles [3, 7] example_routed)],
     inbox := arrivals example_dst example_pages\<rparr>"

lemma cycles_run: "map_option fst (pull_missing_instantaneous_for_a_node example_hooks example_mac cycles_client) = Some FAILURE"
  by code_simp


text \<open>A node without its name plate, and a meter that sends it.\<close>

definition nameplate_client :: client where
  "nameplate_client = example_client\<lparr>nodes_info := [(example_mac, example_routed)],
     inbox := [(example_env, RxData (profile_page PULL_START_BYTE example_dst FI_INSTANT_DATA COMMAND_NAMEPLATE_PROFILE 0 0 [(1, example_value)]))]\<rparr>"

lemma nameplate_run: "map_option fst (pull_missing_nameplate_for_all_nodes example_hooks nameplate_client) = Some SUCCESS"
  by code_simp

theorem missing_profiles_stored_witness:
  "\<exists>c'. pull_missing_nameplate_for_all_nodes example_hooks nameplate_client = Some (SUCCESS, c')
    \<and> stores is_name_plate_available nameplate_client [example_mac]
        (\<lambda>m op. \<exists>b. op = InsertNamePlate m (gateway_id nameplate_client) b) c'"
proof -
  from nameplate_run obtain c' where "pull_missing_nameplate_for_all_nodes example_hooks nameplate_client = Some (SUCCESS, c')"
    by auto
  moreover have "\<not> comm_init_status nameplate_client" "node_macs nameplate_client = [example_mac]"
    by (simp_all add: nameplate_client_def example_client_def node_macs_def)
  ultimately show ?thesis using missing_profiles_stored [of nameplate_client example_hooks SUCCESS c'] by simp
qed

theorem routes_never_lost_witness:
  "\<exists>c'. pull_missing_nameplate_for_all_nodes example_hooks nameplate_client = Some (SUCCESS, c')
    \<and> map (\<lambda>(m, n). (m, node_mac_address n, paths_of n)) (nodes_info c') = [(example_mac, example_mac, {example_route})]"
proof -
  from nameplate_run obtain c' where r: "pull_missing_nameplate_for_all_nodes example_hooks nameplate_client = Some (SUCCESS, c')"
    by auto
  have "\<not> comm_init_status nameplate_client" by (simp add: nameplate_client_def example_client_def)
  from routes_never_lost [of pull_missing_nameplate_for_all_nodes, OF _ r this] r show ?thesis
    by (simp add: nameplate_client_def paths_of_def example_routed_def example_node_def new_node_info_def example_mac_def)
qed

end
