(* ===== verification/Fuota_Crc.thy ===== *)
theory Fuota_Crc
  imports Prelude
begin

text \<open>
  The checksum of a firmware image (\<open>HES/src/fuota.cpp\<close>): the table of \<open>init_crc16_tab\<close>, the update
  over a chunk, and \<open>calculate_crc_for_target_node\<close> over the whole file, with the value it keeps for a
  retry.  The file is the list of its bytes; a table that was never filled is None.
\<close>

section \<open>The table and the update\<close>

text \<open>The inner loop with \<open>n\<close> of its passes left.\<close>

fun crc_tab_loop :: "nat \<Rightarrow> u16 \<Rightarrow> u16 \<Rightarrow> u16" where
  "crc_tab_loop 0 k c = k"
| "crc_tab_loop (Suc n) k c = crc_tab_loop n
     (if (k XOR c) AND 0x0001 \<noteq> 0 then drop_bit 1 k XOR 0xA001 else drop_bit 1 k) (drop_bit 1 c)"

definition init_crc16_tab :: "u16 list" where
  "init_crc16_tab = map (\<lambda>i. crc_tab_loop 8 0 (word_of_nat i)) [0..<256]"

definition crc16_update :: "u16 list \<Rightarrow> bytes \<Rightarrow> u16 \<Rightarrow> u16" where
  "crc16_update tab data crc = fold (\<lambda>b crc. drop_bit 8 crc XOR tab ! unat ((crc XOR ucast b) AND 0xFF)) data crc"

section \<open>The reference\<close>

text \<open>CRC-16 bit by bit, with the reflected polynomial \<open>0xA001\<close>.\<close>

definition crc_bit :: "u16 \<Rightarrow> u16" where
  "crc_bit x = (if bit x 0 then drop_bit 1 x XOR 0xA001 else drop_bit 1 x)"

definition crc16_reference :: "bytes \<Rightarrow> u16 \<Rightarrow> u16" where
  "crc16_reference data crc = fold (\<lambda>b crc. (crc_bit ^^ 8) (crc XOR ucast b)) data crc"

lemma odd_and_1: "(x AND 1 \<noteq> 0) \<longleftrightarrow> odd x" for x :: u16
  by (simp add: and_one_eq odd_iff_mod_2_eq_one)

lemma crc_bit_odd: "crc_bit x = (if odd x then drop_bit 1 x XOR 0xA001 else drop_bit 1 x)"
  by (simp add: crc_bit_def bit_0)

lemma crc_bit_xor: "crc_bit (x XOR y) = crc_bit x XOR crc_bit y"
proof -
  have "odd (x XOR y) \<longleftrightarrow> odd x \<noteq> odd y" by (simp add: even_xor_iff)
  then show ?thesis by (auto simp: crc_bit_odd drop_bit_xor bit_eq_iff bit_simps)
qed

lemma crc_bits_xor: "(crc_bit ^^ n) (x XOR y) = (crc_bit ^^ n) x XOR (crc_bit ^^ n) y"
  by (induction n) (simp_all add: crc_bit_xor)

lemma crc_bits_even: "(\<And>k. k < n \<Longrightarrow> \<not> bit x k) \<Longrightarrow> (crc_bit ^^ n) x = drop_bit n x"
proof (induction n)
  case (Suc n)
  then have "(crc_bit ^^ Suc n) x = crc_bit (drop_bit n x)" by simp
  also have "\<dots> = drop_bit 1 (drop_bit n x)"
    using Suc.prems [of n] by (simp add: crc_bit_odd bit_iff_odd_drop_bit)
  finally show ?case by simp
qed simp

lemma crc_tab_loop_bits: "crc_tab_loop n k c = (crc_bit ^^ n) (k XOR c) XOR drop_bit n c"
proof (induction n arbitrary: k c)
  case (Suc n)
  have "crc_tab_loop (Suc n) k c = crc_tab_loop n (if odd (k XOR c) then drop_bit 1 k XOR 0xA001 else drop_bit 1 k) (drop_bit 1 c)"
    by (simp add: odd_and_1)
  also have "\<dots> = (crc_bit ^^ n) ((if odd (k XOR c) then drop_bit 1 k XOR 0xA001 else drop_bit 1 k) XOR drop_bit 1 c) XOR drop_bit n (drop_bit 1 c)"
    by (rule Suc.IH)
  also have "(if odd (k XOR c) then drop_bit 1 k XOR 0xA001 else drop_bit 1 k) XOR drop_bit 1 c = crc_bit (k XOR c)"
    by (auto simp: crc_bit_odd drop_bit_xor bit_eq_iff bit_simps)
  finally show ?case by (simp add: funpow_swap1)
qed (simp add: xor.assoc)

text \<open>The entry of the table for a byte, and so the update for a byte.\<close>

lemma crc_table_entry: "i < 256 \<Longrightarrow> init_crc16_tab ! i = (crc_bit ^^ 8) (word_of_nat i)"
proof -
  assume i: "i < 256"
  have "drop_bit 8 (word_of_nat i :: u16) = 0"
    using i by (simp only: word_unat_eq_iff unat_drop_bit_eq) (simp add: unsigned_of_nat take_bit_nat_eq_self drop_bit_eq_div)
  with i show ?thesis by (simp add: init_crc16_tab_def crc_tab_loop_bits)
qed

lemma low_byte: "x AND 0xFF = take_bit 8 x" for x :: u16
  by (simp add: take_bit_eq_mask mask_eq_exp_minus_1)

lemma crc_byte: "drop_bit 8 x XOR init_crc16_tab ! unat (x AND 0xFF) = (crc_bit ^^ 8) x" for x :: u16
proof -
  have lt: "unat (x AND 0xFF) < 256"
    using word_and_le1 [of x "0xFF"] by (simp add: word_le_nat_alt)
  let ?hi = "x XOR take_bit 8 x"
  have "(crc_bit ^^ 8) ?hi = drop_bit 8 ?hi"
    by (rule crc_bits_even) (simp add: bit_simps)
  also have "\<dots> = drop_bit 8 x" by (auto simp: bit_eq_iff bit_simps)
  finally have "(crc_bit ^^ 8) x = drop_bit 8 x XOR (crc_bit ^^ 8) (take_bit 8 x)"
    using crc_bits_xor [of 8 ?hi "take_bit 8 x"] by (simp add: xor.assoc)
  then show ?thesis using crc_table_entry [OF lt] by (simp add: low_byte)
qed

lemma crc16_update_reference: "crc16_update init_crc16_tab data crc = crc16_reference data crc"
proof -
  have "drop_bit 8 (x XOR ucast b) = drop_bit 8 x" for x :: u16 and b :: u8
    by (auto simp: bit_eq_iff bit_simps dest: bit_imp_le_length)
  then have "drop_bit 8 x XOR init_crc16_tab ! unat ((x XOR ucast b) AND 0xFF) = (crc_bit ^^ 8) (x XOR ucast b)" for x :: u16 and b :: u8
    using crc_byte [of "x XOR ucast b"] by simp
  then show ?thesis by (simp add: crc16_update_def crc16_reference_def)
qed

section \<open>The checksum of a file\<close>

text \<open>The part of a \<open>Fuota\<close> object the functions use: \<open>crc\<close>, \<open>CRC\<close>, the value kept for a retry and the
  table, and the firmware it has open (\<open>fouta_read_fd\<close> with its position; None is the null pointer).
  \<open>ensure_crc_table\<close> remembers in a function-local \<open>static\<close>, one for all objects, that it filled the table.\<close>

record fuota_crc =
  crc :: u16
  CRC :: u16
  rf_fuota_crc_calculated :: bool
  rf_fuota_crc_value :: u16
  crc_tab16 :: "u16 list option"
  fouta_read_fd :: "bytes option"
  total_firmwaresize :: u32
  sector_value :: u32

definition ensure_crc_table :: "bool \<Rightarrow> fuota_crc \<Rightarrow> bool \<times> fuota_crc" where
  "ensure_crc_table crc_tab16_init f =
     (if crc_tab16_init then (True, f) else (True, f\<lparr>crc_tab16 := Some init_crc16_tab\<rparr>))"

definition reset_crc :: "fuota_crc \<Rightarrow> fuota_crc" where
  "reset_crc f = f\<lparr>crc := 0x0000\<rparr>"

text \<open>The loop over the chunks; \<open>rest\<close> is what is left of the file.  The result tells whether the end
  was reached.  An array of length 0 is undefined, and so is a table that was never filled.\<close>

function crc_loop :: "nat \<Rightarrow> bytes \<Rightarrow> fuota_crc \<Rightarrow> (bool \<times> fuota_crc) option" where
  "crc_loop remaining rest f =
     (if remaining = 0 then Some (True, f)
      else (let chunk = min remaining (unat (sector_value f));
                read = take chunk rest
        in if read = [] then Some (False, f)
           else do {
             tab \<leftarrow> crc_tab16 f;
             crc_loop (remaining - length read) (drop chunk rest) (f\<lparr>crc := crc16_update tab read (crc f)\<rparr>)
           }))"
  by pat_completeness auto
termination
  by (relation "measure (\<lambda>(remaining, _, _). remaining)") auto

declare crc_loop.simps [simp del]

definition calculate_crc_for_target_node :: "bool \<Rightarrow> fuota_crc \<Rightarrow> (bool \<times> fuota_crc) option" where
  "calculate_crc_for_target_node crc_tab16_init f =
     (let (init, f) = ensure_crc_table crc_tab16_init f
      in if rf_fuota_crc_calculated f then Some (init, f\<lparr>CRC := rf_fuota_crc_value f\<rparr>)
         else case fouta_read_fd f of None \<Rightarrow> Some (init, f)
         | Some file \<Rightarrow>
             (if total_firmwaresize f = 0 then Some (init, f)
              else if sector_value f = 0 then None
              else do {
                (complete, f) \<leftarrow> crc_loop (unat (total_firmwaresize f)) file f;
                Some (init, if complete
                  then f\<lparr>CRC := crc f, rf_fuota_crc_value := crc f, rf_fuota_crc_calculated := True\<rparr> else f)
              }))"

lemma crc_loop_whole:
  assumes "crc_tab16 f = Some init_crc16_tab" and "sector_value f \<noteq> 0"
  shows "crc_loop (length rest) rest f = Some (True, f\<lparr>crc := crc16_reference rest (crc f)\<rparr>)"
  using assms
proof (induction "length rest" arbitrary: rest f rule: less_induct)
  case less
  show ?case
  proof (cases "rest = []")
    case True
    then show ?thesis by (simp add: crc_loop.simps crc16_reference_def)
  next
    case False
    let ?n = "min (length rest) (unat (sector_value f))"
    let ?f = "f\<lparr>crc := crc16_reference (take ?n rest) (crc f)\<rparr>"
    have n: "0 < ?n" "take ?n rest \<noteq> []" using False less.prems(2) by (simp_all add: unat_gt_0)
    have "length rest - length (take ?n rest) = length (drop ?n rest)" by simp
    moreover from this have "crc_loop (length (drop ?n rest)) (drop ?n rest) ?f
        = Some (True, ?f\<lparr>crc := crc16_reference (drop ?n rest) (crc ?f)\<rparr>)"
      using less.hyps [of "drop ?n rest" ?f] n(1) less.prems False by simp
    moreover have "crc16_reference (drop ?n rest) (crc16_reference (take ?n rest) (crc f)) = crc16_reference rest (crc f)"
      unfolding crc16_reference_def by (metis append_take_drop_id fold_append comp_apply)
    ultimately show ?thesis
      using False n less.prems(1) by (subst crc_loop.simps) (simp add: Let_def crc16_update_reference)
  qed
qed

text \<open>C25: the checksum of a firmware file, computed by table and sector by sector, is the bit by bit
  CRC-16 of the whole file, whatever the sector size; and it is kept for a retry.\<close>

theorem firmware_crc_is_reference:
  assumes "fouta_read_fd f = Some file" and "file \<noteq> []" and "length file < 2 ^ 32" and "total_firmwaresize f = word_of_nat (length file)"
    and "sector_value f \<noteq> 0" and "\<not> rf_fuota_crc_calculated f" and "crc f = 0"
    and "crc_tab16_init \<longrightarrow> crc_tab16 f = Some init_crc16_tab"
  shows "\<exists>f'. calculate_crc_for_target_node crc_tab16_init f = Some (True, f') \<and> CRC f' = crc16_reference file 0
    \<and> rf_fuota_crc_calculated f' \<and> rf_fuota_crc_value f' = crc16_reference file 0"
proof -
  let ?f = "f\<lparr>crc_tab16 := Some init_crc16_tab\<rparr>"
  have "unat (word_of_nat (length file) :: u32) = length file"
    using assms(3) by (simp add: unsigned_of_nat take_bit_nat_eq_self)
  then have n: "unat (total_firmwaresize f) = length file" "total_firmwaresize f \<noteq> 0"
    using assms(2,4) by (auto simp: unat_eq_zero)
  have "ensure_crc_table crc_tab16_init f = (True, ?f)"
    using assms(8) by (cases crc_tab16_init) (simp_all add: ensure_crc_table_def)
  with assms n crc_loop_whole [of ?f "file"] show ?thesis
    by (simp add: calculate_crc_for_target_node_def)
qed

text \<open>The flag that the table was filled is shared by all objects while the table is not: once one
  gateway's object has filled its own, another object computes with a table that was never
  written.\<close>

theorem second_object_crc_undefined:
  assumes "calculate_crc_for_target_node False f1 = Some (init, f1')"
    and "crc_tab16 f2 = None" and "fouta_read_fd f2 = Some (b # file)" and "total_firmwaresize f2 \<noteq> 0"
    and "\<not> rf_fuota_crc_calculated f2"
  shows "calculate_crc_for_target_node init f2 = None"
proof -
  have "init = True"
    using assms(1) unfolding calculate_crc_for_target_node_def ensure_crc_table_def
    by (auto split: option.splits if_splits bind_splits)
  moreover have "0 < unat (total_firmwaresize f2)" using assms(4) by (simp add: unat_gt_0)
  moreover have "sector_value f2 \<noteq> 0 \<Longrightarrow> 0 < unat (sector_value f2)" by (simp add: unat_gt_0)
  ultimately show ?thesis
    using assms(2-5) by (cases "sector_value f2 = 0")
      (simp_all add: calculate_crc_for_target_node_def ensure_crc_table_def crc_loop.simps Let_def take_Cons')
qed

section \<open>Concrete inputs\<close>

definition example_firmware :: bytes where
  "example_firmware = [0x31, 0x32]"

definition example_fuota_crc :: fuota_crc where
  "example_fuota_crc = \<lparr>crc = 0, CRC = 0, rf_fuota_crc_calculated = False, rf_fuota_crc_value = 0, crc_tab16 = None,
     fouta_read_fd = Some example_firmware, total_firmwaresize = 2, sector_value = 4\<rparr>"

lemma example_crc: "crc16_reference example_firmware 0 = 0x4594"
  by code_simp

lemma example_crc_run: "\<exists>f'. calculate_crc_for_target_node False example_fuota_crc = Some (True, f')"
  by (simp add: calculate_crc_for_target_node_def ensure_crc_table_def example_fuota_crc_def example_firmware_def
    crc_loop.simps Let_def)

theorem firmware_crc_is_reference_witness:
  "\<exists>f'. calculate_crc_for_target_node False example_fuota_crc = Some (True, f') \<and> CRC f' = 0x4594"
  using firmware_crc_is_reference [of example_fuota_crc example_firmware False] example_crc
  by (auto simp: example_fuota_crc_def example_firmware_def)

theorem second_object_crc_undefined_witness:
  "\<exists>init f1'. calculate_crc_for_target_node False example_fuota_crc = Some (init, f1')
    \<and> calculate_crc_for_target_node init example_fuota_crc = None"
proof -
  obtain f1' where r: "calculate_crc_for_target_node False example_fuota_crc = Some (True, f1')"
    using example_crc_run by auto
  from second_object_crc_undefined [OF r, of example_fuota_crc "0x31" "tl example_firmware"] r show ?thesis
    by (auto simp: example_fuota_crc_def example_firmware_def)
qed

end
