(* ===== verification/Mqtt.thy ===== *)
theory Mqtt
  imports Hex
begin

text \<open>
  The requests of the MQTT topic (\<open>HES/src/mqtt.cpp\<close>): the check of every command of a message, the
  four queues with their bound, the request ids remembered against duplicates, and cancelling.  A
  message and a queued command are their characters.  An exception that \<open>validate_request_ids\<close> does not
  catch leaves the callback of the library, which ends the program: None.
\<close>

section \<open>State\<close>

text \<open>The queues and the ids of \<open>MQTTClient\<close>; a queue is the list from its front to its back.\<close>

record mqtt =
  ODM :: "cstr list"
  Failed :: "cstr list"
  RF_Meter_FUOTA :: "cstr list"
  RFMeterFUOTA :: "cstr list"
  cancelled_requests :: "cstr list"
  global_seen_req_ids :: "cstr list"
  special_req_ids :: "cstr list"
  FUOTA_req_ids :: "cstr list"
  ODM_Flag :: u8

abbreviation (input) MAX_QUEUE_SIZE :: nat where "MAX_QUEUE_SIZE \<equiv> 500"
abbreviation (input) REQUEST_ID :: nat where "REQUEST_ID \<equiv> 0"
abbreviation (input) GATEWAY_ID :: nat where "GATEWAY_ID \<equiv> 1"
abbreviation (input) HOP_COUNT :: nat where "HOP_COUNT \<equiv> 2"
abbreviation (input) DEST_ADDR :: nat where "DEST_ADDR \<equiv> 3"
abbreviation (input) DOWNLOAD_DATA_TYPE :: nat where "DOWNLOAD_DATA_TYPE \<equiv> 4"
abbreviation (input) COMMAND :: nat where "COMMAND \<equiv> 5"
abbreviation (input) PING_COUNT :: nat where "PING_COUNT \<equiv> 6"
abbreviation (input) PING_INTERVAL :: nat where "PING_INTERVAL \<equiv> 7"

section \<open>Queues\<close>

definition enqueue_odm :: "cstr \<Rightarrow> mqtt \<Rightarrow> mqtt" where
  "enqueue_odm cmd m =
     (let q = (if MAX_QUEUE_SIZE \<le> length (ODM m) then tl (ODM m) else ODM m) in m\<lparr>ODM := q @ [cmd]\<rparr>)"

definition enqueue_failed :: "cstr \<Rightarrow> mqtt \<Rightarrow> mqtt" where
  "enqueue_failed cmd m =
     (let q = (if MAX_QUEUE_SIZE \<le> length (Failed m) then tl (Failed m) else Failed m) in m\<lparr>Failed := q @ [cmd]\<rparr>)"

definition enqueue_fuota :: "cstr \<Rightarrow> mqtt \<Rightarrow> mqtt" where
  "enqueue_fuota cmd m =
     (let q = (if MAX_QUEUE_SIZE \<le> length (RF_Meter_FUOTA m) then tl (RF_Meter_FUOTA m) else RF_Meter_FUOTA m)
      in m\<lparr>RF_Meter_FUOTA := q @ [cmd]\<rparr>)"

definition resume_fuota :: "cstr \<Rightarrow> mqtt \<Rightarrow> mqtt" where
  "resume_fuota cmd m =
     (let q = (if MAX_QUEUE_SIZE \<le> length (RFMeterFUOTA m) then tl (RFMeterFUOTA m) else RFMeterFUOTA m)
      in m\<lparr>RFMeterFUOTA := q @ [cmd]\<rparr>)"

definition check_rf_fuota_queue_empty :: "mqtt \<Rightarrow> bool" where
  "check_rf_fuota_queue_empty m = (RF_Meter_FUOTA m = [])"

text \<open>\<open>out_cmd\<close> is assigned only when the result is true.\<close>

definition dequeue_fuota :: "mqtt \<Rightarrow> cstr option \<times> mqtt" where
  "dequeue_fuota m = (case RF_Meter_FUOTA m of [] \<Rightarrow> (None, m)
     | cmd # rest \<Rightarrow> (Some cmd, m\<lparr>RF_Meter_FUOTA := rest\<rparr>))"

definition dequeue_pending_fuota :: "mqtt \<Rightarrow> cstr option \<times> mqtt" where
  "dequeue_pending_fuota m = (case RFMeterFUOTA m of [] \<Rightarrow> (None, m)
     | cmd # rest \<Rightarrow> (Some cmd, m\<lparr>RFMeterFUOTA := rest\<rparr>))"

text \<open>The loop moves the commands that stay to \<open>temp_queue\<close>.\<close>

fun remove_loop :: "cstr list \<Rightarrow> cstr list \<Rightarrow> cstr list \<Rightarrow> cstr list" where
  "remove_loop cancel_req_ids [] temp_queue = temp_queue"
| "remove_loop cancel_req_ids (cmd # queue) temp_queue =
     (let cmd_parts = explode cmd CHR '':''
      in remove_loop cancel_req_ids queue
           (if cmd_parts = [] \<or> hd cmd_parts \<notin> set cancel_req_ids then temp_queue @ [cmd] else temp_queue))"

definition remove_commands_by_req_id :: "cstr list \<Rightarrow> cstr list \<Rightarrow> cstr list" where
  "remove_commands_by_req_id queue cancel_req_ids = remove_loop cancel_req_ids queue []"

section \<open>The command of a request\<close>

fun hex_to_bytes_loop :: "cstr \<Rightarrow> bytes option" where
  "hex_to_bytes_loop (a # b # hex) = do {
     v \<leftarrow> stoi 16 [a, b];
     out \<leftarrow> hex_to_bytes_loop hex;
     Some (word_of_int v # out)
   }"
| "hex_to_bytes_loop hex = Some []"

text \<open>The bytes, when the result is true; None in the outer option is the exception of \<open>stoi\<close>.\<close>

definition hex_to_bytes :: "cstr \<Rightarrow> bytes option option" where
  "hex_to_bytes hex = (if odd (length hex) then Some None else map_option Some (hex_to_bytes_loop hex))"

text \<open>The cases of \<open>Validate_command\<close> that compare bytes 4 and 5 of the command: the value of
  \<open>DownloadDataType\<close> and the two bytes.\<close>

definition command_table :: "(u8 \<times> u8 \<times> u8) list" where
  "command_table =
    [(5, 0x08, 0x00), (6, 0x08, 0x01), (7, 0x08, 0x02), (8, 0x08, 0x03), (9, 0x08, 0x04), (10, 0x08, 0x05),
     (11, 0x08, 0x06), (12, 0x08, 0x07), (15, 0x00, 0x02), (16, 0x01, 0x02), (17, 0x00, 0x01), (19, 0x00, 0x01),
     (18, 0x01, 0x01), (20, 0x01, 0x01), (21, 0x00, 0x08), (22, 0x01, 0x08), (23, 0x00, 0x09), (14, 0x00, 0x09),
     (24, 0x01, 0x09), (25, 0x01, 0x07)]"

definition command_matches :: "u8 \<Rightarrow> bytes \<Rightarrow> bool" where
  "command_matches download_data_type cmd_bytes =
     (let command = cmd_bytes ! 4; sub_command = cmd_bytes ! 5; packet_type = cmd_bytes ! 2
      in if download_data_type \<in> {0, 1, 2, 3, 4} then command = download_data_type
         else if download_data_type = 13 then packet_type = 0x0D
         else (case map_of command_table download_data_type of None \<Rightarrow> False
           | Some (c, s) \<Rightarrow> \<not> (command \<noteq> c \<and> sub_command \<noteq> s)))"

definition Validate_command :: "cstr list \<Rightarrow> bool option" where
  "Validate_command parts = do {
     t \<leftarrow> stoi 10 (parts ! DOWNLOAD_DATA_TYPE);
     cmd_bytes \<leftarrow> hex_to_bytes (parts ! COMMAND);
     case cmd_bytes of None \<Rightarrow> Some False
     | Some cmd_bytes \<Rightarrow>
        if length cmd_bytes < 8 then Some False
        else Some (command_matches (word_of_int t) cmd_bytes)
   }"

section \<open>The parts of a request\<close>

definition contains :: "cstr list \<Rightarrow> cstr \<Rightarrow> bool" where
  "contains dq ident = (ident \<in> set dq)"

text \<open>\<open>push_back\<close>, then the oldest are removed while there are more than two.\<close>

definition remember :: "cstr \<Rightarrow> cstr list \<Rightarrow> cstr list" where
  "remember ident dq = drop (length dq + 1 - 2) (dq @ [ident])"

definition check_request_id :: "cstr \<Rightarrow> cstr \<Rightarrow> mqtt \<Rightarrow> bool \<times> mqtt" where
  "check_request_id ident data_type m =
     (if \<not> list_all (isdigit_base 10) ident then (False, m)
      else if data_type = ''13'' \<or> data_type = ''14'' then
        (if contains (special_req_ids m) ident then (False, m)
         else (True, m\<lparr>special_req_ids := remember ident (special_req_ids m)\<rparr>))
      else if data_type = ''27'' then
        (if contains (FUOTA_req_ids m) ident then (False, m)
         else (True, m\<lparr>FUOTA_req_ids := remember ident (FUOTA_req_ids m)\<rparr>))
      else
        (if contains (global_seen_req_ids m) ident then (False, m)
         else (True, m\<lparr>global_seen_req_ids := remember ident (global_seen_req_ids m)\<rparr>)))"

text \<open>The multiplication is on \<open>int\<close>, so it may overflow.\<close>

definition check_dest_addr :: "cstr \<Rightarrow> cstr list \<Rightarrow> bool option" where
  "check_dest_addr gateway_id parts =
     (case stoi 10 (parts ! HOP_COUNT) of None \<Rightarrow> Some False
      | Some hop_count \<Rightarrow>
         (let expected_len = 16 * (hop_count + 1)
          in if expected_len < - (2 ^ 31) \<or> 2 ^ 31 \<le> expected_len then None
             else if hop_count = 0 then Some (parts ! GATEWAY_ID = parts ! DEST_ADDR)
             else Some (\<not> (int (length (parts ! DEST_ADDR)) \<noteq> expected_len \<or> take 16 (parts ! DEST_ADDR) \<noteq> gateway_id))))"

definition allowed_cmds :: "cstr list" where
  "allowed_cmds =
    [''00'', ''01'', ''02'', ''03'', ''04'', ''05'', ''06'', ''07'', ''08'', ''09'',
     ''10'', ''11'', ''12'', ''13'', ''14'', ''15'', ''16'', ''17'', ''18'', ''19'',
     ''20'', ''21'', ''22'', ''23'', ''24'', ''25'', ''26'', ''27'', ''28'', ''29'', ''30'', ''31'']"

text \<open>Count and interval of a ping; an exception is caught.\<close>

definition check_ping :: "cstr list \<Rightarrow> nat \<Rightarrow> bool" where
  "check_ping parts idx =
     (parts ! DOWNLOAD_DATA_TYPE = ''13'' \<longrightarrow>
        (case stoi 10 (parts ! idx) of None \<Rightarrow> False | Some n \<Rightarrow> \<not> (n < 1 \<or> n > 3)))"

definition validate_part :: "cstr \<Rightarrow> cstr list \<Rightarrow> nat \<Rightarrow> mqtt \<Rightarrow> (bool \<times> mqtt) option" where
  "validate_part gateway_id parts idx m =
     (if idx = REQUEST_ID then Some (check_request_id (parts ! REQUEST_ID) (parts ! DOWNLOAD_DATA_TYPE) m)
      else if idx = GATEWAY_ID then
        Some (\<not> (length (parts ! GATEWAY_ID) \<noteq> 16 \<or> take 16 (parts ! GATEWAY_ID) \<noteq> gateway_id), m)
      else if idx = HOP_COUNT then Some (True, m)
      else if idx = DEST_ADDR then map_option (\<lambda>b. (b, m)) (check_dest_addr gateway_id parts)
      else if idx = DOWNLOAD_DATA_TYPE then Some (parts ! DOWNLOAD_DATA_TYPE \<in> set allowed_cmds, m)
      else if idx = COMMAND then map_option (\<lambda>b. (b, m)) (Validate_command parts)
      else if idx = PING_COUNT \<or> idx = PING_INTERVAL then Some (check_ping parts idx, m)
      else Some (True, m))"

fun validate_parts :: "cstr \<Rightarrow> cstr list \<Rightarrow> nat list \<Rightarrow> mqtt \<Rightarrow> (bool \<times> mqtt) option" where
  "validate_parts gateway_id parts [] m = Some (True, m)"
| "validate_parts gateway_id parts (idx # idxs) m = do {
     (command_valid, m) \<leftarrow> validate_part gateway_id parts idx m;
     if command_valid then validate_parts gateway_id parts idxs m else Some (False, m)
   }"

section \<open>A message\<close>

text \<open>An \<open>unordered_set\<close> is traversed in an order the library chooses: \<open>hash_order\<close> gives it for the set of
  the ids.\<close>

definition cancel_command :: "(cstr list \<Rightarrow> cstr list) \<Rightarrow> cstr list \<Rightarrow> mqtt \<Rightarrow> mqtt" where
  "cancel_command hash_order cancel_req_ids m =
     m\<lparr>ODM := remove_commands_by_req_id (ODM m) cancel_req_ids,
       RF_Meter_FUOTA := remove_commands_by_req_id (RF_Meter_FUOTA m) cancel_req_ids,
       cancelled_requests := cancelled_requests m @ hash_order cancel_req_ids\<rparr>"

definition validate_request :: "(cstr list \<Rightarrow> cstr list) \<Rightarrow> cstr \<Rightarrow> cstr \<Rightarrow> mqtt \<Rightarrow> mqtt option" where
  "validate_request hash_order gateway_id cmd m =
     (let parts = explode cmd CHR '':'' in
      if parts \<noteq> [] \<and> hd parts = ''CANCEL'' then Some (cancel_command hash_order (tl parts) m)
      else if parts = [] then Some (enqueue_failed cmd m)
      else if \<not> (length parts = 6 \<or> length parts = 7 \<or> length parts = 8) then Some (enqueue_failed cmd m)
      else if length parts = 6 \<and> parts ! DOWNLOAD_DATA_TYPE = ''13'' \<and> length parts \<noteq> 8 then Some (enqueue_failed cmd m)
      else do {
        (command_valid, m) \<leftarrow> validate_parts gateway_id parts [0..<length parts] m;
        Some (if command_valid
          then (if parts ! DOWNLOAD_DATA_TYPE = ''27'' \<or> parts ! DOWNLOAD_DATA_TYPE = ''28''
                then enqueue_fuota cmd m else enqueue_odm cmd m)
          else enqueue_failed cmd m)
      })"

fun validate_commands :: "(cstr list \<Rightarrow> cstr list) \<Rightarrow> cstr \<Rightarrow> cstr list \<Rightarrow> mqtt \<Rightarrow> mqtt option" where
  "validate_commands hash_order gateway_id [] m = Some m"
| "validate_commands hash_order gateway_id (cmd # commands) m = do {
     m \<leftarrow> validate_request hash_order gateway_id cmd m;
     validate_commands hash_order gateway_id commands m
   }"

text \<open>\<open>substr(find(':') + 1)\<close>; without a colon \<open>npos + 1\<close> is 0.\<close>

definition after_colon :: "cstr \<Rightarrow> cstr" where
  "after_colon s = (if CHR '':'' \<in> set s then tl (dropWhile (\<lambda>c. c \<noteq> CHR '':'') s) else s)"

definition validate_request_ids :: "(cstr list \<Rightarrow> cstr list) \<Rightarrow> cstr \<Rightarrow> cstr \<Rightarrow> mqtt \<Rightarrow> mqtt option" where
  "validate_request_ids hash_order message gateway_id m =
     (let msg_str = (if CHR ''-'' \<in> set message then after_colon message else message);
          commands = explode msg_str CHR ''-''
      in if commands = [] then Some m
         else do {
           m \<leftarrow> validate_commands hash_order gateway_id commands m;
           Some (m\<lparr>ODM_Flag := 1\<rparr>)
         })"

text \<open>The payload is stored with a terminator and read as a C string.\<close>

definition on_message :: "(cstr list \<Rightarrow> cstr list) \<Rightarrow> cstr \<Rightarrow> cstr \<Rightarrow> mqtt \<Rightarrow> mqtt option" where
  "on_message hash_order payload gatewayIdStr m =
     validate_request_ids hash_order (takeWhile (\<lambda>c. c \<noteq> CHR 0x00) payload) gatewayIdStr m"

definition set_mqtt_topic_and_client_id :: "cstr \<Rightarrow> cstr \<times> cstr" where
  "set_mqtt_topic_and_client_id gateway_id =
     (take 63 (take 16 gateway_id @ ''/ONDEMAND_REQUEST''), take 63 (take 16 gateway_id @ ''/CLIENT_ID''))"

section \<open>Queues that keep the latest entries\<close>

definition latest :: "nat \<Rightarrow> 'a list \<Rightarrow> 'a list" where
  "latest n xs = drop (length xs - n) xs"

lemma latest_length [simp]: "length (latest n xs) = min n (length xs)"
  by (simp add: latest_def)

lemma latest_all: "length xs \<le> n \<Longrightarrow> latest n xs = xs"
  by (simp add: latest_def)

lemma set_latest: "set (latest n xs) \<subseteq> set xs"
  by (simp add: latest_def set_drop_subset)

lemma latest_append: "latest n (latest n xs @ ys) = latest n (xs @ ys)"
  by (cases "n \<le> length xs") (simp_all add: latest_def add.commute)

lemma drop_oldest: "length q \<le> n \<Longrightarrow> 0 < n \<Longrightarrow> (if n \<le> length q then tl q else q) @ [c] = latest n (q @ [c])"
  by (cases q) (auto simp: latest_def)

text \<open>The contract of a store that forgets its oldest entries, and of a queue that is also emptied from
  its front.\<close>

locale latest_kept =
  fixes push :: "'c \<Rightarrow> 'm \<Rightarrow> 'm" and items :: "'m \<Rightarrow> 'c list" and cap :: nat
  assumes push_items: "length (items m) \<le> cap \<Longrightarrow> items (push c m) = latest cap (items m @ [c])"
begin

lemma push_bounded: "length (items m) \<le> cap \<Longrightarrow> length (items (push c m)) \<le> cap"
  by (simp add: push_items)

lemma pushes_items: "length (items m) \<le> cap \<Longrightarrow> items (fold push cs m) = latest cap (items m @ cs)"
proof (induction cs arbitrary: m)
  case Nil
  then show ?case by (simp add: latest_all)
next
  case (Cons c cs)
  from Cons.IH [OF push_bounded [OF Cons.prems]] Cons.prems show ?case
    by (simp add: push_items latest_append)
qed

end

text \<open>Taking \<open>n\<close> entries.\<close>

fun taken :: "('m \<Rightarrow> 'c option \<times> 'm) \<Rightarrow> nat \<Rightarrow> 'm \<Rightarrow> 'c list" where
  "taken pop 0 m = []"
| "taken pop (Suc n) m = (case pop m of (None, _) \<Rightarrow> [] | (Some c, m) \<Rightarrow> c # taken pop n m)"

locale latest_queue = latest_kept push items cap
  for push :: "'c \<Rightarrow> 'm \<Rightarrow> 'm" and items :: "'m \<Rightarrow> 'c list" and cap :: nat +
  fixes pop :: "'m \<Rightarrow> 'c option \<times> 'm"
  assumes pop_empty: "items m = [] \<Longrightarrow> pop m = (None, m)"
    and pop_front: "items m = c # cs \<Longrightarrow> \<exists>m'. pop m = (Some c, m') \<and> items m' = cs"
begin

lemma taken_items: "taken pop n m = take n (items m)"
proof (induction n arbitrary: m)
  case (Suc n)
  show ?case
  proof (cases "items m")
    case Nil
    then show ?thesis by (simp add: pop_empty)
  next
    case (Cons c cs)
    then obtain m' where "pop m = (Some c, m')" "items m' = cs" using pop_front by blast
    with Cons Suc show ?thesis by simp
  qed
qed simp

lemma taken_after: "length (items m) \<le> cap \<Longrightarrow> taken pop n (fold push cs m) = take n (latest cap (items m @ cs))"
  by (simp add: taken_items pushes_items)

end

interpretation odm_queue: latest_kept enqueue_odm ODM MAX_QUEUE_SIZE
  by unfold_locales (simp add: enqueue_odm_def drop_oldest [symmetric])

interpretation failed_queue: latest_kept enqueue_failed Failed MAX_QUEUE_SIZE
  by unfold_locales (simp add: enqueue_failed_def drop_oldest [symmetric])

interpretation fuota_queue: latest_queue enqueue_fuota RF_Meter_FUOTA MAX_QUEUE_SIZE dequeue_fuota
  by unfold_locales (simp_all add: enqueue_fuota_def dequeue_fuota_def drop_oldest [symmetric])

interpretation pending_queue: latest_queue resume_fuota RFMeterFUOTA MAX_QUEUE_SIZE dequeue_pending_fuota
  by unfold_locales (simp_all add: resume_fuota_def dequeue_pending_fuota_def drop_oldest [symmetric])

interpretation seen_ids: latest_kept remember "\<lambda>dq. dq" 2
  by unfold_locales (simp add: remember_def latest_def)

text \<open>C24: the queues of firmware upgrades refine the plain list of what was put in: however many
  commands are enqueued, taking \<open>n\<close> gives the first \<open>n\<close> of the latest 500, in order.\<close>

theorem fuota_queues_refine:
  assumes "length (RF_Meter_FUOTA m) \<le> 500" and "length (RFMeterFUOTA m) \<le> 500"
  shows "taken dequeue_fuota n (fold enqueue_fuota cs m) = take n (latest 500 (RF_Meter_FUOTA m @ cs))
    \<and> taken dequeue_pending_fuota n (fold resume_fuota cs m) = take n (latest 500 (RFMeterFUOTA m @ cs))"
  using fuota_queue.taken_after [OF assms(1)] pending_queue.taken_after [OF assms(2)] by simp

section \<open>What a request must be\<close>

definition request_route :: "cstr \<Rightarrow> cstr list \<Rightarrow> nat \<Rightarrow> bool" where
  "request_route gateway_id parts h \<longleftrightarrow> stoi 10 (parts ! HOP_COUNT) = Some (int h) \<and> 16 * (h + 1) < 2 ^ 31
     \<and> length (parts ! DEST_ADDR) = 16 * (h + 1) \<and> take 16 (parts ! DEST_ADDR) = gateway_id"

definition well_formed_request :: "cstr \<Rightarrow> cstr list \<Rightarrow> bool" where
  "well_formed_request gateway_id parts \<longleftrightarrow>
     length parts \<in> {6, 7, 8} \<and> list_all (isdigit_base 10) (parts ! REQUEST_ID)
     \<and> length gateway_id = 16 \<and> parts ! GATEWAY_ID = gateway_id \<and> (\<exists>h. request_route gateway_id parts h)
     \<and> parts ! DOWNLOAD_DATA_TYPE \<in> set allowed_cmds
     \<and> (\<exists>t cmd_bytes. stoi 10 (parts ! DOWNLOAD_DATA_TYPE) = Some t \<and> hex_to_bytes (parts ! COMMAND) = Some (Some cmd_bytes)
          \<and> 8 \<le> length cmd_bytes \<and> command_matches (word_of_int t) cmd_bytes)
     \<and> (parts ! DOWNLOAD_DATA_TYPE = ''13'' \<longrightarrow> 7 \<le> length parts
          \<and> (\<forall>i \<in> {PING_COUNT..<length parts}. \<exists>n. stoi 10 (parts ! i) = Some n \<and> 1 \<le> n \<and> n \<le> 3))"

definition seen_ids :: "cstr \<Rightarrow> mqtt \<Rightarrow> cstr list" where
  "seen_ids data_type m =
     (if data_type = ''13'' \<or> data_type = ''14'' then special_req_ids m
      else if data_type = ''27'' then FUOTA_req_ids m else global_seen_req_ids m)"

text \<open>The check of a part other than the request id, which changes nothing.\<close>

definition part_check :: "cstr \<Rightarrow> cstr list \<Rightarrow> nat \<Rightarrow> bool option" where
  "part_check gateway_id parts idx =
     (if idx = GATEWAY_ID then Some (parts ! GATEWAY_ID = gateway_id \<and> length gateway_id = 16)
      else if idx = DEST_ADDR then check_dest_addr gateway_id parts
      else if idx = DOWNLOAD_DATA_TYPE then Some (parts ! DOWNLOAD_DATA_TYPE \<in> set allowed_cmds)
      else if idx = COMMAND then Validate_command parts
      else if idx = PING_COUNT \<or> idx = PING_INTERVAL then Some (check_ping parts idx)
      else Some True)"

lemma validate_part_check: "idx \<noteq> 0 \<Longrightarrow> validate_part gateway_id parts idx m = map_option (\<lambda>b. (b, m)) (part_check gateway_id parts idx)"
  by (auto simp: validate_part_def part_check_def)

lemma validate_parts_check:
  "0 \<notin> set idxs \<Longrightarrow> validate_parts gateway_id parts idxs m
     = map_option (\<lambda>b. (b, m)) (allB (map (part_check gateway_id parts) idxs))"
proof (induction idxs)
  case (Cons i idxs)
  then show ?case
    by (cases "part_check gateway_id parts i") (auto simp: validate_part_check)
qed simp

lemma check_request_id_outcome:
  "check_request_id ident data_type m = (ok, m') \<Longrightarrow>
     (ok \<longleftrightarrow> list_all (isdigit_base 10) ident \<and> ident \<notin> set (seen_ids data_type m))
     \<and> (\<not> ok \<longrightarrow> m' = m) \<and> (ok \<longrightarrow> seen_ids data_type m' = remember ident (seen_ids data_type m))
     \<and> ODM m' = ODM m \<and> Failed m' = Failed m \<and> RF_Meter_FUOTA m' = RF_Meter_FUOTA m
     \<and> RFMeterFUOTA m' = RFMeterFUOTA m \<and> cancelled_requests m' = cancelled_requests m"
  unfolding check_request_id_def seen_ids_def contains_def by (auto split: if_splits)

lemma check_dest_addr_True:
  assumes "length gateway_id = 16" and "parts ! GATEWAY_ID = gateway_id"
  shows "check_dest_addr gateway_id parts = Some True \<longleftrightarrow> (\<exists>h. request_route gateway_id parts h)"
proof (cases "stoi 10 (parts ! HOP_COUNT)")
  case None
  then show ?thesis by (simp add: check_dest_addr_def request_route_def)
next
  case (Some n)
  have ex: "(\<exists>h. request_route gateway_id parts h) \<longleftrightarrow> 0 \<le> n \<and> request_route gateway_id parts (nat n)"
    using Some by (auto simp: request_route_def)
  have short: "16 * (n + 1) = int (length (parts ! DEST_ADDR)) \<Longrightarrow> take 16 (parts ! DEST_ADDR) = gateway_id \<Longrightarrow> 0 \<le> n"
    using assms(1) by (cases "parts ! DEST_ADDR") auto
  have whole: "parts ! DEST_ADDR = gateway_id \<longleftrightarrow> length (parts ! DEST_ADDR) = 16 \<and> take 16 (parts ! DEST_ADDR) = gateway_id"
    using assms(1) by auto
  show ?thesis
  proof (cases "n \<le> 0")
    case True
    show ?thesis
    proof (cases "n = 0")
      case True
      then show ?thesis using Some assms(2) whole unfolding ex
        by (simp add: check_dest_addr_def request_route_def) metis
    next
      case False
      have "\<not> (int (length (parts ! DEST_ADDR)) = 16 * (n + 1) \<and> take 16 (parts ! DEST_ADDR) = gateway_id)"
        using short False True by auto
      then have "check_dest_addr gateway_id parts \<noteq> Some True"
        using False Some unfolding check_dest_addr_def by (auto simp: Let_def)
      then show ?thesis unfolding ex using False True by simp
    qed
  next
    case False
    then obtain k where k: "n = int k" "k \<noteq> 0" using that [of "nat n"] by simp
    have e: "16 * (int k + 1) = int (16 * (k + 1))" by simp
    have "16 * (int k + 1) < 2 ^ 31 \<longleftrightarrow> 16 * (k + 1) < 2 ^ 31"
      unfolding e using of_nat_less_iff [where 'a = int, of "16 * (k + 1)" "2 ^ 31"] by simp
    moreover have "\<not> 16 * (int k + 1) < - (2 ^ 31)"
      unfolding e using of_nat_0_le_iff [where 'a = int, of "16 * (k + 1)"] by (simp only: not_less) simp
    moreover have "int (length (parts ! DEST_ADDR)) = 16 * (int k + 1) \<longleftrightarrow> length (parts ! DEST_ADDR) = 16 * (k + 1)"
      unfolding e of_nat_eq_iff ..
    ultimately show ?thesis using False Some k(2) unfolding ex k(1) check_dest_addr_def request_route_def Let_def
      by (simp only: nat_int option.case) (simp del: of_nat_Suc add: not_less)
  qed
qed

lemma Validate_command_True:
  "Validate_command parts = Some True \<longleftrightarrow>
     (\<exists>t cmd_bytes. stoi 10 (parts ! DOWNLOAD_DATA_TYPE) = Some t \<and> hex_to_bytes (parts ! COMMAND) = Some (Some cmd_bytes)
        \<and> 8 \<le> length cmd_bytes \<and> command_matches (word_of_int t) cmd_bytes)"
  unfolding Validate_command_def by (auto split: bind_splits option.splits if_splits)

lemma upt_pings: "{6..<6} = ({} :: nat set)" "{6..<7} = {6 :: nat}" "{6..<8} = {6, 7 :: nat}"
  by auto

lemma upt_parts: "[1..<6] = [1, 2, 3, 4, 5 :: nat]" "[1..<7] = [1, 2, 3, 4, 5, 6 :: nat]" "[1..<8] = [1, 2, 3, 4, 5, 6, 7 :: nat]"
  by (simp_all add: upt_rec)

lemma parts_accepted:
  assumes "length parts \<in> {6, 7, 8}" and "\<not> (length parts = 6 \<and> parts ! DOWNLOAD_DATA_TYPE = ''13'')"
    and "list_all (isdigit_base 10) (parts ! REQUEST_ID)"
  shows "allB (map (part_check gateway_id parts) [1..<length parts]) = Some True \<longleftrightarrow> well_formed_request gateway_id parts"
proof -
  have "allB (map (part_check gateway_id parts) [1..<length parts]) = Some True \<longleftrightarrow>
      parts ! GATEWAY_ID = gateway_id \<and> length gateway_id = 16 \<and> check_dest_addr gateway_id parts = Some True
      \<and> parts ! DOWNLOAD_DATA_TYPE \<in> set allowed_cmds \<and> Validate_command parts = Some True
      \<and> (\<forall>i \<in> {PING_COUNT..<length parts}. check_ping parts i)"
  proof -
    from assms(1) consider "length parts = 6" | "length parts = 7" | "length parts = 8" by auto
    then show ?thesis by cases (simp_all only: upt_parts upt_pings, auto simp: part_check_def andB_True_iff)
  qed
  moreover have "check_ping parts i \<longleftrightarrow> (parts ! DOWNLOAD_DATA_TYPE = ''13'' \<longrightarrow> (\<exists>n. stoi 10 (parts ! i) = Some n \<and> 1 \<le> n \<and> n \<le> 3))" for i
    by (auto simp: check_ping_def split: option.splits)
  ultimately show ?thesis
    using assms check_dest_addr_True [of gateway_id parts] unfolding well_formed_request_def Validate_command_True by auto
qed

section \<open>The verdict on a request\<close>

text \<open>\<open>Validate_command\<close> has no case for firmware upgrades.\<close>

lemma upgrades_refused: "well_formed_request gateway_id parts \<Longrightarrow> parts ! DOWNLOAD_DATA_TYPE \<noteq> ''27'' \<and> parts ! DOWNLOAD_DATA_TYPE \<noteq> ''28''"
proof -
  have "stoi 10 ''27'' = Some 27" "stoi 10 ''28'' = Some 28" by code_simp+
  moreover have "\<not> command_matches 27 bs" "\<not> command_matches 28 bs" for bs
    by (simp_all add: command_matches_def command_table_def)
  ultimately show "well_formed_request gateway_id parts \<Longrightarrow> ?thesis"
    by (auto simp: well_formed_request_def)
qed

definition quiet :: "mqtt \<Rightarrow> mqtt \<Rightarrow> bool" where
  "quiet m m' \<longleftrightarrow> ODM m' = ODM m \<and> Failed m' = Failed m \<and> RF_Meter_FUOTA m' = RF_Meter_FUOTA m
     \<and> RFMeterFUOTA m' = RFMeterFUOTA m \<and> cancelled_requests m' = cancelled_requests m"

lemma enqueue_keeps [simp]:
  "Failed (enqueue_odm c m) = Failed m" "RF_Meter_FUOTA (enqueue_odm c m) = RF_Meter_FUOTA m"
  "RFMeterFUOTA (enqueue_odm c m) = RFMeterFUOTA m" "cancelled_requests (enqueue_odm c m) = cancelled_requests m"
  "ODM (enqueue_failed c m) = ODM m" "RF_Meter_FUOTA (enqueue_failed c m) = RF_Meter_FUOTA m"
  "RFMeterFUOTA (enqueue_failed c m) = RFMeterFUOTA m" "cancelled_requests (enqueue_failed c m) = cancelled_requests m"
  "seen_ids t (enqueue_odm c m) = seen_ids t m" "seen_ids t (enqueue_failed c m) = seen_ids t m"
  by (simp_all add: enqueue_odm_def enqueue_failed_def seen_ids_def)

abbreviation fields :: "cstr \<Rightarrow> cstr list" where
  "fields cmd \<equiv> explode cmd CHR '':''"

abbreviation acceptable :: "cstr \<Rightarrow> cstr \<Rightarrow> mqtt \<Rightarrow> bool" where
  "acceptable gateway_id cmd m \<equiv> well_formed_request gateway_id (fields cmd)
     \<and> fields cmd ! REQUEST_ID \<notin> set (seen_ids (fields cmd ! DOWNLOAD_DATA_TYPE) m)"

lemma validate_parts_split:
  assumes "0 < length parts"
  shows "validate_parts gateway_id parts [0..<length parts] m =
    (let (ok, m1) = check_request_id (parts ! 0) (parts ! DOWNLOAD_DATA_TYPE) m
     in if ok then map_option (\<lambda>b. (b, m1)) (allB (map (part_check gateway_id parts) [1..<length parts])) else Some (False, m1))"
proof -
  have "[0..<length parts] = 0 # [1..<length parts]" using assms by (simp add: upt_conv_Cons)
  moreover have "0 \<notin> set [Suc 0..<length parts]" by simp
  ultimately show ?thesis
    by (simp add: validate_part_def validate_parts_check split: prod.splits)
qed

lemma validate_parts_state:
  "validate_parts gateway_id parts [0..<length parts] m = Some (ok, m1) \<Longrightarrow> 0 < length parts \<Longrightarrow>
    m1 = snd (check_request_id (parts ! 0) (parts ! DOWNLOAD_DATA_TYPE) m)"
  by (subst (asm) validate_parts_split) (auto split: prod.splits if_splits)

lemma accepted_request:
  assumes "acceptable gateway_id cmd m" and "hd (fields cmd) \<noteq> ''CANCEL''"
  obtains m1 where "validate_request hash_order gateway_id cmd m = Some (enqueue_odm cmd m1)" "quiet m m1"
    "seen_ids (fields cmd ! DOWNLOAD_DATA_TYPE) m1
      = remember (fields cmd ! REQUEST_ID) (seen_ids (fields cmd ! DOWNLOAD_DATA_TYPE) m)"
proof -
  let ?p = "fields cmd"
  obtain ok m1 where c: "check_request_id (?p ! 0) (?p ! DOWNLOAD_DATA_TYPE) m = (ok, m1)" by fastforce
  note o = check_request_id_outcome [OF c]
  have p: "length ?p \<in> {6, 7, 8}" "\<not> (length ?p = 6 \<and> ?p ! DOWNLOAD_DATA_TYPE = ''13'')" "list_all (isdigit_base 10) (?p ! 0)"
    using assms(1) by (auto simp: well_formed_request_def)
  with o assms(1) have ok: "ok" by simp
  have "validate_parts gateway_id ?p [0..<length ?p] m = Some (True, m1)"
    using c ok parts_accepted [OF p] assms(1) p(1) by (subst validate_parts_split) auto
  with p assms(2) upgrades_refused [of gateway_id ?p] assms(1)
  have "validate_request hash_order gateway_id cmd m = Some (enqueue_odm cmd m1)"
    unfolding validate_request_def Let_def by auto
  moreover have "quiet m m1" using o by (simp add: quiet_def)
  ultimately show thesis using that o ok by simp
qed

lemma refused_request:
  assumes "\<not> acceptable gateway_id cmd m" and "hd (fields cmd) \<noteq> ''CANCEL''"
    and "validate_request hash_order gateway_id cmd m = Some m'"
  obtains m1 where "m' = enqueue_failed cmd m1" "quiet m m1"
proof -
  let ?p = "fields cmd"
  have self: "quiet m m" by (simp add: quiet_def)
  show thesis
  proof (cases "length ?p \<in> {6, 7, 8} \<and> \<not> (length ?p = 6 \<and> ?p ! DOWNLOAD_DATA_TYPE = ''13'')")
    case False
    then have "m' = enqueue_failed cmd m" using assms(2,3) unfolding validate_request_def Let_def by (auto split: if_splits)
    with that self show thesis by blast
  next
    case True
    obtain ok m1 where c: "check_request_id (?p ! 0) (?p ! DOWNLOAD_DATA_TYPE) m = (ok, m1)" by fastforce
    note o = check_request_id_outcome [OF c]
    have q: "quiet m m1" using o by (simp add: quiet_def)
    have "m' = enqueue_failed cmd m1"
    proof (cases ok)
      case False
      have "validate_parts gateway_id ?p [0..<length ?p] m = Some (False, m1)"
        using c False True by (subst validate_parts_split) auto
      then show ?thesis using True assms(2,3) unfolding validate_request_def Let_def by auto
    next
      case ok: True
      let ?all = "allB (map (part_check gateway_id ?p) [1..<length ?p])"
      have "?all \<noteq> Some True"
        using parts_accepted [of ?p gateway_id] True ok o assms(1) by auto
      moreover have run: "validate_parts gateway_id ?p [0..<length ?p] m = map_option (\<lambda>b. (b, m1)) ?all"
        using c ok True by (subst validate_parts_split) auto
      moreover have "?all \<noteq> None"
      proof
        assume "?all = None"
        with run have "validate_parts gateway_id ?p [0..<length ?p] m = None" by simp
        then show False using True assms(2,3) unfolding validate_request_def Let_def by auto
      qed
      ultimately have "validate_parts gateway_id ?p [0..<length ?p] m = Some (False, m1)" by auto
      then show ?thesis using True assms(2,3) unfolding validate_request_def Let_def by auto
    qed
    with that q show thesis by blast
  qed
qed

text \<open>C23: a request ends in exactly one queue.  It ends in the queue of requests to execute exactly if it
  is well formed for this gateway and its id is not among the last two ids of its kind; then the id
  is remembered.  Otherwise it ends in the queue of failed requests.  No other queue changes.\<close>

theorem request_verdict:
  assumes "hd (fields cmd) \<noteq> ''CANCEL''" and "length (ODM m) \<le> 500" and "length (Failed m) \<le> 500"
    and "validate_request hash_order gateway_id cmd m = Some m'"
  shows "(if well_formed_request gateway_id (fields cmd)
             \<and> fields cmd ! REQUEST_ID \<notin> set (seen_ids (fields cmd ! DOWNLOAD_DATA_TYPE) m)
          then ODM m' = latest 500 (ODM m @ [cmd]) \<and> Failed m' = Failed m
            \<and> fields cmd ! REQUEST_ID \<in> set (seen_ids (fields cmd ! DOWNLOAD_DATA_TYPE) m')
          else ODM m' = ODM m \<and> Failed m' = latest 500 (Failed m @ [cmd]))
    \<and> RF_Meter_FUOTA m' = RF_Meter_FUOTA m \<and> cancelled_requests m' = cancelled_requests m"
proof (cases "acceptable gateway_id cmd m")
  case True
  from accepted_request [OF True assms(1), where hash_order = hash_order] obtain m1 where
    m1: "validate_request hash_order gateway_id cmd m = Some (enqueue_odm cmd m1)" "quiet m m1"
      "seen_ids (fields cmd ! DOWNLOAD_DATA_TYPE) m1
        = remember (fields cmd ! REQUEST_ID) (seen_ids (fields cmd ! DOWNLOAD_DATA_TYPE) m)" .
  have "ident \<in> set (remember ident dq)" for ident dq by (simp add: remember_def)
  with True m1 assms(2,4) show ?thesis by (auto simp: quiet_def odm_queue.push_items)
next
  case False
  from refused_request [OF False assms(1,4)] obtain m1 where "m' = enqueue_failed cmd m1" "quiet m m1" .
  then show ?thesis unfolding if_not_P [OF False] using assms(3) by (simp add: quiet_def failed_queue.push_items)
qed

section \<open>Messages\<close>

lemma upto_delim:
  "d \<notin> set t \<Longrightarrow> takeWhile (\<lambda>c. c \<noteq> d) (t @ d # r) = t" "d \<notin> set t \<Longrightarrow> dropWhile (\<lambda>c. c \<noteq> d) (t @ d # r) = d # r"
  by (induction t) auto

lemma explode_tokens: "ts \<noteq> [] \<Longrightarrow> (\<And>t. t \<in> set ts \<Longrightarrow> d \<notin> set t) \<Longrightarrow> explode (joined d ts) d = ts"
proof (induction ts)
  case (Cons t ts)
  then have t: "d \<notin> set t" by simp
  show ?case
  proof (cases ts)
    case Nil
    then show ?thesis using t by (subst explode.simps) simp
  next
    case (Cons u us)
    then show ?thesis using t Cons.prems Cons.IH by (subst explode.simps) (simp add: upto_delim)
  qed
qed simp

lemma joined_chars: "set (joined d ts) \<subseteq> insert d (\<Union> (set ` set ts))"
  by (induction d ts rule: joined.induct) auto

lemma after_colon_group: "CHR '':'' \<notin> set gid \<Longrightarrow> after_colon (gid @ CHR '':'' # rest) = rest"
  by (simp add: after_colon_def upto_delim)

lemma grouped_message:
  assumes "2 \<le> length cs" and "\<And>c. c \<in> set cs \<Longrightarrow> CHR ''-'' \<notin> set c" and "CHR '':'' \<notin> set gid"
  shows "validate_request_ids hash_order (gid @ CHR '':'' # joined CHR ''-'' cs) gateway_id m
    = map_option (\<lambda>m. m\<lparr>ODM_Flag := 1\<rparr>) (validate_commands hash_order gateway_id cs m)"
proof -
  from assms(1) obtain a b r where "cs = a # b # r" by (metis Suc_le_length_iff numeral_2_eq_2)
  then have "CHR ''-'' \<in> set (joined CHR ''-'' cs)" "cs \<noteq> []" by simp_all
  with explode_tokens [of cs "CHR ''-''"] assms show ?thesis
    by (auto simp: validate_request_ids_def after_colon_group map_conv_bind_option comp_def)
qed

lemma plain_message:
  "CHR ''-'' \<notin> set cmd \<Longrightarrow> validate_request_ids hash_order cmd gateway_id m
    = map_option (\<lambda>m. m\<lparr>ODM_Flag := 1\<rparr>) (validate_request hash_order gateway_id cmd m)"
  by (simp add: validate_request_ids_def explode.simps map_conv_bind_option comp_def)

lemma well_formed_not_cancel: "well_formed_request gateway_id (fields cmd) \<Longrightarrow> hd (fields cmd) \<noteq> ''CANCEL''"
  by (auto simp: well_formed_request_def hd_conv_nth isdigit_base_def hexval_def)

definition known_ids :: "mqtt \<Rightarrow> cstr set" where
  "known_ids m = set (global_seen_req_ids m) \<union> set (special_req_ids m) \<union> set (FUOTA_req_ids m)"

lemma seen_known: "set (seen_ids t m) \<subseteq> known_ids m"
  by (auto simp: seen_ids_def known_ids_def)

lemma known_after:
  assumes "validate_request hash_order gateway_id cmd m = Some m'" and "fields cmd ! REQUEST_ID = ident"
  shows "known_ids m' \<subseteq> insert ident (known_ids m)"
proof -
  have r: "set (remember i dq) \<subseteq> insert i (set dq)" for i dq
    unfolding remember_def by (auto dest: in_set_dropD)
  have c: "known_ids (snd (check_request_id i t m)) \<subseteq> insert i (known_ids m)" for i t
    using r unfolding check_request_id_def known_ids_def by auto
  have e: "known_ids (enqueue_odm cmd m) = known_ids m" "known_ids (enqueue_failed cmd m) = known_ids m"
    "known_ids (enqueue_fuota cmd m) = known_ids m" "known_ids (cancel_command hash_order ids m) = known_ids m" for m ids
    by (simp_all add: known_ids_def enqueue_odm_def enqueue_failed_def enqueue_fuota_def cancel_command_def)
  have v: "known_ids m1 \<subseteq> insert ident (known_ids m)"
    if "validate_parts gateway_id (fields cmd) [0..<length (fields cmd)] m = Some (ok, m1)" for ok m1
    using validate_parts_state [OF that] c [of "fields cmd ! 0" "fields cmd ! 4"] assms(2) by simp
  show ?thesis using assms(1) v unfolding validate_request_def Let_def
    by (auto split: if_splits bind_splits simp: e)
qed

text \<open>C17: the requests of one message are executed in the order of the message: when all are well
  formed and their ids are new, the queue of requests afterwards is the latest 500 of the old ones
  followed by these, and none fails.\<close>

theorem batch_queued:
  assumes "2 \<le> length cs" and "CHR '':'' \<notin> set gid"
    and "\<And>c. c \<in> set cs \<Longrightarrow> CHR ''-'' \<notin> set c \<and> well_formed_request gateway_id (explode c CHR '':'')"
    and "distinct (map (\<lambda>c. explode c CHR '':'' ! REQUEST_ID) cs)"
    and "\<And>c. c \<in> set cs \<Longrightarrow> explode c CHR '':'' ! REQUEST_ID \<notin> known_ids m"
    and "length (ODM m) \<le> 500"
  shows "\<exists>m'. validate_request_ids hash_order (gid @ CHR '':'' # joined CHR ''-'' cs) gateway_id m = Some m'
    \<and> ODM m' = latest 500 (ODM m @ cs) \<and> Failed m' = Failed m \<and> ODM_Flag m' = 1"
proof -
  have "\<exists>m'. validate_commands hash_order gateway_id cs m = Some m'
      \<and> ODM m' = latest 500 (ODM m @ cs) \<and> Failed m' = Failed m"
    using assms(3-6)
  proof (induction cs arbitrary: m)
    case Nil
    then show ?case by (simp add: latest_all)
  next
    case (Cons c cs)
    have wf: "well_formed_request gateway_id (fields c)" using Cons.prems by simp
    have "acceptable gateway_id c m" using wf Cons.prems(3) [of c] seen_known by fastforce
    from accepted_request [OF this well_formed_not_cancel [OF wf], where hash_order = hash_order] obtain m1 where
      m1: "validate_request hash_order gateway_id c m = Some (enqueue_odm c m1)" "quiet m m1" by blast
    let ?m = "enqueue_odm c m1"
    have "ODM ?m = latest 500 (ODM m @ [c])" "Failed ?m = Failed m"
      using m1(2) Cons.prems(4) by (simp_all add: quiet_def odm_queue.push_items)
    moreover have "fields c' ! 0 \<notin> known_ids ?m" if "c' \<in> set cs" for c'
    proof -
      have "fields c' ! 0 \<noteq> fields c ! 0" using Cons.prems(2) that by (auto simp: image_iff)
      with known_after [OF m1(1) refl] Cons.prems(3) [of c'] that show ?thesis by auto
    qed
    ultimately have "\<exists>m'. validate_commands hash_order gateway_id cs ?m = Some m'
        \<and> ODM m' = latest 500 (ODM ?m @ cs) \<and> Failed m' = Failed ?m"
      using Cons.prems by (intro Cons.IH) simp_all
    with m1(1) \<open>ODM ?m = _\<close> \<open>Failed ?m = _\<close> show ?case by (auto simp: latest_append)
  qed
  with grouped_message [of cs gid hash_order gateway_id m] assms(1-3) show ?thesis by auto
qed

section \<open>What the queues always hold\<close>

text \<open>Every queued request is well formed for this gateway, no firmware upgrade is queued, and all stores
  keep their bounds.\<close>

definition mqtt_ok :: "cstr \<Rightarrow> mqtt \<Rightarrow> bool" where
  "mqtt_ok gateway_id m \<longleftrightarrow> (\<forall>cmd \<in> set (ODM m). well_formed_request gateway_id (explode cmd CHR '':''))
     \<and> RF_Meter_FUOTA m = [] \<and> length (ODM m) \<le> 500 \<and> length (Failed m) \<le> 500
     \<and> length (global_seen_req_ids m) \<le> 2 \<and> length (special_req_ids m) \<le> 2 \<and> length (FUOTA_req_ids m) \<le> 2"

lemma remove_loop_filter:
  "remove_loop ids q t = t @ filter (\<lambda>c. hd (fields c) \<notin> set ids) q"
  by (induction q arbitrary: t) simp_all

lemma remove_commands_filter:
  "remove_commands_by_req_id q ids = filter (\<lambda>c. hd (fields c) \<notin> set ids) q"
  by (simp add: remove_commands_by_req_id_def remove_loop_filter)

definition ids_bounded :: "mqtt \<Rightarrow> bool" where
  "ids_bounded m \<longleftrightarrow> length (global_seen_req_ids m) \<le> 2 \<and> length (special_req_ids m) \<le> 2 \<and> length (FUOTA_req_ids m) \<le> 2"

lemma ids_bounded_after:
  assumes "validate_request hash_order gateway_id cmd m = Some m'" and "ids_bounded m"
  shows "ids_bounded m'"
proof -
  have e: "ids_bounded (enqueue_odm cmd m) = ids_bounded m" "ids_bounded (enqueue_failed cmd m) = ids_bounded m"
    "ids_bounded (enqueue_fuota cmd m) = ids_bounded m" "ids_bounded (cancel_command hash_order ids m) = ids_bounded m" for m ids
    by (simp_all add: ids_bounded_def enqueue_odm_def enqueue_failed_def enqueue_fuota_def cancel_command_def)
  have "ids_bounded (snd (check_request_id i t m))" for i t
    using assms(2) seen_ids.push_bounded unfolding check_request_id_def ids_bounded_def by auto
  then have "ids_bounded m1" if "validate_parts gateway_id (fields cmd) [0..<length (fields cmd)] m = Some (ok, m1)" for ok m1
    using validate_parts_state [OF that] by simp
  then show ?thesis using assms unfolding validate_request_def Let_def
    by (auto split: if_splits bind_splits simp: e)
qed

lemma request_keeps_ok:
  assumes "validate_request hash_order gateway_id cmd m = Some m'" and "mqtt_ok gateway_id m"
  shows "mqtt_ok gateway_id m'"
proof -
  have b: "ids_bounded m'" using ids_bounded_after [OF assms(1)] assms(2) by (simp add: mqtt_ok_def ids_bounded_def)
  show ?thesis
  proof (cases "hd (fields cmd) = ''CANCEL''")
    case True
    then have "m' = cancel_command hash_order (tl (fields cmd)) m"
      using assms(1) by (simp add: validate_request_def)
    then show ?thesis using assms(2) by (auto simp: mqtt_ok_def cancel_command_def remove_commands_filter
      intro: le_trans [OF length_filter_le])
  next
    case no: False
    show ?thesis
    proof (cases "acceptable gateway_id cmd m")
      case True
      from accepted_request [OF True no, where hash_order = hash_order] assms(1) obtain m1
        where "m' = enqueue_odm cmd m1" "quiet m m1" by auto
      with assms(2) True b set_latest [of 500 "ODM m @ [cmd]"] show ?thesis
        by (auto simp: mqtt_ok_def quiet_def ids_bounded_def odm_queue.push_items)
    next
      case False
      from refused_request [OF False no assms(1)] obtain m1 where "m' = enqueue_failed cmd m1" "quiet m m1" .
      with assms(2) b show ?thesis
        by (auto simp: mqtt_ok_def quiet_def ids_bounded_def failed_queue.push_items)
    qed
  qed
qed

text \<open>C18: whatever a message contains, every request that is then queued for execution is well formed
  for this gateway, no queue exceeds 500 entries, and no firmware upgrade has been queued: requests of
  the types 27 and 28 all fail.\<close>

theorem messages_keep_ok:
  assumes "validate_request_ids hash_order message gateway_id m = Some m'" and "mqtt_ok gateway_id m"
  shows "mqtt_ok gateway_id m'"
proof -
  have "validate_commands hash_order gateway_id cs m = Some m1 \<Longrightarrow> mqtt_ok gateway_id m \<Longrightarrow> mqtt_ok gateway_id m1" for cs m m1
    by (induction cs arbitrary: m) (auto split: bind_splits dest: request_keeps_ok)
  moreover have "mqtt_ok gateway_id (m\<lparr>ODM_Flag := 1\<rparr>) = mqtt_ok gateway_id m" for m
    by (simp add: mqtt_ok_def)
  ultimately show ?thesis
    using assms unfolding validate_request_ids_def Let_def by (auto split: if_splits bind_splits)
qed

text \<open>A cancel message removes from the queues exactly the requests with one of its ids, keeps the
  order of the others, and hands over each id for the database.\<close>

theorem cancel_message:
  assumes "list_all (\<lambda>i. CHR '':'' \<notin> set i \<and> CHR ''-'' \<notin> set i) ids"
  shows "validate_request_ids hash_order (joined CHR '':'' (''CANCEL'' # ids)) gateway_id m
    = Some (m\<lparr>ODM := filter (\<lambda>c. hd (explode c CHR '':'') \<notin> set ids) (ODM m),
        RF_Meter_FUOTA := filter (\<lambda>c. hd (explode c CHR '':'') \<notin> set ids) (RF_Meter_FUOTA m),
        cancelled_requests := cancelled_requests m @ hash_order ids, ODM_Flag := 1\<rparr>)"
proof -
  have "fields (joined CHR '':'' (''CANCEL'' # ids)) = ''CANCEL'' # ids"
    using assms by (intro explode_tokens) (auto simp: list_all_iff)
  moreover have "CHR ''-'' \<notin> set (joined CHR '':'' (''CANCEL'' # ids))"
    using assms joined_chars [of "CHR '':''" "''CANCEL'' # ids"] by (auto simp: list_all_iff)
  ultimately show ?thesis
    by (simp add: plain_message validate_request_def cancel_command_def remove_commands_filter)
qed

lemma hex_to_bytes_loop_None:
  "i < length hex div 2 \<Longrightarrow> stoi 16 [hex ! (2 * i), hex ! (2 * i + 1)] = None \<Longrightarrow> hex_to_bytes_loop hex = None"
proof (induction i arbitrary: hex)
  case 0
  then obtain a b r where "hex = a # b # r"
    by (cases hex rule: hex_to_bytes_loop.cases) auto
  with 0 show ?case by simp
next
  case (Suc i)
  then obtain a b r where h: "hex = a # b # r"
    by (cases hex rule: hex_to_bytes_loop.cases) auto
  with Suc.prems have "hex_to_bytes_loop r = None" by (intro Suc.IH) simp_all
  with h show ?case by (simp split: bind_splits)
qed

text \<open>The digits of a command are converted with \<open>stoi\<close>, whose exception nothing catches: a request
  that is right up to two characters of its command that are no hexadecimal number ends the
  program.\<close>

theorem bad_hex_ends_program:
  assumes "explode cmd CHR '':'' = parts" and "length parts \<in> {6, 7, 8}" and "\<not> (length parts = 6 \<and> parts ! DOWNLOAD_DATA_TYPE = ''13'')"
    and "list_all (isdigit_base 10) (parts ! REQUEST_ID)" and "parts ! REQUEST_ID \<notin> set (seen_ids (parts ! DOWNLOAD_DATA_TYPE) m)"
    and "length gateway_id = 16" and "parts ! GATEWAY_ID = gateway_id" and "request_route gateway_id parts h"
    and "parts ! DOWNLOAD_DATA_TYPE \<in> set allowed_cmds" and "even (length (parts ! COMMAND))"
    and "i < length (parts ! COMMAND) div 2" and "stoi 16 [parts ! COMMAND ! (2 * i), parts ! COMMAND ! (2 * i + 1)] = None"
  shows "validate_request hash_order gateway_id cmd m = None"
proof -
  obtain ok m1 where c: "check_request_id (parts ! 0) (parts ! DOWNLOAD_DATA_TYPE) m = (ok, m1)" by fastforce
  have ok: ok using check_request_id_outcome [OF c] assms(4,5) by simp
  have "Validate_command parts = None"
    using hex_to_bytes_loop_None [OF assms(11,12)] assms(10) by (simp add: Validate_command_def hex_to_bytes_def split: bind_splits)
  moreover have "check_dest_addr gateway_id parts = Some True" using check_dest_addr_True assms(6-8) by blast
  ultimately have "part_check gateway_id parts 1 = Some True" "part_check gateway_id parts 2 = Some True"
    "part_check gateway_id parts 3 = Some True" "part_check gateway_id parts 4 = Some True" "part_check gateway_id parts 5 = None"
    using assms(6,7,9) by (simp_all add: part_check_def)
  moreover have "\<exists>rest. [1..<length parts] = 1 # 2 # 3 # 4 # 5 # rest"
    using assms(2) by (elim insertE emptyE) (simp_all only: upt_parts, blast+)
  ultimately have "allB (map (part_check gateway_id parts) [1..<length parts]) = None" by auto
  then have "validate_parts gateway_id parts [0..<length parts] m = None"
    using c ok assms(2) by (subst validate_parts_split) auto
  moreover have "parts ! 0 = hd parts" using assms(2) by (intro hd_conv_nth [symmetric]) auto
  then have "hd parts \<noteq> ''CANCEL''"
    using assms(4) by (auto simp: isdigit_base_def hexval_def)
  ultimately show ?thesis using assms(1-3) unfolding validate_request_def Let_def by auto
qed

section \<open>Concrete inputs\<close>

definition example_gateway_id :: cstr where
  "example_gateway_id = ''3CC1F601A3535435''"

definition example_request :: "cstr \<Rightarrow> cstr" where
  "example_request ident = joined CHR '':'' [ident, example_gateway_id, ''1'', example_gateway_id @ ''3CC1F60100000045'', ''01'', ''2D0A0E0001010000'']"

definition example_mqtt :: mqtt where
  "example_mqtt = \<lparr>ODM = [], Failed = [], RF_Meter_FUOTA = [], RFMeterFUOTA = [], cancelled_requests = [],
     global_seen_req_ids = [], special_req_ids = [], FUOTA_req_ids = [], ODM_Flag = 0\<rparr>"

lemma example_request_fields:
  "CHR '':'' \<notin> set ident \<Longrightarrow> explode (example_request ident) CHR '':''
     = [ident, example_gateway_id, ''1'', example_gateway_id @ ''3CC1F60100000045'', ''01'', ''2D0A0E0001010000'']"
  unfolding example_request_def by (rule explode_tokens) (auto simp: example_gateway_id_def)

lemma example_well_formed: "ident \<in> {''1'', ''2''} \<Longrightarrow> well_formed_request example_gateway_id (explode (example_request ident) CHR '':'')"
proof -
  let ?ps = "\<lambda>ident. [ident, example_gateway_id, ''1'', example_gateway_id @ ''3CC1F60100000045'', ''01'', ''2D0A0E0001010000'']"
  have "allB (map (part_check example_gateway_id (?ps ''1'')) [1..<length (?ps ''1'')]) = Some True"
    "allB (map (part_check example_gateway_id (?ps ''2'')) [1..<length (?ps ''2'')]) = Some True" by code_simp+
  then have "well_formed_request example_gateway_id (?ps ''1'')" "well_formed_request example_gateway_id (?ps ''2'')"
    using parts_accepted [of "?ps ''1''"] parts_accepted [of "?ps ''2''"] by (auto simp: isdigit_base_def hexval_def)
  then show "ident \<in> {''1'', ''2''} \<Longrightarrow> ?thesis" by (auto simp: example_request_fields)
qed

lemma example_chars: "ident \<in> {''1'', ''2''} \<Longrightarrow> CHR ''-'' \<notin> set (example_request ident)"
  by (auto simp: example_request_def example_gateway_id_def)

lemma example_ok: "mqtt_ok example_gateway_id example_mqtt" "known_ids example_mqtt = {}"
  by (simp_all add: mqtt_ok_def known_ids_def example_mqtt_def)

lemma example_unseen: "seen_ids t example_mqtt = []"
  by (simp add: seen_ids_def example_mqtt_def)

lemma example_run:
  assumes "ident \<in> {''1'', ''2''}"
  shows "\<exists>m1. validate_request hash_order example_gateway_id (example_request ident) example_mqtt = Some (enqueue_odm (example_request ident) m1)"
proof -
  have "acceptable example_gateway_id (example_request ident) example_mqtt"
    using example_well_formed [OF assms] by (simp add: example_unseen)
  then show ?thesis
    using accepted_request [OF _ well_formed_not_cancel [OF example_well_formed [OF assms]]] by blast
qed

theorem fuota_queues_refine_witness:
  "taken dequeue_fuota 2 (fold enqueue_fuota [''a'', ''b'', ''c''] example_mqtt) = [''a'', ''b'']"
  using fuota_queues_refine [of example_mqtt 2 "[''a'', ''b'', ''c'']"] by (simp add: example_mqtt_def latest_def)

theorem request_verdict_witness:
  "\<exists>m'. validate_request id example_gateway_id (example_request ''1'') example_mqtt = Some m' \<and> ODM m' = [example_request ''1'']"
proof -
  obtain m1 where r: "validate_request id example_gateway_id (example_request ''1'') example_mqtt = Some m1"
    using example_run [of "''1''"] by blast
  from request_verdict [OF well_formed_not_cancel [OF example_well_formed] _ _ r] r example_well_formed [of "''1''"]
  show ?thesis by (simp add: example_unseen) (simp add: example_mqtt_def latest_def)
qed

theorem batch_queued_witness:
  "\<exists>m'. validate_request_ids id (''7'' @ CHR '':'' # joined CHR ''-'' [example_request ''1'', example_request ''2'']) example_gateway_id example_mqtt = Some m'
    \<and> ODM m' = [example_request ''1'', example_request ''2'']"
proof -
  have "\<exists>m'. validate_request_ids id (''7'' @ CHR '':'' # joined CHR ''-'' [example_request ''1'', example_request ''2'']) example_gateway_id example_mqtt = Some m'
    \<and> ODM m' = latest 500 (ODM example_mqtt @ [example_request ''1'', example_request ''2'']) \<and> Failed m' = Failed example_mqtt \<and> ODM_Flag m' = 1"
  proof (rule batch_queued)
    fix c assume "c \<in> set [example_request ''1'', example_request ''2'']"
    then consider "c = example_request ''1''" | "c = example_request ''2''" by auto
    then show "CHR ''-'' \<notin> set c \<and> well_formed_request example_gateway_id (explode c CHR '':'')"
      by cases (simp_all only: example_chars example_well_formed insertI1 insertI2 simp_thms)
  qed (simp_all add: example_request_fields example_ok, simp add: example_mqtt_def)
  then show ?thesis by (auto simp: example_mqtt_def latest_def)
qed

theorem messages_keep_ok_witness:
  "\<exists>m'. validate_request_ids id (example_request ''1'') example_gateway_id example_mqtt = Some m' \<and> mqtt_ok example_gateway_id m'"
proof -
  obtain m' where r: "validate_request_ids id (example_request ''1'') example_gateway_id example_mqtt = Some m'"
    using example_run [of "''1''" id] by (auto simp: plain_message example_chars)
  from messages_keep_ok [OF r example_ok(1)] r show ?thesis by blast
qed

theorem cancel_message_witness:
  "validate_request_ids id ''CANCEL:1:2'' example_gateway_id example_mqtt
    = Some (example_mqtt\<lparr>cancelled_requests := [''1'', ''2''], ODM_Flag := 1\<rparr>)"
  using cancel_message [of "[''1'', ''2'']" id example_gateway_id example_mqtt] by (auto simp: example_mqtt_def)

definition example_bad_request :: cstr where
  "example_bad_request = joined CHR '':'' [''1'', example_gateway_id, ''0'', example_gateway_id, ''01'', ''xy'']"

theorem bad_hex_ends_program_witness:
  "validate_request id example_gateway_id example_bad_request example_mqtt = None"
proof (rule bad_hex_ends_program [where h = 0 and i = 0])
  show "explode example_bad_request CHR '':'' = [''1'', example_gateway_id, ''0'', example_gateway_id, ''01'', ''xy'']"
    unfolding example_bad_request_def by (rule explode_tokens) (auto simp: example_gateway_id_def)
  have "stoi 10 ''0'' = Some 0" by code_simp
  then show "request_route example_gateway_id [''1'', example_gateway_id, ''0'', example_gateway_id, ''01'', ''xy''] 0"
    by (simp add: request_route_def example_gateway_id_def)
  have "stoi 16 ''xy'' = None" by code_simp
  then show "stoi 16 [[''1'', example_gateway_id, ''0'', example_gateway_id, ''01'', ''xy''] ! COMMAND ! (2 * 0),
      [''1'', example_gateway_id, ''0'', example_gateway_id, ''01'', ''xy''] ! COMMAND ! (2 * 0 + 1)] = None" by simp
qed (simp_all add: example_gateway_id_def example_mqtt_def seen_ids_def allowed_cmds_def isdigit_base_def hexval_def)

end
