(* ===== verification/On_Demand.thy ===== *)
theory On_Demand
  imports Mqtt Transmit Frames Nodes
begin

text \<open>
  The execution of the queued requests (\<open>HES/src/client.cpp\<close>): \<open>process_ondemand_request\<close> with its queues, and
  \<open>Process_ODM_request\<close>, which sends one command, waits for the answers, asks for further pages, resends
  and reconnects.  Updates of the status of a request in the database are entries of a log.
\<close>

section \<open>State\<close>

text \<open>\<open>RequestStatus\<close> of \<open>String_functions.h\<close>.\<close>

abbreviation (input) IN_PROGRESS :: int where "IN_PROGRESS \<equiv> 2"
abbreviation (input) SUCCESS_STATUS :: int where "SUCCESS_STATUS \<equiv> 3"
abbreviation (input) RETRY_IN_PROGRESS :: int where "RETRY_IN_PROGRESS \<equiv> 4"
abbreviation (input) CANCELLED :: int where "CANCELLED \<equiv> 5"
abbreviation (input) FAILED_INVALID_REQUEST :: int where "FAILED_INVALID_REQUEST \<equiv> 6"
abbreviation (input) FAILED_RF_TIMEOUT :: int where "FAILED_RF_TIMEOUT \<equiv> 7"
abbreviation (input) FAILED_NO_GW_RESPONSE :: int where "FAILED_NO_GW_RESPONSE \<equiv> 8"
abbreviation (input) DLMS_FAILED :: int where "DLMS_FAILED \<equiv> 11"
abbreviation (input) FAILED_PMESH_ERROR :: int where "FAILED_PMESH_ERROR \<equiv> 12"
abbreviation (input) PING_NODE :: u8 where "PING_NODE \<equiv> 0x0D"
abbreviation (input) PING_METER :: u8 where "PING_METER \<equiv> 0x0E"

text \<open>What is written to the database: the status of a request with its error code, the status of a ping
  request, the row of a ping (the id and status), the data of a successful request by its type, and
  whether the gateway is in use.\<close>

datatype request_op =
    UpdateStatus int int u16
  | UpdatePingStatus int int
  | UpdatePing int int
  | InsertPing int int
  | UpdateOdmDb u8
  | NmsSync int

record db_parameters =
  req_id :: int
  meter_mac_address :: cstr
  meter_serial_no :: cstr

definition no_parameters :: db_parameters where
  "no_parameters = \<lparr>req_id = 0, meter_mac_address = [], meter_serial_no = []\<rparr>"

text \<open>The part of a \<open>Client\<close> that only on-demand requests use, around the client itself and its queues.
  \<open>ping_ids\<close> is \<open>pingnode_detail.request_id\<close>.  The last three fields are what the database will answer:
  to the queries of \<open>hes_nms_sync_time\<close> (the rows, None when the query fails, whether the update after
  it succeeds and whether two minutes have passed then) and of the routes known.\<close>

record on_demand =
  cl :: client
  mq :: mqtt
  retry :: u8
  Pmesh_header :: bytes
  pp_write_payload_tail :: u32
  ping_count :: u64
  ping_ids :: "int list"
  DB_parameter :: db_parameters
  request_log :: "request_op list"
  sync_answers :: "(cstr list option \<times> bool \<times> bool) list"
  known_paths :: "cstr list option"

text \<open>What \<open>update_odm_db\<close> answers for a data type, given the data the client collected.\<close>

type_synonym odm_update = "u8 \<Rightarrow> odm_call list \<Rightarrow> bool option"

definition log_op :: "request_op \<Rightarrow> on_demand \<Rightarrow> on_demand" where
  "log_op entry s = s\<lparr>request_log := request_log s @ [entry]\<rparr>"

definition on_client :: "(client \<Rightarrow> ('a \<times> client) option) \<Rightarrow> on_demand \<Rightarrow> ('a \<times> on_demand) option" where
  "on_client f s = map_option (\<lambda>(r, c). (r, s\<lparr>cl := c\<rparr>)) (f (cl s))"

abbreviation forget_address :: "on_demand \<Rightarrow> on_demand" where
  "forget_address s \<equiv> s\<lparr>cl := (cl s)\<lparr>src_addr_check_buffer := replicate 4 0\<rparr>\<rparr>"

section \<open>The frame of a request\<close>

text \<open>The frame is a vector \<open>buf\<close> of which the first \<open>len\<close> bytes are sent.\<close>

definition wr :: "bytes \<Rightarrow> nat \<Rightarrow> u8 \<Rightarrow> bytes option" where
  "wr buf i v = (if i < length buf then Some (buf[i := v]) else None)"

definition get :: "bytes \<Rightarrow> nat \<Rightarrow> u8 option" where
  "get buf i = (if i < length buf then Some (buf ! i) else None)"

text \<open>The sum over an array index that starts behind the end is over nothing.\<close>

definition recalculate_dlms_checksum :: "bytes \<Rightarrow> nat \<Rightarrow> bytes option" where
  "recalculate_dlms_checksum buf total_length =
     (if total_length < 18 then Some buf
      else do {
        hop_count \<leftarrow> get buf 12;
        let DLMS_START = (if hop_count = 0 \<or> hop_count = 1 then 0x11 else 17 + (unat hop_count - 1) * 4);
        start \<leftarrow> get buf DLMS_START;
        if start \<noteq> 0x2B then Some buf
        else do {
          dlms \<leftarrow> mapM (get buf) [DLMS_START..<total_length - 1];
          wr buf (total_length - 1) (checksum8 dlms)
        }
      })"

text \<open>The next page is asked for by its index, and the checksum grows by one with it.\<close>

definition page_in_frame :: "bytes \<Rightarrow> nat \<Rightarrow> u8 \<Rightarrow> bytes option" where
  "page_in_frame buf len page_index = do {
     hop_count \<leftarrow> get buf 12;
     let offset = unat (if hop_count = 0 then 19 else word_of_nat (19 + (unat hop_count - 1) * 4) :: u8);
     last_byte \<leftarrow> (if len = 0 then None else get buf (len - 1));
     buf \<leftarrow> wr buf offset page_index;
     wr buf (len - 1) (last_byte + 1)
   }"

text \<open>The last \<open>n\<close> bytes of the first request, with its time range, give way to the command for a page;
  lengths below \<open>n\<close> wrap around, so the write is far outside.\<close>

definition range_to_page :: "bytes \<Rightarrow> nat \<Rightarrow> nat \<Rightarrow> bytes \<Rightarrow> (bytes \<times> nat) option" where
  "range_to_page buf len n next_page =
     (if len < n \<or> length buf < len then None
      else do {
        let start = len - n;
        let len' = start + 8;
        buf \<leftarrow> wr buf 1 (word_of_nat (len' - 1));
        let buf = take start buf @ replicate n 0 @ drop len buf;
        Some (take start buf @ next_page @ drop (start + length next_page) buf, len')
      })"

definition next_page_dlp :: "u8 \<Rightarrow> bytes" where
  "next_page_dlp download_data_type = [0x2B, 0x07, 0x01, 0x0E, download_data_type, 0x00, 0x00, 0x41 + download_data_type]"

definition next_page_frame :: "u8 \<Rightarrow> u8 \<Rightarrow> bytes \<Rightarrow> nat \<Rightarrow> (bytes \<times> nat) option" where
  "next_page_frame download_data_type page_index buf len =
     (if download_data_type = 2 \<and> page_index = 1 then range_to_page buf len 13 (next_page_dlp download_data_type)
      else if (download_data_type = 3 \<or> download_data_type = 4) \<and> page_index = 1
      then range_to_page buf len 18 (next_page_dlp download_data_type)
      else map_option (\<lambda>buf. (buf, len)) (page_in_frame buf len page_index))"

section \<open>One request\<close>

definition resend_packet :: "bytes \<Rightarrow> nat \<Rightarrow> on_demand \<Rightarrow> (bool \<times> on_demand) option" where
  "resend_packet buf len s = map_option (\<lambda>(w, s). (w = SUCCESS, s)) (on_client (write_to_client (take len buf)) s)"

text \<open>The frame, its length and the page index are changed even when sending fails; the index is
  incremented only after it.\<close>

definition handle_next_page :: "bytes \<Rightarrow> nat \<Rightarrow> u8 \<Rightarrow> u8 \<Rightarrow> on_demand \<Rightarrow> (bool \<times> bytes \<times> nat \<times> u8 \<times> on_demand) option" where
  "handle_next_page buf len download_data_type page_index s = do {
     _ \<leftarrow> get buf 12;
     (buf, len) \<leftarrow> next_page_frame download_data_type page_index buf len;
     (sent, s) \<leftarrow> resend_packet buf len s;
     Some (sent, buf, len, if sent then page_index + 1 else page_index, s)
   }"

definition DLMS_Enable :: bytes where
  "DLMS_Enable = [0x2B, 0x07, 0x00, 0x00, 0x00, 0x02, 0x01, 0x35]"

text \<open>\<open>this->retry < 3\<close> with \<open>n\<close> passes left at most.\<close>

fun reconnect_loop :: "hooks \<Rightarrow> nat \<Rightarrow> on_demand \<Rightarrow> (bool option \<times> on_demand) option" where
  "reconnect_loop h 0 s = Some (None, s)"
| "reconnect_loop h (Suc n) s = do {
     let s = s\<lparr>retry := retry s + 1\<rparr>;
     (w, s) \<leftarrow> on_client (write_to_client (Pmesh_header s)) s;
     if w \<noteq> SUCCESS then Some (Some False, s)
     else do {
       (ret, s) \<leftarrow> on_client (receive_data_and_validate_response h) s;
       if ret = DLMS_SUCCESS then Some (Some True, s\<lparr>retry := 1\<rparr>) else reconnect_loop h n s
     }
   }"

definition handle_connection_failed :: "hooks \<Rightarrow> int \<Rightarrow> on_demand \<Rightarrow> (bool \<times> on_demand) option" where
  "handle_connection_failed h request_id s = do {
     (r, s) \<leftarrow> reconnect_loop h (3 - unat (retry s)) (s\<lparr>Pmesh_header := Pmesh_header s @ DLMS_Enable\<rparr>);
     Some (case r of Some ok \<Rightarrow> (ok, s)
       | None \<Rightarrow> (False, log_op (UpdateStatus request_id DLMS_FAILED 0) s))
   }"

definition validate_response_frame :: "bytes \<Rightarrow> on_demand \<Rightarrow> bool option" where
  "validate_response_frame buf s =
     (let rx = client_rx_buffer (cl s) in do {
        frame_id \<leftarrow> get buf 20;
        if frame_id = 0x0E then do {
          rx22 \<leftarrow> get rx 22;
          b21 \<leftarrow> get buf 21;
          if rx22 \<noteq> b21 then Some False
          else if b21 = 0x08 then do {
            rx23 \<leftarrow> get rx 23;
            b22 \<leftarrow> get buf 22;
            Some (rx23 = b22)
          }
          else Some True
        }
        else if frame_id = 0x0F then do {
          rx23 \<leftarrow> get rx 23;
          b22 \<leftarrow> get buf 22;
          if rx23 \<noteq> b22 then do {
            rx22 \<leftarrow> get rx 22;
            b21 \<leftarrow> get buf 21;
            Some (rx22 = b21)
          }
          else Some True
        }
        else Some True
      })"

definition handle_success :: "odm_update \<Rightarrow> u8 \<Rightarrow> bytes \<Rightarrow> on_demand \<Rightarrow> (bool \<times> on_demand) option" where
  "handle_success update_odm_db download_data_type buf s = do {
     packet_type \<leftarrow> get buf 2;
     ok \<leftarrow> (if packet_type \<noteq> 0x0E then validate_response_frame buf s else Some True);
     if \<not> ok then Some (False, s)
     else do {
       result \<leftarrow> update_odm_db download_data_type (odm_log (cl s));
       Some (result, (log_op (UpdateOdmDb download_data_type) s)\<lparr>DB_parameter := no_parameters\<rparr>)
     }
   }"

text \<open>\<open>back()\<close> of an empty vector is undefined.\<close>

definition Update_Insert_Ping_request :: "u8 \<Rightarrow> int \<Rightarrow> on_demand \<Rightarrow> on_demand option" where
  "Update_Insert_Ping_request download_type status s =
     (if download_type = PING_NODE \<and> ping_count s \<noteq> 0
      then if ping_ids s = [] then None else Some (log_op (InsertPing (last (ping_ids s)) status) s)
      else Some (log_op (UpdatePing (req_id (DB_parameter s)) status) s))"

text \<open>The variables of the loop of \<open>Process_ODM_request\<close>: the frame with its length, the page to ask for,
  the counters of silence and of checksum errors, whether a retry was not yet reported (\<open>once\<close>), and whether an
  answer came that was not for this request (\<open>invalid_resp\<close>).\<close>

record exchange =
  frame :: bytes
  frame_len :: nat
  page_no :: u8
  poll_retry :: u8
  once :: bool
  invalid_resp :: bool
  checksum_retry :: u8

text \<open>What the loop does with a result; the outcome tells whether it goes on.\<close>

definition odm_timeout :: "int \<Rightarrow> exchange \<Rightarrow> on_demand \<Rightarrow> (bool \<times> exchange \<times> on_demand) option" where
  "odm_timeout request_id x s =
     (if retry s = 3 then Some (False, x, (log_op (UpdateStatus request_id FAILED_RF_TIMEOUT 0) s)\<lparr>retry := 1\<rparr>)
      else do {
        let (x, s) = (if once x then (x\<lparr>once := False\<rparr>, log_op (UpdateStatus request_id RETRY_IN_PROGRESS 0) s) else (x, s));
        (sent, s) \<leftarrow> resend_packet (frame x) (frame_len x) (s\<lparr>retry := retry s + 1\<rparr>);
        Some (sent, x, s)
      })"

definition odm_connection_failed :: "hooks \<Rightarrow> int \<Rightarrow> exchange \<Rightarrow> on_demand \<Rightarrow> (bool \<times> exchange \<times> on_demand) option" where
  "odm_connection_failed h request_id x s =
     (if retry s = 3 then Some (False, x, (log_op (UpdateStatus request_id FAILED_RF_TIMEOUT 0) s)\<lparr>retry := 1\<rparr>)
      else do { (ok, s) \<leftarrow> handle_connection_failed h request_id s; Some (ok, x, s) })"

definition odm_silence :: "int \<Rightarrow> u8 \<Rightarrow> exchange \<Rightarrow> on_demand \<Rightarrow> (bool \<times> exchange \<times> on_demand) option" where
  "odm_silence request_id download_data_type x s =
     (if download_data_type = PING_NODE then do {
        s \<leftarrow> Update_Insert_Ping_request download_data_type FAILED_NO_GW_RESPONSE s;
        Some (False, x, s)
      }
      else if poll_retry x < 3 then do {
        (sent, s) \<leftarrow> resend_packet (frame x) (frame_len x) s;
        Some (sent, x\<lparr>poll_retry := poll_retry x + 1\<rparr>, s)
      }
      else (let s = (if \<not> invalid_resp x then s\<lparr>cl := (cl s)\<lparr>gatewayStatus := DISCONNECTED\<rparr>\<rparr> else s)
        in Some (False, x, forget_address (log_op (UpdateStatus request_id FAILED_NO_GW_RESPONSE 0) s))))"

definition odm_checksum_error :: "int \<Rightarrow> exchange \<Rightarrow> on_demand \<Rightarrow> (bool \<times> exchange \<times> on_demand) option" where
  "odm_checksum_error request_id x s = do {
     let tries = checksum_retry x + 1;
     buf \<leftarrow> recalculate_dlms_checksum (frame x) (frame_len x);
     let x = x\<lparr>frame := buf, checksum_retry := tries\<rparr>;
     (sent, s) \<leftarrow> resend_packet buf (frame_len x) s;
     Some (if \<not> sent then (False, x, forget_address (log_op (UpdateStatus request_id FAILED_PMESH_ERROR 0) s))
       else if tries > 3 then (False, x, log_op (UpdateStatus request_id DLMS_FAILED 0) s)
       else (True, x, s))
   }"

definition odm_error_code :: "on_demand \<Rightarrow> u16 option" where
  "odm_error_code s = do {
     hi \<leftarrow> rd (client_rx_buffer (cl s), buffer_rx_length (cl s)) (- 3);
     lo \<leftarrow> rd (client_rx_buffer (cl s), buffer_rx_length (cl s)) (- 2);
     Some (push_bit 8 (ucast hi) OR ucast lo)
   }"

definition odm_step :: "hooks \<Rightarrow> odm_update \<Rightarrow> int \<Rightarrow> u8 \<Rightarrow> int \<Rightarrow> exchange \<Rightarrow> on_demand \<Rightarrow>
    (bool \<times> exchange \<times> on_demand) option" where
  "odm_step h update_odm_db request_id download_data_type ret x s =
     (if ret = SUCCESS then do {
        (ok, s) \<leftarrow> handle_success update_odm_db download_data_type (frame x) (s\<lparr>retry := 1\<rparr>);
        Some (\<not> ok, x, s)
      }
      else if ret = DLMS_SUCCESS then do {
        (sent, s) \<leftarrow> resend_packet (frame x) (frame_len x) s;
        Some (sent, x, s)
      }
      else if ret = PMESH_ERROR then
        (if download_data_type = PING_NODE then do {
           s \<leftarrow> Update_Insert_Ping_request download_data_type FAILED_PMESH_ERROR s;
           Some (False, x, s)
         }
         else Some (False, x, log_op (UpdateStatus request_id FAILED_PMESH_ERROR 0) s))
      else if ret = TIMEOUT_RECEIVED then odm_timeout request_id x s
      else if ret = DLMS_CONNECTION_FAILED then odm_connection_failed h request_id x s
      else if ret = FAILED_PMESH_ERROR
      then Some (False, x, forget_address (log_op (UpdateStatus request_id FAILED_PMESH_ERROR 0) s))
      else if ret = DLMS_ERROR then do {
        dlms_error_code \<leftarrow> odm_error_code s;
        Some (False, x, forget_address (log_op (UpdateStatus request_id SUCCESS_STATUS dlms_error_code) s))
      }
      else if ret = POLL_TIMEOUT then odm_silence request_id download_data_type x s
      else if ret = SUCCES_NEXT_PAGE then do {
        let s = s\<lparr>retry := 1, cl := (cl s)\<lparr>tx_page_index := tx_page_index (cl s) + 1\<rparr>\<rparr>;
        (ok, buf, len, page_index, s) \<leftarrow> handle_next_page (frame x) (frame_len x) download_data_type (page_no x) s;
        Some (ok, x\<lparr>frame := buf, frame_len := len, page_no := page_index, poll_retry := 1\<rparr>, s)
      }
      else if ret = INVALID_RESPONSE \<or> ret = COMMAND_IN_PROGRESS then Some (True, x\<lparr>invalid_resp := True\<rparr>, s)
      else if ret = DLMS_CHECKSUM_ERROR then odm_checksum_error request_id x s
      else Some (True, x, s))"

section \<open>The loop ends\<close>

lemma receive_progress:
  assumes "receive_data_and_validate_response h c = Some (ret, c')"
  shows "pending c' \<le> pending c" and "ret \<noteq> POLL_TIMEOUT \<Longrightarrow> pending c' < pending c"
proof -
  from assms obtain k b c1 where r: "receive_data 4096 c = Some (k, b, c1)"
    unfolding receive_data_and_validate_response_def by (auto split: bind_splits)
  have "k > 0 \<Longrightarrow> client_received_data h (b, 0) k c1 = Some (ret, c')" and "\<not> k > 0 \<Longrightarrow> ret = POLL_TIMEOUT \<and> c' = c1"
    using assms r unfolding receive_data_and_validate_response_def by (auto split: if_splits)
  with receive_data_pending [OF r] show "pending c' \<le> pending c" "ret \<noteq> POLL_TIMEOUT \<Longrightarrow> pending c' < pending c"
    by (cases "k > 0"; fastforce dest: client_received_data_pending)+
qed

text \<open>What is still to come, seen from the whole state.\<close>

abbreviation to_come :: "on_demand \<Rightarrow> nat" where
  "to_come s \<equiv> pending (cl s)"

named_theorems to_come_le "operations that take nothing back"

lemma on_client_to_come:
  "on_client f s = Some (r, s') \<Longrightarrow> (\<And>r c'. f (cl s) = Some (r, c') \<Longrightarrow> pending c' \<le> pending (cl s)) \<Longrightarrow> to_come s' \<le> to_come s"
  by (auto simp: on_client_def)

lemma log_op_cl [simp]: "cl (log_op e s) = cl s"
  by (simp add: log_op_def)

lemma write_to_come [to_come_le]: "on_client (write_to_client b) s = Some (w, s') \<Longrightarrow> to_come s' \<le> to_come s"
  by (erule on_client_to_come) (auto simp: pending_def dest: write_inbox)

lemma receive_to_come [to_come_le]:
  "on_client (receive_data_and_validate_response h) s = Some (r, s') \<Longrightarrow> to_come s' \<le> to_come s"
  by (erule on_client_to_come) (rule receive_progress)

lemma resend_to_come [to_come_le]: "resend_packet b n s = Some (r, s') \<Longrightarrow> to_come s' \<le> to_come s"
  by (auto simp: resend_packet_def dest: write_to_come)

lemma next_page_to_come [to_come_le]: "handle_next_page b n t p s = Some (r, b', n', p', s') \<Longrightarrow> to_come s' \<le> to_come s"
  by (auto simp: handle_next_page_def split: bind_splits dest: resend_to_come)

lemma reconnect_to_come [to_come_le]: "reconnect_loop h n s = Some (r, s') \<Longrightarrow> to_come s' \<le> to_come s"
  by (induction n arbitrary: s) (fastforce split: bind_splits if_splits dest: write_to_come receive_to_come)+

lemma connection_to_come [to_come_le]: "handle_connection_failed h i s = Some (r, s') \<Longrightarrow> to_come s' \<le> to_come s"
  by (fastforce simp: handle_connection_failed_def split: bind_splits option.splits dest: reconnect_to_come)

lemma handle_success_to_come [to_come_le]: "handle_success u t b s = Some (r, s') \<Longrightarrow> to_come s' \<le> to_come s"
  by (auto simp: handle_success_def split: bind_splits if_splits)

lemma ping_to_come [to_come_le]: "Update_Insert_Ping_request t r s = Some s' \<Longrightarrow> to_come s' \<le> to_come s"
  by (auto simp: Update_Insert_Ping_request_def split: if_splits)

lemma pending_fields [simp]:
  "pending (c\<lparr>tx_page_index := i\<rparr>) = pending c" "pending (c\<lparr>src_addr_check_buffer := b\<rparr>) = pending c"
  "pending (c\<lparr>gatewayStatus := g\<rparr>) = pending c"
  by (simp_all add: pending_def)

lemma odm_step_to_come:
  assumes "odm_step h u i t ret x s = Some (again, x', s')"
  shows "to_come s' \<le> to_come s"
    and "ret = POLL_TIMEOUT \<Longrightarrow> again \<Longrightarrow> poll_retry x < 3 \<and> poll_retry x' = poll_retry x + 1"
proof -
  show "to_come s' \<le> to_come s"
    using assms unfolding odm_step_def odm_timeout_def odm_connection_failed_def odm_silence_def odm_checksum_error_def
    by (auto split: if_splits bind_splits simp: Let_def dest!: to_come_le)
  show "ret = POLL_TIMEOUT \<Longrightarrow> again \<Longrightarrow> poll_retry x < 3 \<and> poll_retry x' = poll_retry x + 1"
    using assms unfolding odm_step_def odm_silence_def by (auto split: if_splits bind_splits simp: Let_def)
qed

function odm_loop :: "hooks \<Rightarrow> odm_update \<Rightarrow> int \<Rightarrow> u8 \<Rightarrow> exchange \<Rightarrow> on_demand \<Rightarrow> (exchange \<times> on_demand) option" where
  "odm_loop h update_odm_db request_id download_data_type x s =
     (case on_client (receive_data_and_validate_response h) s of None \<Rightarrow> None
      | Some (ret, s) \<Rightarrow> (case odm_step h update_odm_db request_id download_data_type ret x s of None \<Rightarrow> None
         | Some (again, x, s) \<Rightarrow>
             if again then odm_loop h update_odm_db request_id download_data_type x s else Some (x, s)))"
  by pat_completeness auto
termination
proof (relation "measures [\<lambda>(h, u, i, t, x, s). to_come s, \<lambda>(h, u, i, t, x, s). 3 - unat (poll_retry x)]", goal_cases)
  case (2 h u i t x s p ret s1 q again r x1 s2)
  then have r: "on_client (receive_data_and_validate_response h) s = Some (ret, s1)"
    and st: "odm_step h u i t ret x s1 = Some (again, x1, s2)" and again by simp_all
  from r have r': "receive_data_and_validate_response h (cl s) = Some (ret, cl s1)"
    by (auto simp: on_client_def)
  note le = odm_step_to_come [OF st] receive_progress [OF r']
  show ?case
  proof (cases "ret = POLL_TIMEOUT")
    case True
    then have p: "poll_retry x < 3" "poll_retry x1 = poll_retry x + 1" using le(2) \<open>again\<close> by auto
    then have "unat (poll_retry x1) = Suc (unat (poll_retry x))" "unat (poll_retry x) < 3"
      by (simp_all add: word_less_nat_alt unat_word_ariths)
    with le(1,3) show ?thesis by (auto simp: le_less)
  next
    case False
    with le show ?thesis by auto
  qed
qed simp

declare odm_loop.simps [simp del]

text \<open>The frame is an array of the caller, who gets it back as the loop left it.\<close>

definition Process_ODM_request ::
    "hooks \<Rightarrow> odm_update \<Rightarrow> bytes \<Rightarrow> int \<Rightarrow> u8 \<Rightarrow> on_demand \<Rightarrow> (bytes \<times> on_demand) option" where
  "Process_ODM_request h update_odm_db buf request_id download_data_type s = do {
     (w, s) \<leftarrow> on_client (write_to_client buf) (s\<lparr>cl := (cl s)\<lparr>tx_page_index := 0\<rparr>\<rparr>);
     if w \<noteq> SUCCESS then Some (buf, s)
     else do {
       let n = length buf;
       let s = (if 5 \<le> n \<and> download_data_type > 0x0F
         then s\<lparr>pp_write_payload_tail := push_bit 24 (ucast (buf ! (n - 5))) OR push_bit 16 (ucast (buf ! (n - 4)))
           OR push_bit 8 (ucast (buf ! (n - 3))) OR ucast (buf ! (n - 2))\<rparr> else s);
       (x, s) \<leftarrow> odm_loop h update_odm_db request_id download_data_type
         \<lparr>frame = buf, frame_len = n, page_no = 1, poll_retry = 1, once = True, invalid_resp = False, checksum_retry = 1\<rparr> s;
       Some (frame x, s)
     }
   }"

section \<open>The queues\<close>

text \<open>\<open>insert_update_hes_nms_sync_time\<close>, with whether two minutes have passed; without an answer in the
  list the gateway is not in use by the NMS.\<close>

definition insert_update_hes_nms_sync_time :: "int \<Rightarrow> on_demand \<Rightarrow> (int \<times> bool \<times> on_demand) option" where
  "insert_update_hes_nms_sync_time status s =
     (let (rows, ok, late, rest) = (case sync_answers s of [] \<Rightarrow> (Some [], True, False, []) | (rows, ok, late) # rest \<Rightarrow> (rows, ok, late, rest));
          s = s\<lparr>sync_answers := rest\<rparr>;
          written = Some (if ok then (SUCCESS, late, log_op (NmsSync status) s) else (FAILURE, late, s))
      in case rows of None \<Rightarrow> Some (FAILURE, late, s)
         | Some [row] \<Rightarrow> do {
             acquired \<leftarrow> atoi row;
             if status \<noteq> 0 \<and> acquired = 1 then Some (FAILURE, late, s) else written
           }
         | Some _ \<Rightarrow> written)"

text \<open>Waiting for the NMS, for two minutes at most; a call without an answer in the list succeeds.\<close>

fun wait_for_nms :: "hooks \<Rightarrow> nat \<Rightarrow> on_demand \<Rightarrow> on_demand option" where
  "wait_for_nms h n s = do {
     (r, late, s) \<leftarrow> insert_update_hes_nms_sync_time 1 s;
     if r = SUCCESS then Some s
     else do {
       (_, s) \<leftarrow> on_client (receive_data_and_validate_response h) s;
       if late then Some s else case n of 0 \<Rightarrow> Some s | Suc n \<Rightarrow> wait_for_nms h n s
     }
   }"

declare wait_for_nms.simps [simp del]

fun process_cancelled :: "cstr list \<Rightarrow> on_demand \<Rightarrow> on_demand option" where
  "process_cancelled [] s = Some (s\<lparr>mq := (mq s)\<lparr>cancelled_requests := []\<rparr>\<rparr>)"
| "process_cancelled (ident # rest) s = do {
     cancelled_req_id \<leftarrow> stoi 10 ident;
     process_cancelled rest (log_op (UpdateStatus cancelled_req_id CANCELLED 0) s)
   }"

text \<open>The id of a request, \<open>-1\<close> when there is none.\<close>

definition request_id_of :: "cstr list \<Rightarrow> int option" where
  "request_id_of parts = (if parts \<noteq> [] \<and> hd parts \<noteq> [] then stoi 10 (hd parts) else Some (- 1))"

definition fail_request :: "cstr \<Rightarrow> on_demand \<Rightarrow> on_demand option" where
  "fail_request cmd_str s = do {
     let parts = split cmd_str CHR '':'';
     request_id \<leftarrow> request_id_of parts;
     download_type \<leftarrow> (if parts = [] then Some 0 else do {
       p4 \<leftarrow> part parts 4;
       if p4 = [] then Some 0 else stoi 10 p4
     });
     Some (log_op (if download_type = 13 \<or> download_type = 14 then UpdatePingStatus request_id FAILED_INVALID_REQUEST
       else UpdateStatus request_id FAILED_INVALID_REQUEST 0) s)
   }"

fun process_failed :: "cstr list \<Rightarrow> on_demand \<Rightarrow> on_demand option" where
  "process_failed [] s = Some (s\<lparr>mq := (mq s)\<lparr>Failed := []\<rparr>\<rparr>)"
| "process_failed (cmd # rest) s = do { s \<leftarrow> fail_request cmd s; process_failed rest s }"

definition toupper :: "char \<Rightarrow> char" where
  "toupper c = (let n = of_char c :: nat in if 97 \<le> n \<and> n \<le> 122 then char_of (n - 32) else c)"

text \<open>\<open>memcmp\<close> reads as many characters as the route has from every row, its terminator included.\<close>

fun find_path :: "cstr \<Rightarrow> cstr list \<Rightarrow> bool option" where
  "find_path wanted [] = Some False"
| "find_path wanted (column # rows) =
     (if length column + 1 < length wanted then None
      else if wanted = take (length wanted) (column @ [CHR 0x00]) then Some True
      else find_path wanted rows)"

definition check_path_in_source_route_network :: "cstr list \<Rightarrow> int \<Rightarrow> on_demand \<Rightarrow> (bool \<times> on_demand) option" where
  "check_path_in_source_route_network parts request_id s = do {
     p3 \<leftarrow> part parts 3;
     if length p3 < 32 then Some (False, log_op (UpdateStatus request_id FAILED_PMESH_ERROR 0) s)
     else case known_paths s of None \<Rightarrow> Some (False, log_op (UpdateStatus request_id FAILED_PMESH_ERROR 0) s)
     | Some rows \<Rightarrow> map_option (\<lambda>found. (found, s)) (find_path (map toupper (drop 16 p3)) rows)
   }"

definition ping_node_details :: "cstr list \<Rightarrow> on_demand \<Rightarrow> on_demand option" where
  "ping_node_details parts s = do {
     p0 \<leftarrow> part parts 0;
     ident \<leftarrow> strtol_val 10 p0;
     Some (s\<lparr>ping_ids := ping_ids s @ [ident], ping_count := 0\<rparr>)
   }"

fun ping_loop :: "hooks \<Rightarrow> odm_update \<Rightarrow> bytes \<Rightarrow> int \<Rightarrow> u8 \<Rightarrow> nat \<Rightarrow> on_demand \<Rightarrow> on_demand option" where
  "ping_loop h update_odm_db command_data request_id download_data_type 0 s = Some (s\<lparr>ping_count := 0\<rparr>)"
| "ping_loop h update_odm_db command_data request_id download_data_type (Suc count) s = do {
     (command_data, s) \<leftarrow> Process_ODM_request h update_odm_db command_data request_id download_data_type s;
     ping_loop h update_odm_db command_data request_id download_data_type count (s\<lparr>ping_count := ping_count s + 1\<rparr>)
   }"

text \<open>The address of the meter: the last eight bytes of the route, and its serial number: the last four.\<close>

definition request_meter :: "cstr \<Rightarrow> (cstr \<times> cstr) option" where
  "request_meter p3 = do {
     meter_data \<leftarrow> convert_asc_hex_string_to_bytes (replicate (length p3 div 2) 0) p3 (length p3 div 2);
     if length meter_data < 8 then None
     else Some (bytes_to_hex_string (drop (length meter_data - 8) meter_data),
                bytes_to_hex_string (drop (length meter_data - 4) meter_data))
   }"

text \<open>One command of the ODM queue, after the check for cancelled requests; the result tells whether it
  leaves the queue.\<close>

definition execute_request :: "hooks \<Rightarrow> odm_update \<Rightarrow> cstr \<Rightarrow> on_demand \<Rightarrow> (bool \<times> on_demand) option" where
  "execute_request h update_odm_db cmd_str s = do {
     let parts = split cmd_str CHR '':'';
     request_id \<leftarrow> request_id_of parts;
     let s = log_op (UpdateStatus request_id IN_PROGRESS 0) s;
     p2 \<leftarrow> part parts 2;
     hop_count \<leftarrow> stoi 10 p2;
     p3 \<leftarrow> part parts 3;
     (mac, serial) \<leftarrow> request_meter p3;
     let s = s\<lparr>DB_parameter := \<lparr>req_id = request_id, meter_mac_address = mac, meter_serial_no = serial\<rparr>\<rparr>;
     (found, s) \<leftarrow> (if hop_count > 0 then check_path_in_source_route_network parts request_id s else Some (True, s));
     if \<not> found then Some (True, log_op (UpdateStatus request_id FAILED_INVALID_REQUEST 0) s)
     else do {
       p4 \<leftarrow> part parts 4;
       t \<leftarrow> stoi 10 p4;
       let download_data_type = word_of_int t;
       let s = s\<lparr>ping_count := 0\<rparr>;
       s \<leftarrow> (if download_data_type = PING_NODE \<or> download_data_type = PING_METER then ping_node_details parts s else Some s);
       s \<leftarrow> (if download_data_type = PING_NODE then do {
           let p5 = (if length parts > 5 then parts ! 5 else []);
           command_data \<leftarrow> convert_asc_hex_string_to_bytes (replicate (length p5 div 2) 0) p5 (length p5 div 2);
           p6 \<leftarrow> part parts 6;
           count \<leftarrow> stoi 10 p6;
           ping_loop h update_odm_db command_data request_id download_data_type (unat (word_of_int count :: u8)) s
         }
         else do {
           (pkt, header) \<leftarrow> build_pmesh_frame parts;
           (_, s) \<leftarrow> Process_ODM_request h update_odm_db pkt request_id download_data_type (s\<lparr>Pmesh_header := header\<rparr>);
           Some s
         });
       Some (gatewayStatus (cl s) \<noteq> DISCONNECTED, s)
     }
   }"

fun process_odm :: "hooks \<Rightarrow> odm_update \<Rightarrow> cstr list \<Rightarrow> on_demand \<Rightarrow> on_demand option" where
  "process_odm h update_odm_db [] s = Some s"
| "process_odm h update_odm_db (cmd # rest) s =
     (if cancelled_requests (mq s) \<noteq> [] then Some s
      else do {
        (executed, s) \<leftarrow> execute_request h update_odm_db cmd s;
        if executed then process_odm h update_odm_db rest (s\<lparr>mq := (mq s)\<lparr>ODM := rest\<rparr>\<rparr>) else Some s
      })"

text \<open>\<open>fuota->process_fuota_queue()\<close> is an argument; so are the answers of \<open>update_odm_db\<close>.\<close>

definition process_ondemand_request :: "hooks \<Rightarrow> odm_update \<Rightarrow> (on_demand \<Rightarrow> on_demand option) \<Rightarrow> on_demand \<Rightarrow> on_demand option" where
  "process_ondemand_request h update_odm_db process_fuota_queue s = do {
     s \<leftarrow> wait_for_nms h (length (sync_answers s)) s;
     s \<leftarrow> process_cancelled (cancelled_requests (mq s)) s;
     s \<leftarrow> process_failed (Failed (mq s)) s;
     s \<leftarrow> process_fuota_queue s;
     s \<leftarrow> process_odm h update_odm_db (ODM (mq s)) s;
     (_, _, s) \<leftarrow> insert_update_hes_nms_sync_time 0 (s\<lparr>mq := (mq s)\<lparr>ODM_Flag := 0\<rparr>\<rparr>);
     Some s
   }"

end
