(* ===== verification/On_Demand_Runs.thy ===== *)
theory On_Demand_Runs
  imports On_Demand Retries
begin

text \<open>
  What follows for the on-demand requests as a whole: an exchange ends, a silent gateway, the order in
  which requests are executed, the frames of further pages, and requests that the program does not
  survive.  No code of its own.
\<close>

section \<open>An exchange ends\<close>

text \<open>One pass of the loop of \<open>Process_ODM_request\<close> after which it goes on.\<close>

inductive odm_pass :: "hooks \<Rightarrow> odm_update \<Rightarrow> int \<Rightarrow> u8 \<Rightarrow> exchange \<times> on_demand \<Rightarrow> exchange \<times> on_demand \<Rightarrow> bool"
  for h u i t where
  pass: "on_client (receive_data_and_validate_response h) s = Some (ret, s1) \<Longrightarrow>
    odm_step h u i t ret x s1 = Some (True, x', s') \<Longrightarrow> odm_pass h u i t (x, s) (x', s')"

inductive_cases odm_passE: "odm_pass h u i t y y'"

definition passes_left :: "exchange \<times> on_demand \<Rightarrow> nat" where
  "passes_left y = 3 * to_come (snd y) + (3 - unat (poll_retry (fst y)))"

lemma odm_step_polls:
  "odm_step h u i t ret x s = Some (b, x', s') \<Longrightarrow> ret \<noteq> POLL_TIMEOUT \<Longrightarrow> poll_retry x' = poll_retry x \<or> poll_retry x' = 1"
  unfolding odm_step_def odm_timeout_def odm_connection_failed_def odm_checksum_error_def
  by (auto split: if_splits bind_splits simp: Let_def)

lemma odm_pass_progress:
  assumes "odm_pass h u i t y y'"
  shows "passes_left y' < passes_left y"
  using assms
proof cases
  case (pass s ret s1 x x' s')
  from pass(3) have r: "receive_data_and_validate_response h (cl s) = Some (ret, cl s1)"
    by (auto simp: on_client_def)
  note le = odm_step_to_come [OF pass(4)] receive_progress [OF r]
  show ?thesis
  proof (cases "ret = POLL_TIMEOUT")
    case True
    then have p: "poll_retry x < 3" "poll_retry x' = poll_retry x + 1" using le(2) by auto
    then have "unat (poll_retry x') = Suc (unat (poll_retry x))" "unat (poll_retry x) < 3"
      by (simp_all add: word_less_nat_alt unat_word_ariths)
    with le(1,3) pass(1,2) show ?thesis by (simp add: passes_left_def)
  next
    case False
    have "3 - unat (poll_retry x') \<le> 2 + (3 - unat (poll_retry x))"
      using odm_step_polls [OF pass(4) False] by auto
    with le(1,4) False pass(1,2) show ?thesis by (simp add: passes_left_def)
  qed
qed

text \<open>C19: the endless loop of an exchange ends: with so many receptions and bytes still to come, it makes
  at most three passes for each of them and three more, whatever the gateway answers.\<close>

theorem exchange_ends:
  assumes "(odm_pass h u i t ^^ n) (x, s) (x', s')"
  shows "n \<le> 3 * pending (cl s) + (3 - unat (poll_retry x))"
proof -
  have "(odm_pass h u i t ^^ n) y y' \<Longrightarrow> n + passes_left y' \<le> passes_left y" for n y y'
  proof (induction n arbitrary: y')
    case (Suc n)
    then obtain z where "(odm_pass h u i t ^^ n) y z" "odm_pass h u i t z y'" by auto
    with Suc.IH odm_pass_progress show ?case by fastforce
  qed simp
  from this [OF assms] show ?thesis by (simp add: passes_left_def)
qed

section \<open>A silent gateway\<close>

lemma awaits_frame:
  assumes "13 + 4 * max 1 (unat (buf ! 12)) \<le> length buf"
  obtains c1 where "get_destination_address (buf, 0) c = Some c1" "silent c1 = silent c" "wire c1 = wire c"
proof -
  have "13 < length buf" using assms by (simp add: max_def split: if_splits)
  then have "rd (buf, 0) 0 = Some (buf ! 0)" "rd (buf, 0) 2 = Some (buf ! 2)" "rd (buf, 0) 12 = Some (buf ! 12)"
    by (auto simp: rd.simps)
  moreover have "\<exists>a. rd_seq (buf, 0) (if buf ! 12 = 0 then 13 else 13 + (uint (buf ! 12) - 1) * 4) 4 = Some a"
  proof (rule rd_seq_spans [where m = "int (length buf)"])
    show "0 \<le> (if buf ! 12 = 0 then 13 else 13 + (uint (buf ! 12) - 1) * 4)" by simp
    have "buf ! 12 \<noteq> 0 \<Longrightarrow> 13 + 4 * unat (buf ! 12) \<le> length buf" and "17 \<le> length buf"
      using assms by (simp_all add: max_def unat_eq_zero [symmetric] split: if_splits)
    moreover from this(1) have "buf ! 12 \<noteq> 0 \<Longrightarrow> 13 + 4 * uint (buf ! 12) \<le> int (length buf)"
      unfolding uint_nat by linarith
    ultimately show "(if buf ! 12 = 0 then 13 else 13 + (uint (buf ! 12) - 1) * 4) + int 4 \<le> int (length buf)" by auto
  qed simp
  ultimately have "\<exists>c1. get_destination_address (buf, 0) c = Some c1 \<and> (c1 = c \<or> (\<exists>a. c1 = c\<lparr>src_addr_check_buffer := a, need_to_validate_src_addr := True\<rparr>))"
    by (auto simp: get_destination_address_def eqB_def)
  then show thesis using that by (auto simp: silent_def)
qed

lemma silent_write:
  assumes "13 + 4 * max 1 (unat (buf ! 12)) \<le> length buf" and "silent (cl s)"
  obtains s1 where "on_client (write_to_client buf) s = Some (SUCCESS, s1)" "silent (cl s1)" "wire (cl s1) = wire (cl s) @ [buf]"
    "s1 = s\<lparr>cl := cl s1\<rparr>"
proof -
  obtain c1 where c1: "get_destination_address (buf, 0) (cl s) = Some c1" "silent c1 = silent (cl s)" "wire c1 = wire (cl s)"
    using awaits_frame [OF assms(1)] by blast
  have "buf \<noteq> []" using assms(1) by auto
  with c1 assms(2) have "on_client (write_to_client buf) s = Some (SUCCESS, s\<lparr>cl := c1\<lparr>wire := wire c1 @ [buf]\<rparr>\<rparr>)"
    by (simp add: on_client_def write_to_client_def send_loop_all silent_def)
  with c1 assms(2) show thesis by (intro that [of "s\<lparr>cl := c1\<lparr>wire := wire c1 @ [buf]\<rparr>\<rparr>"]) (simp_all add: silent_def)
qed

lemma silent_receive: "silent (cl s) \<Longrightarrow> on_client (receive_data_and_validate_response h) s = Some (POLL_TIMEOUT, s)"
  by (simp add: on_client_def receive_data_and_validate_response_def receive_nothing silent_def)

lemma silent_pass:
  assumes "silent (cl s)" and "t \<noteq> PING_NODE" and "poll_retry x < 3" and "frame_len x = length (frame x)"
    and "13 + 4 * max 1 (unat (frame x ! 12)) \<le> length (frame x)"
  obtains s1 where "odm_step h u i t POLL_TIMEOUT x s = Some (True, x\<lparr>poll_retry := poll_retry x + 1\<rparr>, s1)"
    "odm_pass h u i t (x, s) (x\<lparr>poll_retry := poll_retry x + 1\<rparr>, s1)"
    "silent (cl s1)" "wire (cl s1) = wire (cl s) @ [frame x]" "s1 = s\<lparr>cl := cl s1\<rparr>"
proof -
  obtain s1 where s1: "on_client (write_to_client (frame x)) s = Some (SUCCESS, s1)" "silent (cl s1)"
    "wire (cl s1) = wire (cl s) @ [frame x]" "s1 = s\<lparr>cl := cl s1\<rparr>"
    using silent_write [OF assms(5,1)] by blast
  have step: "odm_step h u i t POLL_TIMEOUT x s = Some (True, x\<lparr>poll_retry := poll_retry x + 1\<rparr>, s1)"
    using assms(2-4) s1(1) by (simp add: odm_step_def odm_silence_def resend_packet_def)
  from odm_pass.pass [OF silent_receive [OF assms(1)] this] s1 step that show thesis by blast
qed

lemma silent_resend:
  assumes "silent (cl s)" and "t \<noteq> PING_NODE" and "poll_retry x < 3" and "frame_len x = length (frame x)"
    and "13 + 4 * max 1 (unat (frame x ! 12)) \<le> length (frame x)"
  obtains s1 where "odm_loop h u i t x s = odm_loop h u i t (x\<lparr>poll_retry := poll_retry x + 1\<rparr>) s1" "silent (cl s1)"
    "wire (cl s1) = wire (cl s) @ [frame x]" "s1 = s\<lparr>cl := cl s1\<rparr>"
proof -
  obtain s1 where s1: "odm_step h u i t POLL_TIMEOUT x s = Some (True, x\<lparr>poll_retry := poll_retry x + 1\<rparr>, s1)"
    "silent (cl s1)" "wire (cl s1) = wire (cl s) @ [frame x]" "s1 = s\<lparr>cl := cl s1\<rparr>"
    by (rule silent_pass [OF assms])
  from this(1) have "odm_loop h u i t x s = odm_loop h u i t (x\<lparr>poll_retry := poll_retry x + 1\<rparr>) s1"
    using silent_receive [OF assms(1)] by (subst odm_loop.simps) simp
  with s1 that show thesis by blast
qed

lemma silent_exchange:
  assumes "silent (cl s)" and "t \<noteq> PING_NODE" and "frame_len x = length (frame x)" and "poll_retry x = 1" and "\<not> invalid_resp x"
    and "13 + 4 * max 1 (unat (frame x ! 12)) \<le> length (frame x)"
  shows "\<exists>x' s'. odm_loop h u i t x s = Some (x', s') \<and> frame x' = frame x \<and> gatewayStatus (cl s') = DISCONNECTED
    \<and> wire (cl s') = wire (cl s) @ [frame x, frame x] \<and> request_log s' = request_log s @ [UpdateStatus i FAILED_NO_GW_RESPONSE 0]
    \<and> mq s' = mq s"
proof -
  obtain s1 where s1: "odm_loop h u i t x s = odm_loop h u i t (x\<lparr>poll_retry := 2\<rparr>) s1" "silent (cl s1)"
    "wire (cl s1) = wire (cl s) @ [frame x]" "s1 = s\<lparr>cl := cl s1\<rparr>"
    by (rule silent_resend [of s t x h u i]) (use assms in simp_all)
  obtain s2 where s2: "odm_loop h u i t (x\<lparr>poll_retry := 2\<rparr>) s1 = odm_loop h u i t (x\<lparr>poll_retry := 3\<rparr>) s2" "silent (cl s2)"
    "wire (cl s2) = wire (cl s1) @ [frame x]" "s2 = s1\<lparr>cl := cl s2\<rparr>"
    by (rule silent_resend [of s1 t "x\<lparr>poll_retry := 2\<rparr>" h u i]) (use assms s1(2) in simp_all)
  let ?s3 = "forget_address (log_op (UpdateStatus i FAILED_NO_GW_RESPONSE 0) (s2\<lparr>cl := (cl s2)\<lparr>gatewayStatus := DISCONNECTED\<rparr>\<rparr>))"
  have "odm_step h u i t POLL_TIMEOUT (x\<lparr>poll_retry := 3\<rparr>) s2 = Some (False, x\<lparr>poll_retry := 3\<rparr>, ?s3)"
    using assms(2,5) by (simp add: odm_step_def odm_silence_def)
  then have "odm_loop h u i t (x\<lparr>poll_retry := 3\<rparr>) s2 = Some (x\<lparr>poll_retry := 3\<rparr>, ?s3)"
    using silent_receive [OF s2(2)] by (subst odm_loop.simps) simp
  moreover have "request_log s1 = request_log s" "mq s1 = mq s" by (subst s1(4), simp)+
  moreover have "request_log s2 = request_log s1" "mq s2 = mq s1" by (subst s2(4), simp)+
  ultimately show ?thesis using s1(1,3) s2(1,3) by (simp add: log_op_def)
qed

text \<open>C22: a request to a gateway that stays silent is sent three times, whole; then it gets the status that
  the gateway did not respond, and the gateway counts as disconnected.\<close>

theorem silent_request_reported:
  assumes "silent (cl s)" and "download_data_type \<noteq> PING_NODE" and "13 + 4 * max 1 (unat (buf ! 12)) \<le> length buf"
  shows "\<exists>s'. Process_ODM_request h u buf request_id download_data_type s = Some (buf, s')
    \<and> wire (cl s') = wire (cl s) @ [buf, buf, buf] \<and> gatewayStatus (cl s') = DISCONNECTED
    \<and> request_log s' = request_log s @ [UpdateStatus request_id FAILED_NO_GW_RESPONSE 0] \<and> mq s' = mq s"
proof -
  define s0 where "s0 = s\<lparr>cl := (cl s)\<lparr>tx_page_index := 0\<rparr>\<rparr>"
  have s0: "silent (cl s0)" "wire (cl s0) = wire (cl s)" "request_log s0 = request_log s" "mq s0 = mq s"
    using assms(1) by (simp_all add: s0_def silent_def)
  obtain s1 where s1: "on_client (write_to_client buf) s0 = Some (SUCCESS, s1)" "silent (cl s1)"
    "wire (cl s1) = wire (cl s) @ [buf]" "s1 = s0\<lparr>cl := cl s1\<rparr>"
    using silent_write [OF assms(3) s0(1)] s0(2) by metis
  have keep: "request_log s1 = request_log s" "mq s1 = mq s" using s0 by (subst s1(4), simp)+
  define s2 where "s2 = (if 5 \<le> length buf \<and> download_data_type > 0x0F
         then s1\<lparr>pp_write_payload_tail := push_bit 24 (ucast (buf ! (length buf - 5))) OR push_bit 16 (ucast (buf ! (length buf - 4)))
           OR push_bit 8 (ucast (buf ! (length buf - 3))) OR ucast (buf ! (length buf - 2))\<rparr> else s1)"
  have s2: "silent (cl s2)" "wire (cl s2) = wire (cl s1)" "request_log s2 = request_log s" "mq s2 = mq s"
    using s1(2) keep by (simp_all add: s2_def)
  let ?x = "\<lparr>frame = buf, frame_len = length buf, page_no = 1, poll_retry = 1, once = True, invalid_resp = False, checksum_retry = 1\<rparr>"
  obtain x' s' where "odm_loop h u request_id download_data_type ?x s2 = Some (x', s')" "frame x' = buf"
    "gatewayStatus (cl s') = DISCONNECTED" "wire (cl s') = wire (cl s2) @ [buf, buf]"
    "request_log s' = request_log s2 @ [UpdateStatus request_id FAILED_NO_GW_RESPONSE 0]" "mq s' = mq s2"
    using silent_exchange [of s2 download_data_type ?x h u request_id] s2(1) assms(2,3) by auto
  then show ?thesis
    using s1(1,3) s2 unfolding Process_ODM_request_def s0_def [symmetric]
    by (simp add: Let_def s2_def [symmetric])
qed

section \<open>The order of the requests\<close>

text \<open>The requests that were started, by their ids.\<close>

definition started :: "request_op list \<Rightarrow> int list" where
  "started log = concat (map (\<lambda>e. case e of UpdateStatus i st _ \<Rightarrow> if st = IN_PROGRESS then [i] else [] | _ \<Rightarrow> []) log)"

definition calm :: "on_demand \<Rightarrow> on_demand \<Rightarrow> bool" where
  "calm s s' \<longleftrightarrow> mq s' = mq s \<and> started (request_log s') = started (request_log s)"

lemma started_append [simp]: "started (xs @ ys) = started xs @ started ys"
  by (simp add: started_def)

lemma started_entry [simp]:
  "started [] = []" "started [UpdateStatus i st e] = (if st = IN_PROGRESS then [i] else [])" "started [UpdatePing i st] = []"
  "started [InsertPing i st] = []" "started [UpdateOdmDb t] = []"
  by (simp_all add: started_def)

lemma log_op_fields [simp]: "mq (log_op e s) = mq s" "request_log (log_op e s) = request_log s @ [e]" "retry (log_op e s) = retry s"
  by (simp_all add: log_op_def)

named_theorems calm_ops "operations that start no request and leave the queues"

lemma on_client_calm [calm_ops]: "on_client f s = Some (r, s') \<Longrightarrow> calm s s'"
  by (auto simp: on_client_def calm_def)

lemma resend_calm [calm_ops]: "resend_packet b n s = Some (r, s') \<Longrightarrow> calm s s'"
  by (auto simp: resend_packet_def dest: on_client_calm)

lemma next_page_calm [calm_ops]: "handle_next_page b n t p s = Some (r, b', n', p', s') \<Longrightarrow> calm s s'"
  by (auto simp: handle_next_page_def split: bind_splits dest: resend_calm)

lemma reconnect_calm [calm_ops]: "reconnect_loop h n s = Some (r, s') \<Longrightarrow> calm s s'"
  by (induction n arbitrary: s) (fastforce simp: calm_def split: bind_splits if_splits dest: on_client_calm)+

lemma connection_calm [calm_ops]: "handle_connection_failed h i s = Some (r, s') \<Longrightarrow> calm s s'"
  by (auto simp: handle_connection_failed_def calm_def split: bind_splits option.splits dest!: reconnect_calm)

lemma handle_success_calm [calm_ops]: "handle_success u t b s = Some (r, s') \<Longrightarrow> calm s s'"
  by (auto simp: handle_success_def calm_def split: bind_splits if_splits)

lemma ping_calm [calm_ops]: "Update_Insert_Ping_request t r s = Some s' \<Longrightarrow> calm s s'"
  by (auto simp: Update_Insert_Ping_request_def calm_def split: if_splits)

lemma odm_step_calm [calm_ops]: "odm_step h u i t ret x s = Some (b, x', s') \<Longrightarrow> calm s s'"
  unfolding odm_step_def odm_timeout_def odm_connection_failed_def odm_silence_def odm_checksum_error_def
  by (auto split: if_splits bind_splits simp: Let_def calm_def dest!: calm_ops)

lemma calm_trans: "calm s s1 \<Longrightarrow> calm s1 s2 \<Longrightarrow> calm s s2"
  by (simp add: calm_def)

lemma odm_loop_calm [calm_ops]: "odm_loop h u i t x s = Some (x', s') \<Longrightarrow> calm s s'"
proof (induction h u i t x s rule: odm_loop.induct)
  case (1 h u i t x s)
  from 1(2) obtain ret s1 where r: "on_client (receive_data_and_validate_response h) s = Some (ret, s1)"
    by (subst (asm) odm_loop.simps) (auto split: option.splits)
  with 1(2) obtain b x1 s2 where st: "odm_step h u i t ret x s1 = Some (b, x1, s2)"
    by (subst (asm) odm_loop.simps) (auto split: option.splits)
  have "calm s s2" using on_client_calm [OF r] odm_step_calm [OF st] by (rule calm_trans)
  moreover have "if b then odm_loop h u i t x1 s2 = Some (x', s') else s' = s2"
    using 1(2) r st by (subst (asm) odm_loop.simps) (auto split: if_splits)
  ultimately show ?case
    using 1(1) [OF r refl st refl] calm_trans by (cases b) auto
qed

lemma request_calm [calm_ops]: "Process_ODM_request h u b i t s = Some (b', s') \<Longrightarrow> calm s s'"
  unfolding Process_ODM_request_def
  by (auto simp: Let_def calm_def split: bind_splits if_splits dest!: on_client_calm odm_loop_calm)

lemma ping_loop_calm [calm_ops]: "ping_loop h u b i t n s = Some s' \<Longrightarrow> calm s s'"
  by (induction n arbitrary: b s) (fastforce simp: calm_def split: bind_splits dest: request_calm)+

lemma check_path_calm [calm_ops]: "check_path_in_source_route_network p i s = Some (r, s') \<Longrightarrow> calm s s'"
  by (auto simp: check_path_in_source_route_network_def calm_def split: bind_splits if_splits option.splits)

lemma ping_details_calm [calm_ops]: "ping_node_details p s = Some s' \<Longrightarrow> calm s s'"
  by (auto simp: ping_node_details_def calm_def split: bind_splits)

abbreviation ident_of :: "cstr \<Rightarrow> int option" where
  "ident_of cmd \<equiv> request_id_of (split cmd CHR '':'')"

lemma execute_request_starts:
  assumes "execute_request h u cmd s = Some (executed, s')"
  obtains i where "ident_of cmd = Some i" "started (request_log s') = started (request_log s) @ [i]" "mq s' = mq s"
    "executed \<or> gatewayStatus (cl s') = DISCONNECTED"
  using assms unfolding execute_request_def
  by (auto split: bind_splits if_splits dest!: calm_ops simp: calm_def Let_def)


section \<open>Further pages\<close>

text \<open>The command inside a frame, behind the mesh header with its hops.\<close>

definition dlms_start :: "bytes \<Rightarrow> nat" where
  "dlms_start buf = 13 + 4 * max 1 (unat (buf ! 12))"

definition dlms_part :: "bytes \<Rightarrow> nat \<Rightarrow> bytes" where
  "dlms_part buf len = drop (dlms_start buf) (take len buf)"

lemma checksum8_update: "i < length f \<Longrightarrow> checksum8 (f[i := v]) = checksum8 f + v - f ! i"
  by (induction f arbitrary: i) (auto simp: checksum8_sum_list nth_Cons split: nat.splits)

lemma at_frame_next:
  assumes "at_frame_ok f" and "p = f ! 2 + 1"
  shows "at_frame_ok (f[2 := p, length f - 1 := last f + 1])"
proof -
  from assms(1) have f: "8 \<le> length f" "last f = checksum8 (butlast f)" by (simp_all add: at_frame_ok_def)
  then have "butlast (f[2 := p, length f - 1 := last f + 1]) = (butlast f)[2 := p]"
    by (auto simp: butlast_list_update)
  moreover have "checksum8 ((butlast f)[2 := p]) = checksum8 (butlast f) + p - butlast f ! 2"
    using f(1) by (intro checksum8_update) simp
  moreover have "butlast f ! 2 = f ! 2" using f(1) by (simp add: nth_butlast)
  moreover have "last (f[2 := p, length f - 1 := last f + 1]) = last f + 1"
    using f(1) by (subst last_conv_nth) auto
  ultimately show ?thesis
    using assms f(1) by (simp add: at_frame_ok_def f(2) [symmetric])
qed

lemma page_offset:
  "unat h \<le> 60 \<Longrightarrow> unat (if h = 0 then 19 else word_of_nat (19 + (unat h - 1) * 4) :: u8) = 13 + 4 * max 1 (unat h) + 2" for h :: u8
proof -
  assume h: "unat h \<le> 60"
  show ?thesis
  proof (cases "h = 0")
    case False
    then have "0 < unat h" by (simp add: unat_gt_0)
    moreover have "unat (word_of_nat (19 + (unat h - 1) * 4) :: u8) = 19 + (unat h - 1) * 4"
      unfolding unsigned_of_nat using h by (subst take_bit_nat_eq_self) simp_all
    ultimately show ?thesis using False by simp
  qed simp
qed

lemma page_in_frame_next:
  assumes "unat (buf ! 12) \<le> 60" and "len \<le> length buf" and "at_frame_ok (dlms_part buf len)" and "p = dlms_part buf len ! 2 + 1"
  shows "\<exists>buf'. page_in_frame buf len p = Some buf' \<and> at_frame_ok (dlms_part buf' len) \<and> dlms_part buf' len ! 2 = p
    \<and> take (dlms_start buf) buf' = take (dlms_start buf) buf \<and> length buf' = length buf \<and> dlms_start buf' = dlms_start buf"
proof -
  let ?d = "dlms_start buf" and ?f = "dlms_part buf len"
  let ?b = "buf[?d + 2 := p, len - 1 := buf ! (len - 1) + 1]"
  have n: "?d + 8 \<le> len" "length ?f = len - ?d" "12 < ?d"
    using assms(2,3) by (auto simp: at_frame_ok_def dlms_part_def dlms_start_def)
  have "last ?f = buf ! (len - 1)"
    using n assms(2) by (simp add: dlms_part_def last_conv_nth)
  then have f: "dlms_part ?b len = ?f[2 := p, length ?f - 1 := last ?f + 1]"
    using n assms(2) by (simp add: dlms_part_def dlms_start_def drop_update_swap take_update_swap)
  have "page_in_frame buf len p = Some ?b"
    using n assms(1,2) page_offset [of "buf ! 12"] by (simp add: page_in_frame_def get_def wr_def dlms_start_def)
  moreover have "dlms_start ?b = ?d" using n by (simp add: dlms_start_def)
  moreover have "dlms_part ?b len ! 2 = p" unfolding f using n by simp
  moreover have "take ?d ?b = take ?d buf" using n by simp
  ultimately show ?thesis using at_frame_next [OF assms(3,4)] f by auto
qed

lemma range_to_page_command:
  assumes "len \<le> length buf" and "length (dlms_part buf len) = n" and "8 \<le> n" and "length next = 8"
  shows "\<exists>buf'. range_to_page buf len n next = Some (buf', dlms_start buf + 8) \<and> dlms_part buf' (dlms_start buf + 8) = next
    \<and> take (dlms_start buf) buf' = (take (dlms_start buf) buf)[1 := word_of_nat (dlms_start buf + 8 - 1)]
    \<and> dlms_start buf + 8 \<le> length buf' \<and> dlms_start buf' = dlms_start buf"
proof -
  let ?d = "dlms_start buf" and ?v = "word_of_nat (dlms_start buf + 8 - 1) :: u8"
  have n: "len = ?d + n" "12 < ?d" using assms(1-3) by (auto simp: dlms_part_def dlms_start_def)
  let ?b = "take ?d (buf[1 := ?v]) @ next @ replicate (n - 8) 0 @ drop len buf"
  have "range_to_page buf len n next = Some (?b, ?d + 8)"
    using assms n by (simp add: range_to_page_def wr_def Let_def)
  moreover have start: "dlms_start ?b = ?d" using n assms(1) by (simp add: dlms_start_def nth_append)
  moreover have "dlms_part ?b (?d + 8) = next"
    unfolding dlms_part_def start using n assms(1,3,4) by (auto simp: min_def)
  ultimately show ?thesis using n assms(1,4) by (intro exI [of _ ?b]) (auto simp: take_update_swap min_def)
qed

lemma next_page_command: "t \<in> {2, 3, 4} \<Longrightarrow> at_frame_ok (next_page_dlp t) \<and> next_page_dlp t ! 2 = 1 \<and> length (next_page_dlp t) = 8"
  by (auto simp: at_frame_ok_def next_page_dlp_def checksum8_sum_list)

text \<open>C20: every further page of a profile is asked for by a well-formed command: when the frame of the
  exchange carries the command for one page, the next frame carries the one for the next page, with
  its own length and checksum, to the same address; the first request of a profile with a time
  range may be longer.\<close>

theorem next_page_asked:
  assumes "unat (buf ! 12) \<le> 60" and "len \<le> length buf" and "at_frame_ok (dlms_part buf len)"
    and "page_index = dlms_part buf len ! 2 + 1" and "buf ! 1 = word_of_nat (len - 1)"
    and "t = 2 \<and> page_index = 1 \<Longrightarrow> length (dlms_part buf len) = 13"
    and "t \<in> {3, 4} \<and> page_index = 1 \<Longrightarrow> length (dlms_part buf len) = 18"
  shows "\<exists>buf' len'. next_page_frame t page_index buf len = Some (buf', len') \<and> len' \<le> length buf'
    \<and> at_frame_ok (dlms_part buf' len') \<and> dlms_part buf' len' ! 2 = page_index
    \<and> drop 2 (take (dlms_start buf') buf') = drop 2 (take (dlms_start buf) buf) \<and> buf' ! 1 = word_of_nat (len' - 1)"
proof -
  let ?d = "dlms_start buf"
  have d: "12 < ?d" by (simp add: dlms_start_def)
  have at: "?d < len" using assms(3) by (auto simp: at_frame_ok_def dlms_part_def)
  have head: "buf' ! 1 = take ?d buf' ! 1" for buf' :: bytes using d by simp
  consider n where "next_page_frame t page_index buf len = range_to_page buf len n (next_page_dlp t)" "t \<in> {2, 3, 4}" "page_index = 1"
      "length (dlms_part buf len) = n" "8 \<le> n"
    | "next_page_frame t page_index buf len = map_option (\<lambda>buf. (buf, len)) (page_in_frame buf len page_index)"
    using assms(6,7) that unfolding next_page_frame_def by (cases "t \<in> {2, 3, 4} \<and> page_index = 1") (auto split: if_splits)
  then show ?thesis
  proof cases
    case 1
    note c = next_page_command [OF 1(2)]
    from range_to_page_command [OF assms(2) 1(4,5), of "next_page_dlp t"] c obtain buf' where
      b: "range_to_page buf len n (next_page_dlp t) = Some (buf', ?d + 8)" "dlms_part buf' (?d + 8) = next_page_dlp t"
        "take ?d buf' = (take ?d buf)[1 := word_of_nat (?d + 8 - 1)]" "?d + 8 \<le> length buf'" "dlms_start buf' = ?d" by auto
    have "buf' ! 1 = word_of_nat (?d + 8 - 1)" unfolding head [of buf'] b(3) using d at assms(2) by simp
    with b c 1(1,3) show ?thesis by (intro exI [of _ buf'] exI [of _ "?d + 8"]) simp
  next
    case 2
    from page_in_frame_next [OF assms(1-4)] obtain buf' where
      b: "page_in_frame buf len page_index = Some buf'" "at_frame_ok (dlms_part buf' len)" "dlms_part buf' len ! 2 = page_index"
        "take ?d buf' = take ?d buf" "length buf' = length buf" "dlms_start buf' = ?d" by blast
    have "buf' ! 1 = buf ! 1" using b(4) head [of buf'] head [of buf] by simp
    with b 2 assms(2,5) show ?thesis by (intro exI [of _ buf'] exI [of _ len]) simp
  qed
qed

section \<open>Requests that end the program\<close>

lemma split_short: "length (split str d) \<le> length (explode str d)"
  by (simp add: explode_split)

lemma short_request_fails:
  assumes "cmd \<noteq> []" and "length (explode cmd CHR '':'') < 5"
  shows "fail_request cmd s = None"
proof -
  have "split cmd CHR '':'' \<noteq> []" using assms(1) by (subst split.simps) simp
  moreover have "part (split cmd CHR '':'') 4 = None"
    using split_short [of cmd "CHR '':''"] assms(2) by (simp add: part_def)
  ultimately show ?thesis by (simp add: fail_request_def split: bind_splits)
qed

text \<open>A message of a few characters ends the program: with fewer than five fields it is queued as
  failed, and then its fifth field is read to choose the table for its status.\<close>

theorem short_message_ends_program:
  assumes "validate_request_ids hash_order message gw (mq s) = Some m'"
    and "message \<noteq> []" and "CHR ''-'' \<notin> set message" and "length (explode message CHR '':'') < 5" and "hd (explode message CHR '':'') \<noteq> ''CANCEL''"
    and "Failed (mq s) = []" and "cancelled_requests (mq s) = []" and "sync_answers s = []"
  shows "process_ondemand_request h u process_fuota_queue (s\<lparr>mq := m'\<rparr>) = None"
proof -
  have "validate_request hash_order gw message (mq s) = Some (enqueue_failed message (mq s))"
    using assms(4,5) unfolding validate_request_def Let_def by auto
  with assms(1) have m': "m' = (enqueue_failed message (mq s))\<lparr>ODM_Flag := 1\<rparr>"
    by (auto simp: plain_message [OF assms(3)])
  have q: "Failed m' = [message]" "cancelled_requests m' = []"
    using assms(6,7) by (simp_all add: m' enqueue_failed_def)
  have "wait_for_nms h 0 (s\<lparr>mq := m'\<rparr>) = Some (log_op (NmsSync 1) (s\<lparr>mq := m', sync_answers := []\<rparr>))"
    using assms(8) by (subst wait_for_nms.simps) (simp add: insert_update_hes_nms_sync_time_def log_op_def)
  with q assms(8) short_request_fails [OF assms(2,4)] show ?thesis
    by (simp add: process_ondemand_request_def)
qed

lemma convert_asc_overflow:
  assumes "length dest < n"
  shows "convert_asc_hex_string_to_bytes dest src n = None"
proof -
  let ?f = "\<lambda>i d. if length src < i * 2 \<or> length d \<le> i then None
    else Some (case scan_hex2 (drop (i * 2) src) of None \<Rightarrow> d | Some v \<Rightarrow> d[i := v])"
  let ?n = "length dest"
  have "[0..<n] = [0..<?n] @ [?n..<n]" using assms upt_add_eq_append [of 0 ?n "n - ?n"] by simp
  also have "[?n..<n] = ?n # [Suc ?n..<n]" using assms by (rule upt_conv_Cons)
  finally have upt: "[0..<n] = [0..<?n] @ ?n # [Suc ?n..<n]" .
  show ?thesis
  proof (cases "foldM ?f [0..<?n] dest")
    case None
    then show ?thesis unfolding convert_asc_hex_string_to_bytes_def upt foldM_append by simp
  next
    case (Some d)
    then have "length d = ?n"
      by (rule foldM_inv [where P = "\<lambda>d. length d = ?n"]) (auto split: if_splits option.splits)
    with Some show ?thesis unfolding convert_asc_hex_string_to_bytes_def upt foldM_append by simp
  qed
qed

lemma split_field:
  assumes "i < length (explode cmd d)" and "explode cmd d ! i \<noteq> []"
  shows "part (split cmd d) i = Some (explode cmd d ! i)"
proof -
  have "i < length (butlast (explode cmd d))" if "last (explode cmd d) = []"
  proof (rule ccontr)
    assume "\<not> i < length (butlast (explode cmd d))"
    with assms(1) have "i = length (explode cmd d) - 1" by simp
    with assms that show False by (simp add: last_conv_nth)
  qed
  with assms(1) show ?thesis by (auto simp: explode_split part_def nth_butlast)
qed

text \<open>A request with twelve hops or more, or with a command of more than 256 bytes, is accepted and
  queued, but the arrays for its route and its command are shorter: building its frame writes
  outside them.\<close>

theorem long_request_overflows:
  assumes "well_formed_request gw (explode cmd CHR '':'')" and "request_route gw (explode cmd CHR '':'') hops"
    and "12 \<le> hops \<or> 512 < length (explode cmd CHR '':'' ! COMMAND)"
  shows "build_pmesh_frame (split cmd CHR '':'') = None"
proof -
  let ?p = "explode cmd CHR '':''"
  obtain bs where bs: "hex_to_bytes (?p ! COMMAND) = Some (Some bs)" "8 \<le> length bs"
    using assms(1) by (auto simp: well_formed_request_def)
  then have "?p ! COMMAND \<noteq> []" "even (length (?p ! COMMAND))" by (auto simp: hex_to_bytes_def split: if_splits)
  moreover have len: "length (?p ! DEST_ADDR) = 16 * (hops + 1)" using assms(2) by (simp add: request_route_def)
  then have "?p ! DEST_ADDR \<noteq> []" by auto
  moreover have "DEST_ADDR < length ?p" "COMMAND < length ?p" using assms(1) by (auto simp: well_formed_request_def)
  ultimately have p: "part (split cmd CHR '':'') 3 = Some (?p ! DEST_ADDR)" "part (split cmd CHR '':'') 5 = Some (?p ! COMMAND)"
    "?p ! COMMAND \<noteq> []" "even (length (?p ! COMMAND))"
    using split_field [of 3 cmd "CHR '':''"] split_field [of 5 cmd "CHR '':''"] by simp_all
  have route: "12 \<le> hops \<Longrightarrow> convert_asc_hex_string_to_bytes (replicate 100 0) (?p ! DEST_ADDR) (length (?p ! DEST_ADDR) div 2) = None"
    by (rule convert_asc_overflow) (simp add: len)
  have "512 < length (?p ! COMMAND) \<Longrightarrow> convert_asc_hex_string_to_bytes (replicate 256 0) (?p ! COMMAND) (length (?p ! COMMAND) div 2) = None"
    using p(4) by (intro convert_asc_overflow) (auto elim!: evenE)
  with assms(3) p route show ?thesis
    unfolding build_pmesh_frame_def by (auto split: bind_splits if_splits)
qed

section \<open>Concrete inputs\<close>

definition example_odm :: on_demand where
  "example_odm = \<lparr>cl = example_client, mq = example_mqtt, retry = 1, Pmesh_header = [], pp_write_payload_tail = 0, ping_count = 0,
     ping_ids = [], DB_parameter = no_parameters, request_log = [], sync_answers = [], known_paths = Some []\<rparr>"

definition example_update :: odm_update where
  "example_update t log = Some True"

definition example_frame :: bytes where
  "example_frame = [0x2E, 24, 0x07, 0, 0, 0x54, 0x35, 0xA3, 0x53, 0x54, 0x35, 0, 0, 0xA3, 0x53, 0x54, 0x35,
     0x2B, 0x07, 0x00, 0x0E, 0x01, 0x00, 0x00, 0x41]"

lemma example_silent_odm: "silent (cl example_odm)"
  by (simp add: example_odm_def example_silent)

definition example_exchange :: exchange where
  "example_exchange = \<lparr>frame = example_frame, frame_len = 25, page_no = 1, poll_retry = 1, once = True, invalid_resp = False, checksum_retry = 1\<rparr>"

theorem exchange_ends_witness:
  "\<exists>y. (odm_pass example_hooks example_update 7 1 ^^ 2) (example_exchange, example_odm) y
    \<and> 2 \<le> 3 * pending (cl example_odm) + (3 - unat (poll_retry example_exchange))"
proof -
  let ?P = "odm_pass example_hooks example_update 7 1"
  obtain s1 where p1: "?P (example_exchange, example_odm) (example_exchange\<lparr>poll_retry := 2\<rparr>, s1)" "silent (cl s1)"
    by (rule silent_pass [OF example_silent_odm, of 1 example_exchange example_hooks example_update 7])
      (simp_all add: example_exchange_def example_frame_def)
  obtain s2 where "?P (example_exchange\<lparr>poll_retry := 2\<rparr>, s1) (example_exchange\<lparr>poll_retry := 3\<rparr>, s2)"
    by (rule silent_pass [OF p1(2), of 1 "example_exchange\<lparr>poll_retry := 2\<rparr>" example_hooks example_update 7])
      (simp_all add: example_exchange_def example_frame_def)
  with p1(1) have "(?P ^^ 2) (example_exchange, example_odm) (example_exchange\<lparr>poll_retry := 3\<rparr>, s2)"
    by (auto simp: numeral_2_eq_2)
  from this exchange_ends [OF this] show ?thesis by blast
qed

theorem silent_request_reported_witness:
  "\<exists>s'. Process_ODM_request example_hooks example_update example_frame 7 1 example_odm = Some (example_frame, s')
    \<and> request_log s' = [UpdateStatus 7 FAILED_NO_GW_RESPONSE 0]"
  using silent_request_reported [OF example_silent_odm, of 1 example_frame example_hooks example_update 7]
  by (auto simp: example_frame_def) (auto simp: example_odm_def)

text \<open>The same request twice, to a gateway that stays silent.\<close>

definition example_cmd :: cstr where
  "example_cmd = joined CHR '':'' [''7'', example_gateway_id, ''0'', example_gateway_id, ''01'', ''2B0700000100002D'']"

lemma example_cmd_run:
  "map_option (\<lambda>s. (ODM (mq s), request_log s)) (process_odm example_hooks example_update [example_cmd, example_cmd]
      (example_odm\<lparr>mq := example_mqtt\<lparr>ODM := [example_cmd, example_cmd]\<rparr>\<rparr>))
    = Some ([example_cmd, example_cmd], [UpdateStatus 7 IN_PROGRESS 0, UpdateStatus 7 FAILED_NO_GW_RESPONSE 0])"
  by code_simp


theorem next_page_asked_witness:
  "\<exists>buf' len'. next_page_frame 1 1 example_frame 25 = Some (buf', len') \<and> at_frame_ok (dlms_part buf' len') \<and> dlms_part buf' len' ! 2 = 1"
proof -
  have d: "dlms_part example_frame 25 = [0x2B, 0x07, 0x00, 0x0E, 0x01, 0x00, 0x00, 0x41]"
    by (simp add: dlms_part_def dlms_start_def example_frame_def)
  show ?thesis
    using next_page_asked [of example_frame 25 1 1] d
    by (auto simp: example_frame_def at_frame_ok_def checksum8_sum_list)
qed

theorem short_message_ends_program_witness:
  "\<exists>m'. validate_request_ids id ''1:GET'' example_gateway_id (mq example_odm) = Some m'
    \<and> process_ondemand_request example_hooks example_update Some (example_odm\<lparr>mq := m'\<rparr>) = None"
proof -
  have "\<exists>m'. validate_request_ids id ''1:GET'' example_gateway_id (mq example_odm) = Some m'"
    by (simp add: plain_message validate_request_def explode.simps)
  moreover have "explode ''1:GET'' CHR '':'' = [''1'', ''GET'']" by (simp add: explode.simps)
  ultimately show ?thesis
    using short_message_ends_program [of id "''1:GET''" example_gateway_id example_odm _ example_hooks example_update Some]
    by (auto simp: example_odm_def example_mqtt_def)
qed

text \<open>A request over twelve hops.\<close>

definition example_far_fields :: "cstr list" where
  "example_far_fields = [''1'', example_gateway_id, ''12'', concat (replicate 13 example_gateway_id), ''01'', ''2D0A0E0001010000'']"

definition example_far_request :: cstr where
  "example_far_request = joined CHR '':'' example_far_fields"

lemma example_far:
  "explode example_far_request CHR '':'' = example_far_fields"
  "well_formed_request example_gateway_id example_far_fields" "request_route example_gateway_id example_far_fields 12"
proof -
  show "explode example_far_request CHR '':'' = example_far_fields"
    unfolding example_far_request_def by (rule explode_tokens) (auto simp: example_far_fields_def example_gateway_id_def)
  have "allB (map (part_check example_gateway_id example_far_fields) [1..<length example_far_fields]) = Some True" by code_simp
  then show "well_formed_request example_gateway_id example_far_fields"
    by (subst (asm) parts_accepted) (auto simp: example_far_fields_def isdigit_base_def hexval_def)
  have "stoi 10 (example_far_fields ! HOP_COUNT) = Some 12" "length (example_far_fields ! DEST_ADDR) = 208"
    "take 16 (example_far_fields ! DEST_ADDR) = example_gateway_id" by code_simp+
  then show "request_route example_gateway_id example_far_fields 12" by (simp add: request_route_def)
qed

theorem long_request_overflows_witness:
  "well_formed_request example_gateway_id (explode example_far_request CHR '':'') \<and> build_pmesh_frame (split example_far_request CHR '':'') = None"
  using long_request_overflows [of example_gateway_id example_far_request 12] example_far by simp

end
