(* ===== verification/Fuota_Frames.thy ===== *)
theory Fuota_Frames
  imports Nodes Mqtt Fuota_Crc
begin

text \<open>
  The frames of a firmware upgrade (\<open>HES/src/fuota.cpp\<close>): the state of a \<open>Fuota\<close> object, the sizes derived
  from the length of a header and from the sector of the target, the three functions that put a mesh
  header around a command, the templates of the image transfer taken from the last frame, and the
  checksum of a command.

  A route is \<open>router_path_t\<close>: 32 addresses of four bytes and a number of hops.  The array
  \<open>current_fuota_route\<close> is cast to this type; it is one byte shorter, and the number of hops lies in the
  first byte of \<open>ond_mac\<close>, which nothing else uses.
\<close>

section \<open>State\<close>

record router_path_t =
  paths :: bytes
  hops :: u8

datatype fuota_state = OPEN_FILE | GATEWAY_PATH_SILENCE | TARGET_NODE_SILENCE | NETWORK_SILENCE | SECTOR_READ
  | FWIMAGE_OF_SECTOR_COUNT | ERASE_FLASH | FW_IMAGE_TRANSFER | LAST_UPDATE_FWIMAGE_OF_SECTORCOUNT
  | FW_IMAGE_ENDOF_PAGE_TRANSFER | NEW_FWIMAGE_CRC_CALCULATE | ACTIVATE_NEW_FWIMAGE | SEND_ACTIVATE_CMD
  | READ_AND_COMPARE_FW_VERSION | NETWORK_UNSILENCE | TARGET_NODE_UNSILENCE | GATEWAY_PATH_UNSILENCE
  | ROLLBACK_TO_NORMAL_COMM_MODE | FUOTA_IDLE

text \<open>\<open>Fuota_retry_contex\<close>, with its initial values.\<close>

record fuota_retry_contex =
  retry_count :: int
  max_retries :: int
  alternate_retry :: int
  alternate_maxcnt :: int

definition new_retry_contex :: fuota_retry_contex where
  "new_retry_contex = \<lparr>retry_count = 0, max_retries = 3, alternate_retry = 0, alternate_maxcnt = 2\<rparr>"

record alternate_path_info =
  alternate_mac :: bytes
  route_path :: bytes
  alternate_hops :: u8

text \<open>A \<open>Fuota\<close> object with the client it belongs to.  \<open>request_id\<close> and \<open>request_hops\<close> are
  \<open>client.request_id\<close> and \<open>client.hop_count\<close>; \<open>file_pos\<close> is the position in the firmware file.
  \<open>last_status_map\<close> is the static map of \<open>ondemand_fuota_update_status\<close>, and \<open>status_log\<close> what it wrote to
  the database: request, status and error code.  \<open>alternate_network_rows\<close> is what the next queries for
  alternate routes return, None for a failure; when none is left the query fails.\<close>

record fuota = fuota_crc +
  owner :: client
  requests :: mqtt
  request_id :: int
  request_hops :: int
  ondemand_fuota_state :: fuota_state
  cntx :: fuota_retry_contex
  waiting_for_response :: bool
  use_alternate_fuota_route :: bool
  use_alternate_fuotaroute_disable :: bool
  network_silence_state :: nat
  router_path :: router_path_t
  current_fuota_route :: router_path_t
  current_fuota_target_mac :: bytes
  alternatepaths :: "alternate_path_info list"
  alternate_network_rows :: "row list option list"
  client_tx_buffer :: bytes
  image_tf_command :: bytes
  rf_fuota_expected_resp_header :: bytes
  temp_expect_buf :: bytes
  fuota_rbuf :: bytes
  file_pos :: nat
  BASE_HDR_LEN :: u8
  FUOTA_Cmd_Header_Len :: u8
  FUOTA_Resp_Header_Len :: u8
  command_length :: u8
  response_length :: u8
  page_count :: u32
  subpage_count :: u8
  fuota_imagetf_retry_count :: u8
  fuotaimagetf_alternate_count :: int
  using_alternate_path :: bool
  firmware_file :: cstr
  client_firmware_path :: cstr
  last_status_map :: "(int \<times> int \<times> int) list"
  status_log :: "(int \<times> int \<times> int) list"
  pending_terminal_request_id :: int
  pending_terminal_complete :: bool

abbreviation (input) FUOTA_DATA_QUERY :: u8 where "FUOTA_DATA_QUERY \<equiv> 0x9"
abbreviation (input) CLIENT_TX_BUFFER_SIZE :: int where "CLIENT_TX_BUFFER_SIZE \<equiv> 1024"
abbreviation (input) PHY_LAYER_PKT_SIZE :: int where "PHY_LAYER_PKT_SIZE \<equiv> 128"
abbreviation (input) FUOTA_CMD_LEN :: int where "FUOTA_CMD_LEN \<equiv> 8"
abbreviation (input) e_success_0 :: int where "e_success_0 \<equiv> 0"
abbreviation (input) e_success_1 :: int where "e_success_1 \<equiv> 1"
abbreviation (input) e_failure :: int where "e_failure \<equiv> - 1"

text \<open>\<open>memcpy\<close> into a buffer; bytes outside it are undefined.\<close>

definition memcpy_to :: "bytes \<Rightarrow> nat \<Rightarrow> bytes \<Rightarrow> bytes option" where
  "memcpy_to buf k bs = (if k + length bs \<le> length buf then Some (take k buf @ bs @ drop (k + length bs) buf) else None)"

text \<open>\<open>memcpy\<close> of \<open>n\<close> bytes out of a buffer.\<close>

definition memcpy_from :: "bytes \<Rightarrow> nat \<Rightarrow> nat \<Rightarrow> bytes option" where
  "memcpy_from buf k n = (if k + n \<le> length buf then Some (take n (drop k buf)) else None)"

section \<open>Sizes\<close>

definition get_max_page_count :: "u32 \<Rightarrow> u32 \<Rightarrow> u32 option" where
  "get_max_page_count sector fw_size = (if sector = 0 then None else Some (fw_size div sector))"

definition calculate_dynamic_header_len :: "u8 \<Rightarrow> int" where
  "calculate_dynamic_header_len routerpath_count =
     (let base_len = 13
      in if routerpath_count = 1 \<or> routerpath_count = 0 then base_len + 4 else base_len + uint routerpath_count * 4)"

definition get_max_payload_size :: "int \<Rightarrow> int" where
  "get_max_payload_size header_len =
     (let hopdevice_headerlen = PHY_LAYER_PKT_SIZE - header_len - FUOTA_CMD_LEN
      in if hopdevice_headerlen < 0 then PHY_LAYER_PKT_SIZE - 25 else PHY_LAYER_PKT_SIZE - header_len - FUOTA_CMD_LEN)"

text \<open>\<open>sector_value\<close> is unsigned, so the division is one of unsigned numbers and the result is converted
  to \<open>int\<close>.\<close>

definition get_max_sub_page_count :: "u32 \<Rightarrow> int \<Rightarrow> int option" where
  "get_max_sub_page_count sector header_len =
     (if get_max_payload_size header_len = 0 then None
      else let subpgcount = sint (sector div word_of_int (get_max_payload_size header_len) + 1)
        in Some (if subpgcount < 0 then e_failure else subpgcount))"

definition get_min_payload_size :: "u32 \<Rightarrow> int \<Rightarrow> int option" where
  "get_min_payload_size sector header_len = do {
     subpage_count \<leftarrow> get_max_sub_page_count sector header_len;
     Some (sint (sector - word_of_int ((subpage_count - 1) * get_max_payload_size header_len)))
   }"

section \<open>Headers\<close>

text \<open>The header of a command to the gateway itself or along \<open>router_path\<close>.\<close>

definition frame_pmesh_ota_cmd_header :: "u8 \<Rightarrow> bytes \<Rightarrow> fuota \<Rightarrow> fuota option" where
  "frame_pmesh_ota_cmd_header flags cmd_data f = do {
     (panid, dcu_short_addr) \<leftarrow> extract_ids (gateway_id (owner f));
     let n = unat (hops (router_path f)) * 4;
     addr_array \<leftarrow> (if hops (router_path f) = 0 then Some dcu_short_addr else memcpy_from (paths (router_path f)) 0 n);
     let pkt_length = (if hops (router_path f) = 0 then 6 + 6 + 4 + length cmd_data else 6 + 6 + n + length cmd_data);
     buf \<leftarrow> memcpy_to (client_tx_buffer f) 0 ([HES_START_BYTE, word_of_nat pkt_length, flags] @ panid @ dcu_short_addr
              @ [0, hops (router_path f)] @ addr_array);
     buf \<leftarrow> memcpy_to buf (13 + (if hops (router_path f) = 0 then 4 else n)) cmd_data;
     Some (f\<lparr>client_tx_buffer := buf\<rparr>)
   }"

text \<open>The header of a command to the target node.  The number of hops of the route is taken from the
  request; the command always goes to \<open>addr_array[4]\<close>.\<close>

definition frame_pmesh_fuota_cmd_header_for_target_node :: "u8 \<Rightarrow> bytes \<Rightarrow> fuota \<Rightarrow> (int \<times> fuota) option" where
  "frame_pmesh_fuota_cmd_header_for_target_node flags cmd_data f =
     (if cmd_data = [] then Some (e_failure, f)
      else do {
        (panid, dcu_short_addr) \<leftarrow> extract_ids (gateway_id (owner f));
        buf \<leftarrow> memcpy_to (client_tx_buffer f) 0 [HES_START_BYTE];
        buf \<leftarrow> memcpy_to buf 2 ([flags] @ panid @ dcu_short_addr);
        let f = f\<lparr>client_tx_buffer := buf, current_fuota_route := (current_fuota_route f)\<lparr>hops := word_of_int (request_hops f)\<rparr>\<rparr>;
        let actual_hop_count = unat (hops (current_fuota_route f));
        if actual_hop_count > 32 then Some (e_failure, f)
        else do {
          addr_array \<leftarrow> (if actual_hop_count = 0 then Some dcu_short_addr
            else memcpy_from (paths (current_fuota_route f)) 0 (actual_hop_count * 4));
          buf \<leftarrow> memcpy_to buf 11 ([0, word_of_nat actual_hop_count] @ addr_array);
          let base_len = 6 + 6 + actual_hop_count * 4;
          if int (base_len + length cmd_data) > CLIENT_TX_BUFFER_SIZE
          then Some (e_failure, f\<lparr>client_tx_buffer := buf\<rparr>)
          else do {
            buf \<leftarrow> memcpy_to buf 17 cmd_data;
            buf \<leftarrow> memcpy_to buf 1 [word_of_nat (if actual_hop_count > 0 then base_len + length cmd_data
                     else base_len + 4 + length cmd_data)];
            Some (e_success_0, f\<lparr>client_tx_buffer := buf\<rparr>)
          }
        }
      })"

text \<open>The header of a command to a node of the network: the route is used as it is.\<close>

definition frame_fuota_cmdheader_for_network :: "u8 \<Rightarrow> bytes \<Rightarrow> fuota \<Rightarrow> (int \<times> fuota) option" where
  "frame_fuota_cmdheader_for_network flags cmd_data f =
     (if cmd_data = [] then Some (e_failure, f)
      else do {
        (panid, dcu_short_addr) \<leftarrow> extract_ids (gateway_id (owner f));
        buf \<leftarrow> memcpy_to (client_tx_buffer f) 0 [0x2E];
        buf \<leftarrow> memcpy_to buf 2 ([flags] @ panid @ dcu_short_addr);
        let actual_hop_count = unat (hops (current_fuota_route f));
        if actual_hop_count > 32 then Some (e_failure, f\<lparr>client_tx_buffer := buf\<rparr>)
        else do {
          addr_array \<leftarrow> (if actual_hop_count = 0 then Some dcu_short_addr
            else memcpy_from (paths (current_fuota_route f)) 0 (actual_hop_count * 4));
          buf \<leftarrow> memcpy_to buf 11 ([0, word_of_nat actual_hop_count] @ addr_array);
          let base_len = 6 + 6 + actual_hop_count * 4;
          if int (base_len + length cmd_data) > CLIENT_TX_BUFFER_SIZE
          then Some (e_failure, f\<lparr>client_tx_buffer := buf\<rparr>)
          else do {
            buf \<leftarrow> memcpy_to buf (13 + actual_hop_count * 4) cmd_data;
            buf \<leftarrow> memcpy_to buf 1 [word_of_nat (base_len + length cmd_data)];
            Some (e_success_0, f\<lparr>client_tx_buffer := buf\<rparr>)
          }
        }
      })"

text \<open>The route of a retry around a payload; the type is that of a mesh command.\<close>

definition update_client_tx_buffer_with_route :: "bytes \<Rightarrow> fuota \<Rightarrow> (int \<times> fuota) option" where
  "update_client_tx_buffer_with_route data f = do {
     (panid, dcu_short_addr) \<leftarrow> extract_ids (gateway_id (owner f));
     let n = unat (hops (current_fuota_route f)) * 4;
     route \<leftarrow> memcpy_from (paths (current_fuota_route f)) 0 n;
     buf \<leftarrow> memcpy_to (client_tx_buffer f) 0 ([0x2E, 0x00, 0x03] @ panid @ dcu_short_addr
              @ [0x00, hops (current_fuota_route f)] @ route);
     let f = f\<lparr>client_tx_buffer := buf\<rparr>;
     let idx = 13 + n;
     if int (idx + length data) > CLIENT_TX_BUFFER_SIZE then Some (- 1, f)
     else do {
       buf \<leftarrow> memcpy_to buf idx data;
       buf \<leftarrow> memcpy_to buf 1 [word_of_nat (idx + length data - 1)];
       Some (int (idx + length data), f\<lparr>client_tx_buffer := buf\<rparr>)
     }
   }"

section \<open>Sending a command\<close>

abbreviation (input) fuota_enable :: bytes where "fuota_enable \<equiv> [0x01, 0x9B, 0x01]"
abbreviation (input) fuota_updatemode :: bytes where "fuota_updatemode \<equiv> [0x01, 0x9D, 0x01]"
abbreviation (input) fuota_disable_cmd :: bytes where "fuota_disable_cmd \<equiv> [0x01, 0x9B, 0x00]"
abbreviation (input) fuota_modeentry_disable_cmd :: bytes where "fuota_modeentry_disable_cmd \<equiv> [0x01, 0x9D, 0x00]"
abbreviation (input) fuota_flash_write :: bytes where "fuota_flash_write \<equiv> [0x00, 0x02]"
abbreviation (input) fuota_flash_exit :: bytes where "fuota_flash_exit \<equiv> [0x00, 0x01]"
abbreviation (input) Endof_image_transfer :: bytes where "Endof_image_transfer \<equiv> [0x2F, 0x04, 0x08, 0x01, 0x3C]"
abbreviation (input) lastsector_page_read :: bytes where "lastsector_page_read \<equiv> [0x2F, 0x04, 0x0C, 0x01, 0x40]"

text \<open>The commands of the four steps that silence or wake a node.\<close>

definition silence_commands :: "bytes list" where
  "silence_commands = [fuota_enable, fuota_updatemode, fuota_flash_write, fuota_flash_exit]"

definition unsilence_commands :: "bytes list" where
  "unsilence_commands = [fuota_disable_cmd, fuota_modeentry_disable_cmd, fuota_flash_write, fuota_flash_exit]"

definition network_command :: "bytes list \<Rightarrow> fuota \<Rightarrow> fuota option" where
  "network_command commands f =
     (if network_silence_state f < length commands
      then map_option snd (frame_fuota_cmdheader_for_network MESH_COMMISSION_PACKET (commands ! network_silence_state f) f)
      else Some f)"

text \<open>\<open>start_fuota_response_timer\<close> compares \<open>SUCCESS\<close>, which is 0, with \<open>e_success_1\<close>: the state of the timer is
  always set.\<close>

definition start_fuota_response_timer :: "fuota \<Rightarrow> fuota" where
  "start_fuota_response_timer f = f\<lparr>owner := (owner f)\<lparr>timeoutState := TIMER_FUOTA_RESPONSE\<rparr>\<rparr>"

text \<open>\<open>write_to_client\<close> returns \<open>SUCCESS\<close> or \<open>FAILURE\<close>.\<close>

definition build_and_store_fuota_cmd :: "fuota \<Rightarrow> (int \<times> fuota) option" where
  "build_and_store_fuota_cmd f = do {
     f \<leftarrow> (if use_alternate_fuota_route f then network_command silence_commands f
           else if use_alternate_fuotaroute_disable f then network_command unsilence_commands f
           else Some f);
     len \<leftarrow> rd (client_tx_buffer f, 0) 1;
     frame \<leftarrow> memcpy_from (client_tx_buffer f) 0 (unat len + 1);
     (sent, c) \<leftarrow> write_to_client frame (owner f);
     let f = f\<lparr>owner := c\<rparr>;
     if sent < 0 then Some (e_failure, f)
     else Some (e_success_1, start_fuota_response_timer (f\<lparr>waiting_for_response := True\<rparr>))
   }"

end
