(* ===== verification/Fuota_Routes.thy ===== *)
theory Fuota_Routes
  imports Fuota_Frames
begin

text \<open>
  The status of an upgrade request (\<open>ondemand_fuota_update_status\<close> of \<open>HES/src/fuota.cpp\<close>) and the alternate
  routes to a node: their rows in the database (\<open>get_alternate_source_route_network_from_db\<close> of
  \<open>HES/src/database.cpp\<close>), the list made of them (\<open>insert_alternate_path\<close>), the choice of one for the transfer of
  an image and the frame rebuilt with it.
\<close>

section \<open>The status of a request\<close>

text \<open>A request whose last error code is 0 is final; the status 17 without error becomes 21.\<close>

definition ondemand_fuota_update_status :: "int \<Rightarrow> int \<Rightarrow> int \<Rightarrow> fuota \<Rightarrow> fuota" where
  "ondemand_fuota_update_status request_status error_code req f =
     (let last_error = (case map_of (last_status_map f) req of None \<Rightarrow> - 1 | Some (_, e) \<Rightarrow> e)
      in if last_error = 0 then f
         else (let (db_status, db_error) = (if request_status = 17 \<and> error_code = 1 then (21, 1) else (request_status, error_code));
                   f = f\<lparr>status_log := status_log f @ [(req, db_status, db_error)],
                         last_status_map := AList.update req (db_status, db_error) (last_status_map f)\<rparr>
               in if db_status = 21 \<and> db_error = 1 \<or> error_code = 0
                  then f\<lparr>pending_terminal_request_id := req, pending_terminal_complete := True\<rparr> else f))"

section \<open>Alternate routes\<close>

text \<open>One hop of \<open>insert_alternate_path\<close>: the last four of its eight bytes.  The branch for a hop that does
  not fit clears four bytes at the same place.\<close>

definition compress_hop :: "bytes \<Rightarrow> nat \<Rightarrow> nat \<Rightarrow> bytes \<Rightarrow> bytes option" where
  "compress_hop route_path_full total_full_bytes i route =
     (let src_offset = i * 8 + 4; dst_offset = i * 4
      in if src_offset + 4 \<le> total_full_bytes \<and> dst_offset + 4 \<le> 128
         then do { hop \<leftarrow> memcpy_from route_path_full src_offset 4; memcpy_to route dst_offset hop }
         else memcpy_to route dst_offset [0, 0, 0, 0])"

definition insert_alternate_path :: "bytes \<Rightarrow> bytes \<Rightarrow> u8 \<Rightarrow> fuota \<Rightarrow> fuota option" where
  "insert_alternate_path mac_address route_path_full n_hops f = do {
     mac \<leftarrow> memcpy_from mac_address 0 8;
     route \<leftarrow> foldM (compress_hop route_path_full (unat n_hops * 8)) [0..<unat n_hops] (replicate 128 0);
     Some (f\<lparr>alternatepaths := alternatepaths f @ [\<lparr>alternate_mac = mac, route_path = route, alternate_hops = n_hops\<rparr>]\<rparr>)
   }"

text \<open>A row of the query: target address, number of hops and path in hexadecimal.  The length handed to
  \<open>aschexstr2hex\<close> is an \<open>unsigned char\<close>.  The characters of the row end with a terminator.\<close>

definition alternate_network_row :: "row \<Rightarrow> fuota \<Rightarrow> fuota option" where
  "alternate_network_row row f = (case (col row 0, col row 1, col row 2) of
       (Some target, Some hop_text, Some hex_path) \<Rightarrow> do {
         hop_count \<leftarrow> atoi hop_text;
         if hop_count \<le> 0 \<or> hop_count > 128 then Some f
         else if length hex_path < nat hop_count * 16 then Some f
         else do {
           node_mac_address \<leftarrow> aschexstr2hex (replicate 8 0) (map of_char target @ [0]) 8;
           path_data \<leftarrow> aschexstr2hex (replicate 512 0) (map of_char hex_path @ [0]) (word_of_int (hop_count * 8));
           insert_alternate_path node_mac_address path_data (word_of_int hop_count) f
         }
       }
     | _ \<Rightarrow> Some f)"

definition get_alternate_source_route_network_from_db :: "fuota \<Rightarrow> (int \<times> fuota) option" where
  "get_alternate_source_route_network_from_db f = (case alternate_network_rows f of
       [] \<Rightarrow> Some (- 1, f)
     | None # answers \<Rightarrow> Some (- 1, f\<lparr>alternate_network_rows := answers\<rparr>)
     | Some rows # answers \<Rightarrow> do {
         f \<leftarrow> foldM alternate_network_row rows (f\<lparr>alternate_network_rows := answers, alternatepaths := []\<rparr>);
         Some (if rows = [] then FAILURE else e_success_0, f)
       })"

text \<open>The first alternate route with as many hops, whatever its target.\<close>

definition build_alternateroute_image_transfer :: "u8 \<Rightarrow> fuota \<Rightarrow> (bool \<times> fuota) option" where
  "build_alternateroute_image_transfer router_count f = do {
     let f = ondemand_fuota_update_status 22 1 (request_id f) f;
     (rc, f) \<leftarrow> get_alternate_source_route_network_from_db f;
     if rc \<noteq> SUCCESS then Some (False, f)
     else case find (\<lambda>p. alternate_hops p = router_count) (alternatepaths f) of
         None \<Rightarrow> Some (False, f)
       | Some chosen \<Rightarrow> do {
           route \<leftarrow> memcpy_from (route_path chosen) 0 (unat (alternate_hops chosen) * 4);
           dst \<leftarrow> memcpy_to (replicate 128 0) 0 route;
           Some (True, f\<lparr>current_fuota_route := \<lparr>paths = dst, hops = alternate_hops chosen\<rparr>,
                         current_fuota_target_mac := alternate_mac chosen\<rparr>)
         }
   }"

text \<open>The address made of the last router is handed to the query, which does not use it; reading it may leave
  the buffer.\<close>

definition prepare_alternate_sameroute_retry :: "bytes \<Rightarrow> fuota \<Rightarrow> fuota option" where
  "prepare_alternate_sameroute_retry data f =
     (if data = [] then Some f
      else do {
        let f = f\<lparr>cntx := (cntx f)\<lparr>retry_count := 0, alternate_retry := alternate_retry (cntx f) + 1\<rparr>\<rparr>;
        let f = ondemand_fuota_update_status 22 1 (request_id f) f;
        router_count \<leftarrow> rd (client_tx_buffer f, 0) 12;
        if router_count = 0 then Some f
        else do {
          last_router_mac \<leftarrow> memcpy_from (client_tx_buffer f) (13 + (unat router_count - 1) * 4) 4;
          (found, f) \<leftarrow> build_alternateroute_image_transfer router_count f;
          if \<not> found then Some (f\<lparr>cntx := (cntx f)\<lparr>alternate_retry := max_retries (cntx f)\<rparr>\<rparr>)
          else map_option snd (update_client_tx_buffer_with_route data f)
        }
      })"

end
