(* ===== verification/Fuota_Transfer.thy ===== *)
theory Fuota_Transfer
  imports Fuota_Routes
begin

text \<open>
  The transfer of a firmware image (\<open>fuota_uploading_process\<close> of \<open>HES/src/fuota.cpp\<close>): the file is sent in
  pages of one sector, each in sub-pages of what fits into a packet; every packet is repeated until the
  target confirms it.

  \<open>write\<close> and \<open>read\<close> on the socket are \<open>send\<close> and \<open>recv\<close> of the client; \<open>poll\<close> tells the same as the
  reception that follows: it times out when nothing comes.  A \<open>poll\<close> interrupted by a signal is not
  modelled.  \<open>cansend_fuota_next_command\<close>, which starts the next step after the transfer was given up,
  is the argument \<open>cansend\<close>.
\<close>

section \<open>Templates\<close>

definition fuota_checksum :: "bytes \<Rightarrow> nat \<Rightarrow> nat \<Rightarrow> u8 option" where
  "fuota_checksum buf k buff_len = map_option checksum8 (memcpy_from buf k buff_len)"

definition update_fuota_response_buff :: "fuota \<Rightarrow> (u8 \<times> fuota) option" where
  "update_fuota_response_buff f = do {
     head \<leftarrow> memcpy_from (client_tx_buffer f) 0 11;
     hop_count \<leftarrow> rd (client_tx_buffer f, 0) 12;
     last_hop \<leftarrow> memcpy_from (client_tx_buffer f) (if hop_count = 0 then 13 else 13 + (unat hop_count - 1) * 4) 4;
     buf \<leftarrow> memcpy_to (rf_fuota_expected_resp_header f) 0 (head @ last_hop);
     Some (15, f\<lparr>rf_fuota_expected_resp_header := buf\<rparr>)
   }"

definition update_fuota_image_transfer_tx_buff :: "fuota \<Rightarrow> (u8 \<times> fuota) option" where
  "update_fuota_image_transfer_tx_buff f = do {
     router_count \<leftarrow> rd (client_tx_buffer f, 0) 12;
     let n = 13 + (if router_count = 0 then 4 else unat router_count * 4);
     header \<leftarrow> memcpy_from (client_tx_buffer f) 0 n;
     buf \<leftarrow> memcpy_to (image_tf_command f) 0 header;
     Some (word_of_nat n, f\<lparr>image_tf_command := buf\<rparr>)
   }"

text \<open>The expected confirmation of a sub-page; the copy of the header onto itself changes nothing.\<close>

definition build_image_tf_expected_rx :: "nat \<Rightarrow> u16 \<Rightarrow> u8 \<Rightarrow> bool \<Rightarrow> bytes \<Rightarrow> bytes option" where
  "build_image_tf_expected_rx base_hdr_len page subpage last_subpage exp =
     (if base_hdr_len < 3 then None
      else do {
        exp \<leftarrow> memcpy_to exp 0 [0x2E, 0x00, 0x0A];
        let dlms = [0x2D, 0x08, 0x07, 0x01, subpage, ucast (drop_bit 8 page), ucast (page AND 0xFF),
                    if last_subpage then 0x00 else 0x01];
        exp \<leftarrow> memcpy_to exp base_hdr_len dlms;
        exp \<leftarrow> memcpy_to exp (base_hdr_len + 8) [checksum8 dlms];
        memcpy_to exp 1 [0x17]
      })"

section \<open>The state of the target\<close>

record LastSectorStatus =
  page :: int
  subpage :: int
  valid :: bool

text \<open>The attempts to read the last page and sub-page the target has stored.  Nothing is set when the last
  attempt fails.  \<open>rlen\<close> bytes of \<open>resp\<close> were received.\<close>

definition parse_last_sector :: "bytes \<Rightarrow> nat \<Rightarrow> fuota \<Rightarrow> (LastSectorStatus \<times> fuota) option" where
  "parse_last_sector resp rlen f = do {
     (expected_hdr_len, f) \<leftarrow> update_fuota_response_buff f;
     let h = int (unat expected_hdr_len);
     if int rlen > h + 6
     then do {
       s \<leftarrow> rd (resp, 0) (h + 7);
       hi \<leftarrow> rd (resp, 0) (h + 5);
       lo \<leftarrow> rd (resp, 0) (h + 6);
       Some (\<lparr>page = uint hi * 256 + uint lo, subpage = uint s, valid = True\<rparr>, f)
     }
     else if rlen \<ge> 6
     then do {
       s \<leftarrow> rd (resp, 0) (int rlen - 2);
       p \<leftarrow> rd (resp, 0) (int rlen - 3);
       Some (\<lparr>page = uint p, subpage = uint s, valid = True\<rparr>, f)
     }
     else Some (\<lparr>page = 0, subpage = 0, valid = False\<rparr>, f)
   }"

fun last_sector_loop :: "nat \<Rightarrow> bytes \<Rightarrow> fuota \<Rightarrow> (LastSectorStatus \<times> fuota) option" where
  "last_sector_loop 0 frame f = Some (\<lparr>page = 0, subpage = 0, valid = False\<rparr>, f)"
| "last_sector_loop (Suc attempts) frame f =
     (let (sent, c) = send frame (owner f); f = f\<lparr>owner := c\<rparr>
      in if sent < 0 then last_sector_loop attempts frame f
         else (case recv 512 (owner f) of
             (RxData bs, resp, c) \<Rightarrow> (let f = f\<lparr>owner := c\<rparr>; kind = resp ! 2; status = resp ! (length bs - 1)
                in if kind = 0x09 \<and> (status = 0x06 \<or> status = 0x07)
                   then last_sector_loop attempts frame f
                   else parse_last_sector resp (length bs) f)
           | (_, resp, c) \<Rightarrow> last_sector_loop attempts frame (f\<lparr>owner := c\<rparr>)))"

definition rffuota_read_lastsector_page_and_subpage_status :: "fuota \<Rightarrow> (LastSectorStatus \<times> fuota) option" where
  "rffuota_read_lastsector_page_and_subpage_status f = do {
     let f = ondemand_fuota_update_status 12 1 (request_id f) f;
     (_, f) \<leftarrow> frame_pmesh_fuota_cmd_header_for_target_node FUOTA_DATA_QUERY lastsector_page_read f;
     len \<leftarrow> rd (client_tx_buffer f, 0) 1;
     frame \<leftarrow> memcpy_from (client_tx_buffer f) 0 (unat len + 1);
     last_sector_loop 3 frame f
   }"

text \<open>The sizes below are \<open>long long\<close>, so the offset does not overflow; \<open>temp_expect_buf\<close> is copied over the
  expected response at the end.\<close>

definition fix_page_subpage_and_seek :: "fuota \<Rightarrow> fuota option" where
  "fix_page_subpage_and_seek f = do {
     let header = uint (FUOTA_Cmd_Header_Len f);
     max_sub \<leftarrow> get_max_sub_page_count (sector_value f) header;
     let f = (if uint (subpage_count f) \<ge> max_sub then f\<lparr>subpage_count := 0, page_count := page_count f + 1\<rparr> else f);
     let offset = uint (page_count f) * uint (sector_value f) + uint (subpage_count f) * get_max_payload_size header;
     let f = (case fouta_read_fd f of None \<Rightarrow> f | Some _ \<Rightarrow> f\<lparr>file_pos := nat offset\<rparr>);
     let place = [subpage_count f, ucast (drop_bit 8 (page_count f)), ucast (page_count f AND 0xFF)];
     cmd \<leftarrow> memcpy_to (image_tf_command f) (unat (FUOTA_Cmd_Header_Len f) + 4) place;
     exp \<leftarrow> memcpy_to (rf_fuota_expected_resp_header f) (unat (FUOTA_Resp_Header_Len f) + 4) place;
     temp \<leftarrow> memcpy_from (temp_expect_buf f) 0 (unat (response_length f));
     exp \<leftarrow> memcpy_to exp 0 temp;
     Some (f\<lparr>image_tf_command := cmd, rf_fuota_expected_resp_header := exp\<rparr>)
   }"

section \<open>The answer to a sub-page\<close>

datatype FuotaStatus = FUOTA_SUCCESS | FUOTA_RETRY | FUOTA_JUMP | FUOTA_ABORT

abbreviation (input) MAX_FUOTA_RETRIES :: nat where "MAX_FUOTA_RETRIES \<equiv> 3"

text \<open>The expected response is overwritten with \<open>temp_expect_buf\<close> before a repetition.\<close>

definition retry_with_template :: "fuota \<Rightarrow> (FuotaStatus \<times> fuota) option" where
  "retry_with_template f = do {
     temp \<leftarrow> memcpy_from (temp_expect_buf f) 0 (unat (response_length f));
     exp \<leftarrow> memcpy_to (rf_fuota_expected_resp_header f) 0 temp;
     Some (FUOTA_RETRY, f\<lparr>rf_fuota_expected_resp_header := exp\<rparr>)
   }"

text \<open>\<open>n\<close> is \<open>bytes_read\<close>, which is \<open>no_of_bytes_read_serial\<close>.  A page mismatch is logged by passing the \<open>bool\<close> for
  a \<open>%s\<close>, which reads a string from the address 1.\<close>

definition handle_fuota_post_read :: "nat \<Rightarrow> fuota \<Rightarrow> (FuotaStatus \<times> fuota) option" where
  "handle_fuota_post_read n f = do {
     received \<leftarrow> memcpy_from (fuota_rbuf f) 0 (unat (response_length f));
     expected \<leftarrow> memcpy_from (rf_fuota_expected_resp_header f) 0 (unat (response_length f));
     if received = expected
     then Some (FUOTA_SUCCESS, f\<lparr>cntx := (cntx f)\<lparr>alternate_retry := 0\<rparr>, fuota_imagetf_retry_count := 0,
            fuotaimagetf_alternate_count := 0, using_alternate_path := False\<rparr>)
     else if n = 0
     then (let f = ondemand_fuota_update_status 4 0 (request_id f) (f\<lparr>fuota_imagetf_retry_count := fuota_imagetf_retry_count f + 1\<rparr>)
           in Some (if unat (fuota_imagetf_retry_count f) \<ge> MAX_FUOTA_RETRIES then FUOTA_ABORT else FUOTA_RETRY, f))
     else do {
       timeout \<leftarrow> andB (eqB (fuota_rbuf f, 0) 2 0x09) (eqB (fuota_rbuf f, 0) (uint (response_length f) - 1) 0x06);
       cmd_progress \<leftarrow> andB (eqB (fuota_rbuf f, 0) 2 0x09) (eqB (fuota_rbuf f, 0) (uint (response_length f) - 1) 0x07);
       subpage_mismatch \<leftarrow> andB (eqB (fuota_rbuf f, 0) 2 0x0A) (eqB (fuota_rbuf f, 0) (int n - 2) 0x02);
       page_mismatch \<leftarrow> andB (eqB (fuota_rbuf f, 0) 2 0x0A) (eqB (fuota_rbuf f, 0) (int n - 2) 0x03);
       if page_mismatch then None
       else if subpage_mismatch
       then do {
         (st, f) \<leftarrow> rffuota_read_lastsector_page_and_subpage_status f;
         if \<not> valid st then Some (FUOTA_RETRY, f)
         else do {
           f \<leftarrow> fix_page_subpage_and_seek (f\<lparr>page_count := word_of_int (page st), subpage_count := word_of_int (subpage st)\<rparr>);
           Some (FUOTA_JUMP, f\<lparr>fuota_imagetf_retry_count := 0, fuotaimagetf_alternate_count := 0\<rparr>)
         }
       }
       else if \<not> using_alternate_path f
       then do {
         let f = f\<lparr>fuota_imagetf_retry_count := fuota_imagetf_retry_count f + 1\<rparr>;
         if unat (fuota_imagetf_retry_count f) < 3 then retry_with_template f
         else do {
           let f = f\<lparr>using_alternate_path := True, fuotaimagetf_alternate_count := 0\<rparr>;
           len \<leftarrow> rd (image_tf_command f, 0) (uint (BASE_HDR_LEN f) + 1);
           command \<leftarrow> memcpy_from (image_tf_command f) (unat (BASE_HDR_LEN f)) (unat len);
           f \<leftarrow> prepare_alternate_sameroute_retry command f;
           Some (FUOTA_RETRY, f)
         }
       }
       else do {
         let f = f\<lparr>fuotaimagetf_alternate_count := fuotaimagetf_alternate_count f + 1\<rparr>;
         if fuotaimagetf_alternate_count f < 3 then retry_with_template f else Some (FUOTA_ABORT, f)
       }
     }
   }"

section \<open>Completion\<close>

definition parse_and_update_fuota_request :: "cstr \<Rightarrow> fuota \<Rightarrow> (bool \<times> fuota) option" where
  "parse_and_update_fuota_request cmd f =
     (let parts = split cmd CHR '':''
      in if length parts < 7 then Some (False, f)
         else do {
           req \<leftarrow> stoi 10 (parts ! 0);
           Some (True, f\<lparr>request_id := req, client_firmware_path := parts ! 5, firmware_file := parts ! 6\<rparr>)
         })"

definition handle_fuota_completion :: "(fuota \<Rightarrow> (int \<times> fuota) option) \<Rightarrow> fuota \<Rightarrow> fuota option" where
  "handle_fuota_completion cansend f = (case dequeue_fuota (requests f) of
       (Some next_cmd, m) \<Rightarrow> do {
         (parsed, f) \<leftarrow> parse_and_update_fuota_request next_cmd (f\<lparr>requests := m\<rparr>);
         Some (if parsed then f\<lparr>waiting_for_response := False, ondemand_fuota_state := OPEN_FILE\<rparr> else f)
       }
     | (None, m) \<Rightarrow> map_option snd (cansend (f\<lparr>ondemand_fuota_state := NETWORK_UNSILENCE\<rparr>)))"

definition prepare_and_get_the_endof_image_transfer :: "fuota \<Rightarrow> (int \<times> fuota) option" where
  "prepare_and_get_the_endof_image_transfer f = do {
     f \<leftarrow> (if ondemand_fuota_state f = FW_IMAGE_ENDOF_PAGE_TRANSFER
          then map_option snd (frame_pmesh_fuota_cmd_header_for_target_node FUOTA_DATA_QUERY Endof_image_transfer f) else Some f);
     build_and_store_fuota_cmd f
   }"

section \<open>One sub-page\<close>

text \<open>\<open>fread\<close> of the next part of the file into 128 bytes; the result tells whether it is the last part of
  its page.\<close>

definition read_sub_page :: "fuota \<Rightarrow> (bool \<times> bytes \<times> fuota) option" where
  "read_sub_page f = do {
     cmd \<leftarrow> memcpy_to (image_tf_command f) 0 [0x2E, BASE_HDR_LEN f - 1];
     let header = uint (BASE_HDR_LEN f);
     sub_pages \<leftarrow> get_max_sub_page_count (sector_value f) header;
     let last_subpage = (uint (subpage_count f) = sub_pages - 1);
     n \<leftarrow> (if last_subpage then get_min_payload_size (sector_value f) header else Some (get_max_payload_size header));
     file \<leftarrow> fouta_read_fd f;
     let data = take (nat n) (drop (file_pos f) file);
     if n < 0 \<or> length data > 128 then None
     else Some (last_subpage, data, f\<lparr>image_tf_command := cmd, file_pos := file_pos f + length data\<rparr>)
   }"

text \<open>The command for it and the confirmation expected.\<close>

definition frame_sub_page :: "bytes \<Rightarrow> bool \<Rightarrow> fuota \<Rightarrow> fuota option" where
  "frame_sub_page data last_subpage f = do {
     let B = unat (BASE_HDR_LEN f);
     cmd \<leftarrow> memcpy_to (image_tf_command f) (B + 4) [subpage_count f, ucast (drop_bit 8 (page_count f)), ucast (page_count f)];
     cmd \<leftarrow> memcpy_to cmd (B + 7) data;
     cmd \<leftarrow> memcpy_to cmd (B + 1) [word_of_nat (length data + 7)];
     sum \<leftarrow> fuota_checksum cmd B (unat (word_of_nat (length data + 7) :: u8));
     cmd \<leftarrow> memcpy_to cmd (B + 7 + length data) [sum];
     let total_len = 2 + B - 1 + 7 + length data + 1;
     cmd \<leftarrow> memcpy_to cmd 1 [word_of_nat (total_len - 2)];
     exp \<leftarrow> build_image_tf_expected_rx (unat (FUOTA_Resp_Header_Len f)) (ucast (page_count f)) (subpage_count f) last_subpage
              (rf_fuota_expected_resp_header f);
     Some (f\<lparr>image_tf_command := cmd, command_length := word_of_nat (total_len - 1), rf_fuota_expected_resp_header := exp\<rparr>)
   }"

datatype sub_page_end = SubBreak | SubReturn int

text \<open>Nothing that the answer to a sub-page makes the program do gives receptions back.\<close>

named_theorems upload_calm "operations that leave the file and its position, and take no reception back"

abbreviation awaited :: "fuota \<Rightarrow> nat" where
  "awaited f \<equiv> pending (owner f)"

lemma send_pending: "send left c = (w, c') \<Longrightarrow> pending c' = pending c"
  by (auto simp: send_def pending_def Let_def split: list.splits)

lemma recv_awaited:
  assumes "recv n c = (r, b, c')" and "0 < n" and "inbox c \<noteq> []"
  shows "pending c' < pending c"
  using assms by (auto simp: recv_def pending_def split: list.splits prod.splits rx.splits if_splits)

lemma recv_nothing: "inbox c = [] \<Longrightarrow> recv n c = (RxTimeout, replicate n 0, c)"
  by (simp add: recv_def)

text \<open>The file stays open and nothing received comes back.\<close>

definition goes_on :: "fuota \<Rightarrow> fuota \<Rightarrow> bool" where
  "goes_on f f' \<longleftrightarrow> awaited f' \<le> awaited f \<and> fouta_read_fd f' = fouta_read_fd f"

lemma goes_on_refl [simp]: "goes_on f f"
  by (simp add: goes_on_def)

lemma goes_on_trans: "goes_on f g \<Longrightarrow> goes_on g h \<Longrightarrow> goes_on f h"
  by (auto simp: goes_on_def)

lemma status_goes_on [simp]: "goes_on f (ondemand_fuota_update_status a b i g) \<longleftrightarrow> goes_on f g"
  by (simp add: goes_on_def ondemand_fuota_update_status_def Let_def split: option.splits)

lemma frame_target_goes_on [upload_calm]:
  "frame_pmesh_fuota_cmd_header_for_target_node t cmd f = Some (r, f') \<Longrightarrow> goes_on f f'"
  by (auto simp: frame_pmesh_fuota_cmd_header_for_target_node_def Let_def goes_on_def split: if_splits bind_splits)

lemma response_buff_goes_on [upload_calm]: "update_fuota_response_buff f = Some (n, f') \<Longrightarrow> goes_on f f'"
  by (auto simp: update_fuota_response_buff_def goes_on_def split: bind_splits)

lemma with_route_goes_on [upload_calm]: "update_client_tx_buffer_with_route d f = Some (r, f') \<Longrightarrow> goes_on f f'"
  by (auto simp: update_client_tx_buffer_with_route_def Let_def goes_on_def split: bind_splits if_splits)

lemma alternate_row_goes_on: "alternate_network_row row f = Some f' \<Longrightarrow> goes_on f f'"
  by (auto simp: alternate_network_row_def insert_alternate_path_def goes_on_def split: bind_splits if_splits option.splits)

lemma alternate_rows_goes_on: "foldM alternate_network_row rows f = Some f' \<Longrightarrow> goes_on f f'"
  by (induction rows arbitrary: f) (auto split: bind_splits dest!: alternate_row_goes_on intro: goes_on_trans)

lemma alternate_db_goes_on [upload_calm]: "get_alternate_source_route_network_from_db f = Some (r, f') \<Longrightarrow> goes_on f f'"
  by (auto simp: get_alternate_source_route_network_from_db_def goes_on_def split: list.splits option.splits bind_splits
    dest!: alternate_rows_goes_on)

lemma same_transport:
  "goes_on f (g\<lparr>current_fuota_route := r, current_fuota_target_mac := m\<rparr>) \<longleftrightarrow> goes_on f g"
  "goes_on f (g\<lparr>cntx := x\<rparr>) \<longleftrightarrow> goes_on f g" "goes_on (g\<lparr>cntx := x\<rparr>) f \<longleftrightarrow> goes_on g f"
  "goes_on (ondemand_fuota_update_status a b i g) f \<longleftrightarrow> goes_on g f"
  by (simp_all add: goes_on_def ondemand_fuota_update_status_def Let_def split: option.splits)

lemma image_route_goes_on [upload_calm]: "build_alternateroute_image_transfer n f = Some (r, f') \<Longrightarrow> goes_on f f'"
  by (auto simp: build_alternateroute_image_transfer_def Let_def same_transport split: if_splits bind_splits option.splits
    dest!: alternate_db_goes_on)

lemma same_route_goes_on [upload_calm]: "prepare_alternate_sameroute_retry d f = Some f' \<Longrightarrow> goes_on f f'"
  by (auto simp: prepare_alternate_sameroute_retry_def Let_def same_transport split: if_splits bind_splits
    dest!: with_route_goes_on image_route_goes_on intro: goes_on_trans)

lemma parse_sector_goes_on [upload_calm]: "parse_last_sector b n f = Some (r, f') \<Longrightarrow> goes_on f f'"
  by (auto simp: parse_last_sector_def Let_def split: if_splits bind_splits dest!: response_buff_goes_on)

lemma owner_goes_on: "pending c \<le> awaited f \<Longrightarrow> goes_on f (f\<lparr>owner := c\<rparr>)"
  by (simp add: goes_on_def)

lemma last_sector_goes_on [upload_calm]: "last_sector_loop n frame f = Some (r, f') \<Longrightarrow> goes_on f f'"
proof (induction n arbitrary: f)
  case (Suc n)
  obtain sent c where s: "send frame (owner f) = (sent, c)" by (cases "send frame (owner f)")
  obtain x b c' where r: "recv 512 c = (x, b, c')" by (rule prod_cases3)
  have "pending c = awaited f" "pending c' \<le> awaited f"
    using send_pending [OF s] recv_pending(1) [OF r] by simp_all
  then have le: "goes_on f (f\<lparr>owner := c\<rparr>)" "goes_on f (f\<lparr>owner := c'\<rparr>)" by (simp_all add: owner_goes_on)
  from Suc.prems Suc.IH [of "f\<lparr>owner := c\<rparr>"] Suc.IH [of "f\<lparr>owner := c'\<rparr>"] parse_sector_goes_on [of b _ "f\<lparr>owner := c'\<rparr>" r f'] s r
  show ?case using goes_on_trans [OF le(1)] goes_on_trans [OF le(2)]
    by (auto simp: Let_def split: if_splits rx.splits)
qed simp

lemma read_sector_goes_on [upload_calm]:
  "rffuota_read_lastsector_page_and_subpage_status f = Some (st, f') \<Longrightarrow> goes_on f f'"
  by (auto simp: rffuota_read_lastsector_page_and_subpage_status_def Let_def same_transport split: bind_splits
    dest!: frame_target_goes_on last_sector_goes_on intro: goes_on_trans)

lemma seek_goes_on [upload_calm]: "fix_page_subpage_and_seek f = Some f' \<Longrightarrow> goes_on f f'"
  by (auto simp: fix_page_subpage_and_seek_def Let_def goes_on_def split: bind_splits option.splits if_splits)

lemma retry_goes_on [upload_calm]: "retry_with_template f = Some (d, f') \<Longrightarrow> goes_on f f'"
  by (auto simp: retry_with_template_def goes_on_def split: bind_splits)

lemma same_transport2:
  "goes_on (g\<lparr>page_count := p, subpage_count := q\<rparr>) f \<longleftrightarrow> goes_on g f"
  "goes_on (g\<lparr>fuota_imagetf_retry_count := k\<rparr>) f \<longleftrightarrow> goes_on g f"
  "goes_on f (g\<lparr>fuota_imagetf_retry_count := k\<rparr>) \<longleftrightarrow> goes_on f g"
  "goes_on f (g\<lparr>fuotaimagetf_alternate_count := a\<rparr>) \<longleftrightarrow> goes_on f g"
  "goes_on (g\<lparr>fuotaimagetf_alternate_count := a\<rparr>) f \<longleftrightarrow> goes_on g f"
  "goes_on f (g\<lparr>using_alternate_path := b\<rparr>) \<longleftrightarrow> goes_on f g"
  "goes_on (g\<lparr>using_alternate_path := b\<rparr>) f \<longleftrightarrow> goes_on g f"
  by (simp_all add: goes_on_def)

lemma jump_goes_on:
  assumes "rffuota_read_lastsector_page_and_subpage_status f = Some (st, g)"
    and "fix_page_subpage_and_seek (g\<lparr>page_count := p, subpage_count := q\<rparr>) = Some f'"
  shows "goes_on f f'"
  using read_sector_goes_on [OF assms(1)] seek_goes_on [OF assms(2)] by (auto simp: same_transport2 intro: goes_on_trans)

lemma post_read_goes_on [upload_calm]: "handle_fuota_post_read n f = Some (d, f') \<Longrightarrow> goes_on f f'"
  unfolding handle_fuota_post_read_def
  by (auto simp: Let_def same_transport same_transport2 split: bind_splits if_splits
      dest!: same_route_goes_on retry_goes_on)
    (erule read_sector_goes_on jump_goes_on, assumption?)+

lemma answer_taken:
  assumes "send frame (owner f) = (w, c)" and "recv 130 c = (r, b, c')"
  shows "pending c' \<le> awaited f" and "r = RxData bs \<Longrightarrow> pending c' < awaited f"
    and "pending c' = awaited f \<Longrightarrow> inbox c' = [] \<and> inbox c = []"
  using send_pending [OF assms(1)] recv_pending [OF assms(2)] recv_awaited [OF assms(2)] assms(2)
  by (auto simp: recv_nothing) (metis less_irrefl prod.inject recv_nothing zero_less_numeral)+

lemma answer_handled:
  assumes "send frame (owner f) = (w, c)" and "recv 130 c = (RxData bs, b, c')"
    and "handle_fuota_post_read n (f\<lparr>owner := c', fuota_rbuf := rbuf, response_length := len\<rparr>) = Some (d, f')"
  shows "awaited f' < awaited f" and "fouta_read_fd f' = fouta_read_fd f"
  using answer_taken(2) [OF assms(1,2)] post_read_goes_on [OF assms(3)] by (auto simp: goes_on_def)

lemma count_up: "unat k < 3 \<Longrightarrow> unat (k + 1) = Suc (unat k)" for k :: u8
  by (simp add: unat_word_ariths)

text \<open>Sending the command until it is confirmed, at most \<open>MAX_FUOTA_RETRIES\<close> times without an answer that
  resets the count.  A reception that fails gives -1, which is not \<open><= 0\<close> in the unsigned
  \<open>no_of_bytes_read_serial\<close>: the log of what was read leaves the buffer.\<close>

function send_sub_page :: "(fuota \<Rightarrow> (int \<times> fuota) option) \<Rightarrow> fuota \<Rightarrow> (sub_page_end \<times> fuota) option" where
  "send_sub_page cansend f =
     (if unat (fuota_imagetf_retry_count f) < MAX_FUOTA_RETRIES
      then do {
        frame \<leftarrow> memcpy_from (image_tf_command f) 0 (unat (command_length f));
        let (write_ret, c) = send frame (owner f);
        if write_ret < 0
        then Some (SubReturn e_failure, ondemand_fuota_update_status 1 0 (request_id f) (f\<lparr>owner := c\<rparr>))
        else (case recv 130 c of
            (RxError, _) \<Rightarrow> None
          | (RxData bs, _, c) \<Rightarrow> do {
              rbuf \<leftarrow> memcpy_to (fuota_rbuf f) 0 bs;
              len \<leftarrow> rd (rf_fuota_expected_resp_header f, 0) 1;
              (decision, f) \<leftarrow> handle_fuota_post_read (length bs) (f\<lparr>owner := c, fuota_rbuf := rbuf, response_length := len + 1\<rparr>);
              case decision of
                  FUOTA_SUCCESS \<Rightarrow> Some (SubBreak, f)
                | FUOTA_RETRY \<Rightarrow> send_sub_page cansend f
                | FUOTA_JUMP \<Rightarrow> Some (SubBreak, f)
                | FUOTA_ABORT \<Rightarrow> map_option (Pair (SubReturn e_success_1))
                    (handle_fuota_completion cansend (ondemand_fuota_update_status 11 0 (request_id f) f))
            }
          | (_, _, c) \<Rightarrow> send_sub_page cansend (f\<lparr>owner := c, fuota_imagetf_retry_count := fuota_imagetf_retry_count f + 1\<rparr>))
      }
      else Some (SubBreak, f))"
  by pat_completeness auto
termination
proof (relation "measures [\<lambda>(cansend, f). awaited f, \<lambda>(cansend, f). 3 - unat (fuota_imagetf_retry_count f)]", goal_cases)
  case 1
  then show ?case by simp
qed (auto simp: count_up dest: answer_taken(1) [OF sym sym] answer_handled(1) [OF sym sym])

declare send_sub_page.simps [simp del]

section \<open>The whole image\<close>

datatype upload_end = UploadDone | UploadReturn int | UploadNext

definition advance_sub_page :: "bool \<Rightarrow> fuota \<Rightarrow> fuota" where
  "advance_sub_page last_subpage f =
     (if \<not> last_subpage then f\<lparr>subpage_count := subpage_count f + 1\<rparr>
      else f\<lparr>subpage_count := 0, page_count := page_count f + 1\<rparr>)"

text \<open>What follows the exchange of a sub-page.  Three repetitions end the transfer unless the count of
  alternate routes says that they are used up.\<close>

definition after_sub_page :: "(fuota \<Rightarrow> (int \<times> fuota) option) \<Rightarrow> bool \<Rightarrow> sub_page_end \<Rightarrow> fuota \<Rightarrow> (upload_end \<times> fuota) option" where
  "after_sub_page cansend last_subpage sent f = (case sent of
       SubReturn r \<Rightarrow> Some (UploadReturn r, f)
     | SubBreak \<Rightarrow>
         (if unat (fuota_imagetf_retry_count f) = MAX_FUOTA_RETRIES
          then (let f = f\<lparr>using_alternate_path := True, fuotaimagetf_alternate_count := alternate_retry (cntx f)\<rparr>
                in if fuotaimagetf_alternate_count f < 3
                   then map_option (Pair (UploadReturn e_success_1)) (handle_fuota_completion cansend f)
                   else Some (UploadNext, advance_sub_page last_subpage f))
          else Some (UploadNext, advance_sub_page last_subpage f)))"

text \<open>One pass of the main loop.\<close>

definition upload_step :: "(fuota \<Rightarrow> (int \<times> fuota) option) \<Rightarrow> fuota \<Rightarrow> (upload_end \<times> fuota) option" where
  "upload_step cansend f = do {
     pages \<leftarrow> get_max_page_count (sector_value f) (total_firmwaresize f);
     if \<not> page_count f < pages then Some (UploadDone, f)
     else do {
       (last_subpage, data, f) \<leftarrow> read_sub_page f;
       if data = [] then Some (UploadDone, f)
       else do {
         f \<leftarrow> frame_sub_page data last_subpage f;
         let f = ondemand_fuota_update_status 11 1 (request_id f) (f\<lparr>fuota_imagetf_retry_count := 0\<rparr>);
         (sent, f) \<leftarrow> send_sub_page cansend f;
         after_sub_page cansend last_subpage sent f
       }
     }
   }"

definition left_of_file :: "fuota \<Rightarrow> nat" where
  "left_of_file f = (case fouta_read_fd f of None \<Rightarrow> 0 | Some file \<Rightarrow> length file - file_pos f)"

lemma same_file:
  "left_of_file (f\<lparr>owner := c\<rparr>) = left_of_file f" "left_of_file (f\<lparr>fuota_imagetf_retry_count := k\<rparr>) = left_of_file f"
  "left_of_file (ondemand_fuota_update_status a b i f) = left_of_file f"
  "left_of_file (f\<lparr>using_alternate_path := u, fuotaimagetf_alternate_count := n\<rparr>) = left_of_file f"
  "left_of_file (advance_sub_page l f) = left_of_file f"
  by (simp_all add: left_of_file_def ondemand_fuota_update_status_def advance_sub_page_def Let_def split: option.splits)

text \<open>What one pass of the inner loop can do.\<close>

lemma send_sub_page_cases:
  assumes "send_sub_page cansend f = Some (e, f')"
  obtains (over) "\<not> unat (fuota_imagetf_retry_count f) < 3" "e = SubBreak" "f' = f"
    | (silent) frame w c r b c' where "unat (fuota_imagetf_retry_count f) < 3" "send frame (owner f) = (w, c)"
        "recv 130 c = (r, b, c')"
        "send_sub_page cansend (f\<lparr>owner := c', fuota_imagetf_retry_count := fuota_imagetf_retry_count f + 1\<rparr>) = Some (e, f')"
    | (again) g where "awaited g < awaited f" "fouta_read_fd g = fouta_read_fd f" "send_sub_page cansend g = Some (e, f')"
    | (decided) "awaited f' < awaited f" "fouta_read_fd f' = fouta_read_fd f" "e = SubBreak"
    | (returned) x where "e = SubReturn x"
proof (cases "unat (fuota_imagetf_retry_count f) < 3")
  case False
  then have "send_sub_page cansend f = Some (SubBreak, f)" by (subst send_sub_page.simps) (rule if_not_P)
  with assms False show thesis by (intro that(1)) simp_all
next
  case True
  with assms obtain frame where frame: "memcpy_from (image_tf_command f) 0 (unat (command_length f)) = Some frame"
    by (subst (asm) send_sub_page.simps) (auto split: bind_splits)
  obtain w c where s: "send frame (owner f) = (w, c)" by (cases "send frame (owner f)")
  obtain r b c' where r: "recv 130 c = (r, b, c')" by (rule prod_cases3)
  note run = assms [unfolded send_sub_page.simps [of _ f]]
  show thesis
  proof (cases "w < 0")
    case True
    with run frame s \<open>unat _ < 3\<close> that(5) show thesis by auto
  next
    case False
    note known = run True frame s r False
    show thesis
    proof (cases r)
      case (RxData bs)
      with known obtain rbuf len d g where g: "handle_fuota_post_read (length bs)
          (f\<lparr>owner := c', fuota_rbuf := rbuf, response_length := len + 1\<rparr>) = Some (d, g)"
        and d: "(case d of FUOTA_SUCCESS \<Rightarrow> Some (SubBreak, g) | FUOTA_RETRY \<Rightarrow> send_sub_page cansend g
          | FUOTA_JUMP \<Rightarrow> Some (SubBreak, g)
          | FUOTA_ABORT \<Rightarrow> map_option (Pair (SubReturn e_success_1))
              (handle_fuota_completion cansend (ondemand_fuota_update_status 11 0 (request_id g) g))) = Some (e, f')"
        by (auto split: bind_splits)
      note calm = answer_handled [OF s r [unfolded RxData] g]
      from d show thesis
        by (cases d) (use calm in \<open>auto intro: that(3-5)\<close>)
    next
      case RxTimeout
      with known that(2) [OF True s r] show thesis by simp
    next
      case RxClosed
      with known that(2) [OF True s r] show thesis by simp
    qed (use known in simp)
  qed
qed

text \<open>A sub-page ends after a reception was taken, or nothing came and the file is where it was.\<close>

lemma send_sub_page_progress:
  "send_sub_page cansend f = Some (SubBreak, f') \<Longrightarrow>
     awaited f' < awaited f \<or> awaited f' = awaited f \<and> left_of_file f' = left_of_file f"
proof (induction "4 * awaited f + (3 - unat (fuota_imagetf_retry_count f))" arbitrary: f rule: less_induct)
  case less
  from less.prems show ?case
  proof (cases rule: send_sub_page_cases)
    case (silent frame w c r b c')
    let ?g = "f\<lparr>owner := c', fuota_imagetf_retry_count := fuota_imagetf_retry_count f + 1\<rparr>"
    have le: "pending c' \<le> awaited f" by (rule answer_taken(1) [OF silent(2,3)])
    then have "awaited f' < awaited ?g \<or> awaited f' = awaited ?g \<and> left_of_file f' = left_of_file ?g"
      using silent(1) by (intro less.hyps silent(4)) (simp add: count_up)
    moreover have "left_of_file ?g = left_of_file f" by (simp add: left_of_file_def split: option.split)
    ultimately show ?thesis using le by auto
  next
    case (again g)
    with less.hyps [OF _ again(3)] show ?thesis by fastforce
  qed auto
qed

lemma read_sub_page_progress:
  assumes "read_sub_page f = Some (l, data, g)" and "data \<noteq> []"
  shows "awaited g = awaited f" and "left_of_file g < left_of_file f"
  using assms by (auto simp: read_sub_page_def Let_def left_of_file_def split: bind_splits if_splits)

lemma frame_sub_page_same:
  assumes "frame_sub_page data l f = Some g"
  shows "owner g = owner f" and "fouta_read_fd g = fouta_read_fd f" and "file_pos g = file_pos f"
    and "subpage_count g = subpage_count f" and "page_count g = page_count f"
  using assms by (auto simp: frame_sub_page_def Let_def split: bind_splits)

lemma upload_step_progress:
  assumes "upload_step cansend f = Some (UploadNext, f')"
  shows "awaited f' < awaited f \<or> awaited f' = awaited f \<and> left_of_file f' < left_of_file f"
proof -
  from assms obtain l data f1 f2 f3 where rd: "read_sub_page f = Some (l, data, f1)" "data \<noteq> []"
    and fr: "frame_sub_page data l f1 = Some f2"
    and sd: "send_sub_page cansend (ondemand_fuota_update_status 11 1 (request_id f2) (f2\<lparr>fuota_imagetf_retry_count := 0\<rparr>)) = Some (SubBreak, f3)"
    and f': "f' = advance_sub_page l (if unat (fuota_imagetf_retry_count f3) = 3
      then f3\<lparr>using_alternate_path := True, fuotaimagetf_alternate_count := alternate_retry (cntx f3)\<rparr> else f3)"
    unfolding upload_step_def after_sub_page_def by (auto simp: Let_def split: bind_splits if_splits sub_page_end.splits)
  have "awaited f' = awaited f3" "left_of_file f' = left_of_file f3"
    using f' by (auto simp: advance_sub_page_def left_of_file_def split: option.split)
  moreover have "awaited (ondemand_fuota_update_status a b i g) = awaited g" for a b i g
    by (simp add: ondemand_fuota_update_status_def Let_def)
  moreover have "left_of_file f2 = left_of_file f1"
    using frame_sub_page_same [OF fr] by (simp add: left_of_file_def split: option.split)
  moreover note send_sub_page_progress [OF sd] read_sub_page_progress [OF rd] frame_sub_page_same(1) [OF fr]
  ultimately show ?thesis by (auto simp: same_file)
qed

text \<open>The main loop: None is its normal end, otherwise the value with which the function returns.\<close>

function upload_loop :: "(fuota \<Rightarrow> (int \<times> fuota) option) \<Rightarrow> fuota \<Rightarrow> (int option \<times> fuota) option" where
  "upload_loop cansend f = do {
     (e, f) \<leftarrow> upload_step cansend f;
     case e of UploadDone \<Rightarrow> Some (None, f) | UploadReturn r \<Rightarrow> Some (Some r, f) | UploadNext \<Rightarrow> upload_loop cansend f
   }"
  by pat_completeness auto
termination
  by (relation "measures [\<lambda>(cansend, f). awaited f, \<lambda>(cansend, f). left_of_file f]")
    (auto dest!: upload_step_progress)

declare upload_loop.simps [simp del]

abbreviation (input) image_transfer :: bytes where "image_transfer \<equiv> [0x2F, 0x06, 0x06, 0x01, 0x00, 0x00, 0x00]"

definition fuota_uploading_process :: "(fuota \<Rightarrow> (int \<times> fuota) option) \<Rightarrow> fuota \<Rightarrow> (int \<times> fuota) option" where
  "fuota_uploading_process cansend f = do {
     let f = f\<lparr>page_count := 0, subpage_count := 0, fuota_imagetf_retry_count := 0\<rparr>;
     (resp_len, f) \<leftarrow> update_fuota_response_buff f;
     (cmd_len, f) \<leftarrow> update_fuota_image_transfer_tx_buff f;
     cmd \<leftarrow> memcpy_to (image_tf_command f) (unat cmd_len) image_transfer;
     len \<leftarrow> rd (cmd, 0) 1;
     cmd \<leftarrow> memcpy_to cmd 1 [len + 7];
     let f = f\<lparr>FUOTA_Resp_Header_Len := resp_len, FUOTA_Cmd_Header_Len := cmd_len, BASE_HDR_LEN := cmd_len,
               image_tf_command := cmd\<rparr>;
     _ \<leftarrow> fouta_read_fd f;
     (r, f) \<leftarrow> upload_loop cansend (f\<lparr>file_pos := 0\<rparr>);
     case r of
         Some r \<Rightarrow> Some (r, f)
       | None \<Rightarrow> prepare_and_get_the_endof_image_transfer
           (if ondemand_fuota_state f = FW_IMAGE_TRANSFER then f\<lparr>ondemand_fuota_state := FW_IMAGE_ENDOF_PAGE_TRANSFER\<rparr> else f)
   }"

end
