(* ===== verification/Fuota_Upload.thy ===== *)
theory Fuota_Upload
  imports Fuota_Transfer
begin

text \<open>
  What a transfer of a firmware image sends (\<open>fuota_uploading_process\<close> of \<open>HES/src/fuota.cpp\<close>).  The image is cut
  into sub-pages; the contract of a target towards one sub-page is the locale \<open>upload_target\<close>, under which
  the run over all sub-pages is proved once.  It is interpreted for a target that confirms everything and
  for one that never answers.
\<close>

section \<open>Buffers\<close>

lemma memcpy_to_at:
  "k = length xs \<Longrightarrow> length new = length old \<Longrightarrow> memcpy_to (xs @ old @ ys) k new = Some (xs @ new @ ys)"
  by (simp add: memcpy_to_def)

lemma memcpy_to_start: "length new = length old \<Longrightarrow> memcpy_to (old @ ys) 0 new = Some (new @ ys)"
  using memcpy_to_at [of 0 "[]" new old ys] by simp

lemma memcpy_from_at: "k = length xs \<Longrightarrow> n = length ys \<Longrightarrow> memcpy_from (xs @ ys @ zs) k n = Some ys"
  by (simp add: memcpy_from_def)

lemma memcpy_from_start: "n \<le> length buf \<Longrightarrow> memcpy_from buf 0 n = Some (take n buf)"
  by (simp add: memcpy_from_def)

lemma memcpy_to_length: "memcpy_to buf k new = Some buf' \<Longrightarrow> length buf' = length buf"
  by (auto simp: memcpy_to_def split: if_splits)

lemma split_at: "n \<le> length xs \<Longrightarrow> \<exists>ys zs. xs = ys @ zs \<and> length ys = n"
  by (rule exI [of _ "take n xs"], rule exI [of _ "drop n xs"]) simp

section \<open>The packet of a sub-page\<close>

text \<open>\<open>H\<close> is the mesh header behind the start byte and the length, \<open>R\<close> the part of the header of the
  answers from the network identifier on.\<close>

definition sub_page_command :: "nat \<Rightarrow> nat \<Rightarrow> bytes \<Rightarrow> bytes" where
  "sub_page_command k j data =
     [0x2F, word_of_nat (length data + 7), 0x06, 0x01, word_of_nat j, word_of_nat (k div 256), word_of_nat k] @ data"

definition sub_page_frame :: "bytes \<Rightarrow> nat \<Rightarrow> nat \<Rightarrow> bytes \<Rightarrow> bytes" where
  "sub_page_frame H k j data =
     (let command = sub_page_command k j data
      in [HES_START_BYTE, word_of_nat (length H + length command + 2)] @ H @ command @ [checksum8 command])"

definition sub_page_confirmation :: "bytes \<Rightarrow> nat \<Rightarrow> nat \<Rightarrow> bool \<Rightarrow> bytes" where
  "sub_page_confirmation R k j final =
     (let answer = [0x2D, 0x08, 0x07, 0x01, word_of_nat j, word_of_nat (k div 256), word_of_nat k, if final then 0x00 else 0x01]
      in [HES_START_BYTE, 0x17, 0x0A] @ R @ answer @ [checksum8 answer])"

text \<open>The templates are in place.\<close>

definition templates :: "bytes \<Rightarrow> bytes \<Rightarrow> fuota \<Rightarrow> bool" where
  "templates H R f \<longleftrightarrow> length H \<le> 110 \<and> length R = 12 \<and> BASE_HDR_LEN f = word_of_nat (length H + 2) \<and> FUOTA_Resp_Header_Len f = 15
     \<and> (\<exists>a b x s hi lo body. image_tf_command f = [a, b] @ H @ [0x2F, x, 0x06, 0x01, s, hi, lo] @ body \<and> length body = 119 - length H)
     \<and> (\<exists>a b c rest. rf_fuota_expected_resp_header f = [a, b, c] @ R @ rest \<and> length rest = 15)"

lemma unat_small: "n < 256 \<Longrightarrow> unat (word_of_nat n :: u8) = n"
  by (simp add: unsigned_of_nat take_bit_nat_eq_self)

lemma page_bytes:
  "k < 65536 \<Longrightarrow> ucast (drop_bit 8 (word_of_nat k :: u32)) = (word_of_nat (k div 256) :: u8)"
  "ucast (word_of_nat k :: u32) = (word_of_nat k :: u8)"
  "k < 65536 \<Longrightarrow> ucast (drop_bit 8 (ucast (word_of_nat k :: u32) :: u16)) = (word_of_nat (k div 256) :: u8)"
  "ucast ((ucast (word_of_nat k :: u32) :: u16) AND 0xFF) = (word_of_nat k :: u8)"
  subgoal by (simp add: word_unat_eq_iff unat_drop_bit_eq unat_div_distrib unsigned_of_nat take_bit_nat_eq_self drop_bit_eq_div take_bit_eq_mod unsigned_ucast_eq)
  subgoal by (simp add: word_unat_eq_iff unsigned_of_nat unsigned_ucast_eq take_bit_eq_mod mod_mod_cancel)
  subgoal by (simp add: word_unat_eq_iff unat_drop_bit_eq unat_div_distrib unsigned_of_nat take_bit_nat_eq_self drop_bit_eq_div take_bit_eq_mod unsigned_ucast_eq)
  subgoal by (simp add: word_unat_eq_iff low_byte unat_mod_distrib unsigned_of_nat unsigned_ucast_eq take_bit_eq_mod mod_mod_cancel unsigned_take_bit_eq)
  done

text \<open>The packet and the confirmation the program makes for a part of the file.\<close>

lemma frame_sub_page_made:
  assumes t: "templates H R f" and place: "page_count f = word_of_nat k" "k < 65536" "subpage_count f = word_of_nat j"
    and d: "length data \<le> 118 - length H" and start: "hd (image_tf_command f) = 0x2E"
  shows "\<exists>cmd exp. frame_sub_page data l f = Some (f\<lparr>image_tf_command := cmd,
      command_length := word_of_nat (length (sub_page_frame H k j data)), rf_fuota_expected_resp_header := exp\<rparr>)
    \<and> take (length (sub_page_frame H k j data)) cmd = sub_page_frame H k j data \<and> length cmd = 128
    \<and> take 24 exp = sub_page_confirmation R k j l
    \<and> templates H R (f\<lparr>image_tf_command := cmd, command_length := c, rf_fuota_expected_resp_header := exp\<rparr>)"
proof -
  from t obtain a b x s hi lo body where img: "image_tf_command f = [a, b] @ H @ [0x2F, x, 0x06, 0x01, s, hi, lo] @ body"
    and body: "length body = 119 - length H" and H: "length H \<le> 110" by (auto simp: templates_def)
  from t obtain e0 e1 e2 rest where exp: "rf_fuota_expected_resp_header f = [e0, e1, e2] @ R @ rest"
    and rest: "length rest = 15" "length R = 12" by (auto simp: templates_def)
  let ?n = "length data"
  let ?N = "word_of_nat (?n + 7) :: u8"
  let ?loc = "[word_of_nat j, word_of_nat (k div 256), word_of_nat k] :: bytes"
  have B: "unat (BASE_HDR_LEN f) = length H + 2"
    using t H unat_small [of "length H + 2"] by (simp add: templates_def del: of_nat_add)
  obtain old c tail where bd: "body = old @ [c] @ tail" "length old = ?n"
  proof -
    have "?n \<le> length body" using body d by linarith
    then obtain old r where "body = old @ r" "length old = ?n" using split_at [of ?n body] by auto
    moreover from this have "r \<noteq> []" using body d H by auto
    ultimately show thesis using that by (cases r) auto
  qed
  let ?cmd = "sub_page_command k j data"
  have loc: "[subpage_count f, ucast (drop_bit 8 (page_count f)), ucast (page_count f)] = ?loc"
    using place page_bytes by simp
  have 1: "memcpy_to (image_tf_command f) (length H + 2 + 4) ?loc = Some ([a, b] @ H @ [0x2F, x, 0x06, 0x01] @ ?loc @ body)"
    using memcpy_to_at [of "length H + 2 + 4" "[a, b] @ H @ [0x2F, x, 0x06, 0x01]" ?loc "[s, hi, lo]" body] img by simp
  have 2: "memcpy_to ([a, b] @ H @ [0x2F, x, 0x06, 0x01] @ ?loc @ body) (length H + 2 + 7) data
      = Some ([a, b] @ H @ [0x2F, x, 0x06, 0x01] @ ?loc @ data @ [c] @ tail)"
    using memcpy_to_at [of "length H + 2 + 7" "[a, b] @ H @ [0x2F, x, 0x06, 0x01] @ ?loc" data old "[c] @ tail"] bd by simp
  have 3: "memcpy_to ([a, b] @ H @ [0x2F, x, 0x06, 0x01] @ ?loc @ data @ [c] @ tail) (length H + 2 + 1) [?N]
      = Some ([a, b] @ H @ ?cmd @ [c] @ tail)"
    using memcpy_to_at [of "length H + 2 + 1" "[a, b] @ H @ [0x2F]" "[?N]" "[x]" "[0x06, 0x01] @ ?loc @ data @ [c] @ tail"]
    by (simp add: sub_page_command_def)
  have N: "unat ?N = ?n + 7" using d H unat_small [of "?n + 7"] by (simp del: of_nat_add)
  have cl: "length ?cmd = ?n + 7" by (simp add: sub_page_command_def)
  have 4: "fuota_checksum ([a, b] @ H @ ?cmd @ [c] @ tail) (length H + 2) (unat ?N) = Some (checksum8 ?cmd)"
    using memcpy_from_at [of "length H + 2" "[a, b] @ H" "unat ?N" ?cmd "[c] @ tail"] N cl
    by (simp add: fuota_checksum_def del: of_nat_add)
  have 5: "memcpy_to ([a, b] @ H @ ?cmd @ [c] @ tail) (length H + 2 + 7 + ?n) [checksum8 ?cmd]
      = Some ([a, b] @ H @ ?cmd @ [checksum8 ?cmd] @ tail)"
    using memcpy_to_at [of "length H + 2 + 7 + ?n" "[a, b] @ H @ ?cmd" "[checksum8 ?cmd]" "[c]" tail] cl by simp
  let ?L = "word_of_nat (length H + length ?cmd + 2) :: u8"
  have 6: "memcpy_to ([a, b] @ H @ ?cmd @ [checksum8 ?cmd] @ tail) 1 [?L] = Some ([a, ?L] @ H @ ?cmd @ [checksum8 ?cmd] @ tail)"
    using memcpy_to_at [of 1 "[a]" "[?L]" "[b]" "H @ ?cmd @ [checksum8 ?cmd] @ tail"] by simp
  let ?dlms = "[0x2D, 0x08, 0x07, 0x01, word_of_nat j, word_of_nat (k div 256), word_of_nat k, if l then 0x00 else 0x01] :: bytes"
  obtain o1 o2 rest' where rs: "rest = o1 @ [o2] @ rest'" "length o1 = 8" "length rest' = 6"
  proof -
    obtain o1 r where r: "rest = o1 @ r" "length o1 = 8" using split_at [of 8 rest] rest by auto
    with rest have "length r = 7" by auto
    with r that show thesis by (cases r) auto
  qed
  have 7: "build_image_tf_expected_rx 15 (ucast (page_count f)) (subpage_count f) l (rf_fuota_expected_resp_header f)
      = Some (sub_page_confirmation R k j l @ rest')"
  proof -
    have "memcpy_to (rf_fuota_expected_resp_header f) 0 [0x2E, 0x00, 0x0A] = Some ([0x2E, 0x00, 0x0A] @ R @ o1 @ [o2] @ rest')"
      using memcpy_to_start [of "[0x2E, 0x00, 0x0A]" "[e0, e1, e2]"] exp rs by simp
    moreover have "memcpy_to ([0x2E, 0x00, 0x0A] @ R @ o1 @ [o2] @ rest') 15 ?dlms = Some ([0x2E, 0x00, 0x0A] @ R @ ?dlms @ [o2] @ rest')"
      using memcpy_to_at [of 15 "[0x2E, 0x00, 0x0A] @ R" ?dlms o1 "[o2] @ rest'"] rest rs by simp
    moreover have "memcpy_to ([0x2E, 0x00, 0x0A] @ R @ ?dlms @ [o2] @ rest') (15 + 8) [checksum8 ?dlms]
        = Some ([0x2E, 0x00, 0x0A] @ R @ ?dlms @ [checksum8 ?dlms] @ rest')"
      using memcpy_to_at [of "15 + 8" "[0x2E, 0x00, 0x0A] @ R @ ?dlms" "[checksum8 ?dlms]" "[o2]" rest'] rest by simp
    moreover have "memcpy_to ([0x2E, 0x00, 0x0A] @ R @ ?dlms @ [checksum8 ?dlms] @ rest') 1 [0x17]
        = Some (sub_page_confirmation R k j l @ rest')"
      using memcpy_to_at [of 1 "[0x2E]" "[0x17]" "[0x00]" "[0x0A] @ R @ ?dlms @ [checksum8 ?dlms] @ rest'"]
      by (simp add: sub_page_confirmation_def Let_def)
    moreover have "[0x2D, 0x08, 0x07, 0x01, subpage_count f, ucast (drop_bit 8 (ucast (page_count f) :: u16)),
        ucast ((ucast (page_count f) :: u16) AND 0xFF), if l then 0x00 else 0x01] = ?dlms"
      using place page_bytes by simp
    ultimately show ?thesis by (simp only: build_image_tf_expected_rx_def Let_def) simp
  qed
  have a: "a = 0x2E" using start img by simp
  have len: "length (sub_page_frame H k j data) = length H + ?n + 10"
    by (simp add: sub_page_frame_def sub_page_command_def Let_def)
  let ?img = "sub_page_frame H k j data @ tail"
  have img': "[a, ?L] @ H @ ?cmd @ [checksum8 ?cmd] @ tail = ?img"
    using a by (simp add: sub_page_frame_def Let_def add.commute)
  have lens: "length ?img = 128" using len bd body H by simp
  have conf: "length (sub_page_confirmation R k j l) = 24" using rest by (simp add: sub_page_confirmation_def Let_def)
  have made: "frame_sub_page data l f = Some (f\<lparr>image_tf_command := ?img,
      command_length := word_of_nat (length (sub_page_frame H k j data)), rf_fuota_expected_resp_header := sub_page_confirmation R k j l @ rest'\<rparr>)"
  proof -
    have "unat (FUOTA_Resp_Header_Len f) = 15" using t by (simp add: templates_def)
    moreover have "2 + (length H + 2) - 1 + 7 + ?n + 1 - 2 = length H + length ?cmd + 2"
      "2 + (length H + 2) - 1 + 7 + ?n + 1 - 1 = length (sub_page_frame H k j data)" using cl len by simp_all
    ultimately show ?thesis
      by (simp only: frame_sub_page_def Let_def B loc 1 2 3 4 5 6 7 img' Option.bind.bind_lunit)
  qed
  have "templates H R (f\<lparr>image_tf_command := ?img, command_length := c',
      rf_fuota_expected_resp_header := sub_page_confirmation R k j l @ rest'\<rparr>)" for c'
  proof -
    have "\<exists>a b x s hi lo body'. ?img = [a, b] @ H @ [0x2F, x, 0x06, 0x01, s, hi, lo] @ body' \<and> length body' = 119 - length H"
      using lens len by (intro exI [of _ "data @ checksum8 ?cmd # tail"] exI conjI)
        (auto simp: sub_page_frame_def sub_page_command_def Let_def)
    moreover have "\<exists>a b c rest. sub_page_confirmation R k j l @ rest' = [a, b, c] @ R @ rest \<and> length rest = 15"
      using rs by (auto simp: sub_page_confirmation_def Let_def)
    ultimately show ?thesis using t by (simp add: templates_def)
  qed
  with made lens conf show ?thesis
    by (intro exI [of _ ?img] exI [of _ "sub_page_confirmation R k j l @ rest'"]) simp
qed

section \<open>The parts of the image\<close>

text \<open>How many bytes a full sub-page carries under a header with \<open>H\<close>, and how many sub-pages a sector has.\<close>

definition payload_size :: "bytes \<Rightarrow> nat" where
  "payload_size H = 118 - length H"

definition sub_pages :: "bytes \<Rightarrow> nat \<Rightarrow> nat" where
  "sub_pages H sector = sector div payload_size H + 1"

text \<open>The \<open>i\<close>-th part that is sent.\<close>

definition part_place :: "bytes \<Rightarrow> nat \<Rightarrow> nat \<Rightarrow> nat" where
  "part_place H sector i = i div sub_pages H sector * sector + i mod sub_pages H sector * payload_size H"

definition last_part :: "bytes \<Rightarrow> nat \<Rightarrow> nat \<Rightarrow> bool" where
  "last_part H sector i \<longleftrightarrow> i mod sub_pages H sector = sector div payload_size H"

definition part_of_image :: "bytes \<Rightarrow> nat \<Rightarrow> bytes \<Rightarrow> nat \<Rightarrow> bytes" where
  "part_of_image H sector file i =
     take (if last_part H sector i then sector mod payload_size H else payload_size H) (drop (part_place H sector i) file)"

definition parts_of_image :: "bytes \<Rightarrow> nat \<Rightarrow> bytes \<Rightarrow> nat" where
  "parts_of_image H sector file = length file div sector * sub_pages H sector"

definition image_frame :: "bytes \<Rightarrow> nat \<Rightarrow> bytes \<Rightarrow> nat \<Rightarrow> bytes" where
  "image_frame H sector file i =
     sub_page_frame H (i div sub_pages H sector) (i mod sub_pages H sector) (part_of_image H sector file i)"

definition image_confirmation :: "bytes \<Rightarrow> bytes \<Rightarrow> nat \<Rightarrow> nat \<Rightarrow> bytes" where
  "image_confirmation H R sector i =
     sub_page_confirmation R (i div sub_pages H sector) (i mod sub_pages H sector) (last_part H sector i)"

text \<open>The header and the sector allow every sub-page to be numbered, and the last one of a sector is not empty.\<close>

definition sizes_fit :: "bytes \<Rightarrow> nat \<Rightarrow> bytes \<Rightarrow> bool" where
  "sizes_fit H sector file \<longleftrightarrow> length H < 110 \<and> 0 < sector \<and> sector < 65536 \<and> sector div payload_size H < 256
     \<and> sector mod payload_size H \<noteq> 0 \<and> length file < 2 ^ 32 \<and> length file div sector < 65536"

lemma sint_small: "n < 2 ^ 31 \<Longrightarrow> sint (word_of_nat n :: u32) = int n"
  by (simp add: signed_of_nat signed_take_bit_int_eq_self)

lemma div_small: "a < 2 ^ 32 \<Longrightarrow> b < 2 ^ 32 \<Longrightarrow> (word_of_nat a :: u32) div word_of_nat b = word_of_nat (a div b)"
  by (simp add: word_unat_eq_iff unat_div_distrib unsigned_of_nat take_bit_nat_eq_self div_le_dividend [THEN le_less_trans])

lemma sizes_of_header:
  assumes "length H \<le> 110" and "sector < 65536"
  shows "get_max_payload_size (int (length H + 2)) = int (payload_size H)" and "0 < payload_size H"
    and "get_max_sub_page_count (word_of_nat sector) (int (length H + 2)) = Some (int (sector div payload_size H) + 1)"
    and "get_min_payload_size (word_of_nat sector) (int (length H + 2)) = Some (int (sector mod payload_size H))"
proof -
  let ?p = "payload_size H"
  show size: "get_max_payload_size (int (length H + 2)) = int ?p" and p: "0 < ?p"
    using assms(1) by (simp_all add: get_max_payload_size_def payload_size_def)
  have n: "sector div ?p + 1 < 2 ^ 31" using assms(2) le_less_trans [OF div_le_dividend [of sector ?p], of 65536] by simp
  have "(word_of_nat sector :: u32) div word_of_int (int ?p) + 1 = word_of_nat (sector div ?p + 1)"
    using assms(2) div_small [of sector ?p] by (simp add: payload_size_def)
  then show count: "get_max_sub_page_count (word_of_nat sector) (int (length H + 2)) = Some (int (sector div ?p) + 1)"
    using size p sint_small [OF n] by (simp add: get_max_sub_page_count_def Let_def add.commute)
  have "(word_of_nat sector :: u32) - word_of_int (int (sector div ?p) * int ?p) = word_of_nat (sector mod ?p)"
  proof -
    have "(word_of_nat sector :: u32) = word_of_nat (sector div ?p * ?p + sector mod ?p)" by simp
    then have "(word_of_nat sector :: u32) = word_of_nat (sector div ?p * ?p) + word_of_nat (sector mod ?p)"
      by (simp only: of_nat_add)
    then show ?thesis by simp
  qed
  moreover have "sector mod ?p < 2 ^ 31" using assms(2) le_less_trans [OF mod_less_eq_dividend [of sector ?p], of 65536] by simp
  ultimately show "get_min_payload_size (word_of_nat sector) (int (length H + 2)) = Some (int (sector mod ?p))"
    using count size sint_small by (simp add: get_min_payload_size_def)
qed

text \<open>All parts together are the whole sectors of the image.\<close>

lemma sector_parts:
  assumes "0 < p" and "m = sector mod p" and "q = sector div p"
  shows "concat (map (\<lambda>j. take (if j = q then m else p) (drop (j * p) xs)) [0..<q + 1]) = take sector xs"
proof -
  have "concat (map (\<lambda>j. take (if j = q then m else p) (drop (j * p) xs)) [0..<n]) = take (n * p) xs" if "n \<le> q" for n
    using that
  proof (induction n)
    case (Suc n)
    moreover have "take (Suc n * p) xs = take (n * p) xs @ take p (drop (n * p) xs)"
      using take_add [of "n * p" p xs] by (simp add: add.commute)
    ultimately show ?case by simp
  qed simp
  from this [of q] have "concat (map (\<lambda>j. take (if j = q then m else p) (drop (j * p) xs)) [0..<q + 1]) = take (q * p + m) xs"
    by (simp add: take_add)
  with assms show ?thesis by simp
qed

lemma place_of_part:
  assumes "j < sub_pages H sector"
  shows "(n * sub_pages H sector + j) div sub_pages H sector = n" "(n * sub_pages H sector + j) mod sub_pages H sector = j"
  using assms by simp_all

lemma part_at:
  assumes "j < sub_pages H sector"
  shows "part_of_image H sector file (n * sub_pages H sector + j)
    = take (if j = sector div payload_size H then sector mod payload_size H else payload_size H)
        (drop (j * payload_size H) (drop (n * sector) file))"
  unfolding part_of_image_def last_part_def part_place_def place_of_part [OF assms] by (simp add: add.commute)

lemma image_is_complete:
  assumes "length H \<le> 110"
  shows "concat (map (part_of_image H sector file) [0..<parts_of_image H sector file])
    = take (length file div sector * sector) file"
proof -
  let ?q = "sub_pages H sector"
  have p: "0 < payload_size H" using assms by (simp add: payload_size_def)
  have "concat (map (part_of_image H sector file) [0..<n * ?q]) = take (n * sector) file" for n
  proof (induction n)
    case (Suc n)
    have "concat (map (part_of_image H sector file) [n * ?q..<n * ?q + ?q])
        = concat (map (\<lambda>j. part_of_image H sector file (n * ?q + j)) [0..<?q])"
    proof -
      have "[n * ?q..<n * ?q + ?q] = map (\<lambda>j. n * ?q + j) [0..<?q]"
        using map_add_upt [of "n * ?q" ?q] by (simp add: add.commute)
      then show ?thesis by (simp only: map_map comp_def)
    qed
    also have "\<dots> = take sector (drop (n * sector) file)"
    proof -
      have "map (\<lambda>j. part_of_image H sector file (n * ?q + j)) [0..<?q]
          = map (\<lambda>j. take (if j = sector div payload_size H then sector mod payload_size H else payload_size H)
              (drop (j * payload_size H) (drop (n * sector) file))) [0..<?q]"
        by (rule map_cong) (simp_all only: part_at atLeastLessThan_iff set_upt)
      with sector_parts [OF p refl refl, of sector "drop (n * sector) file"] show ?thesis
        by (simp only: sub_pages_def)
    qed
    finally have page: "concat (map (part_of_image H sector file) [n * ?q..<n * ?q + ?q]) = take sector (drop (n * sector) file)" .
    have "[0..<Suc n * ?q] = [0..<n * ?q] @ [n * ?q..<n * ?q + ?q]"
      using upt_add_eq_append [of 0 "n * ?q" ?q] by (simp add: add.commute)
    moreover have "take (Suc n * sector) file = take (n * sector) file @ take sector (drop (n * sector) file)"
      using take_add [where i = "n * sector" and j = sector and xs = "file"] by (simp add: add.commute)
    ultimately show ?case using Suc page by simp
  qed simp
  then show ?thesis by (simp add: parts_of_image_def)
qed

section \<open>The run over the parts\<close>

text \<open>What the exchange of a sub-page leaves alone.\<close>

definition upload_view :: "fuota \<Rightarrow> _" where
  "upload_view f = ((image_tf_command f, rf_fuota_expected_resp_header f, BASE_HDR_LEN f, FUOTA_Resp_Header_Len f),
     (sector_value f, total_firmwaresize f, fouta_read_fd f, file_pos f, page_count f, subpage_count f),
     (length (fuota_rbuf f), client_tx_buffer f, current_fuota_route f, request_hops f, ondemand_fuota_state f),
     (use_alternate_fuota_route f, use_alternate_fuotaroute_disable f, request_id f, gateway_id (owner f)))"

text \<open>Before the \<open>i\<close>-th part.\<close>

definition uploading :: "bytes \<Rightarrow> bytes \<Rightarrow> nat \<Rightarrow> bytes \<Rightarrow> nat \<Rightarrow> fuota \<Rightarrow> bool" where
  "uploading H R sector file i f \<longleftrightarrow> templates H R f \<and> sector_value f = word_of_nat sector
     \<and> total_firmwaresize f = word_of_nat (length file) \<and> fouta_read_fd f = Some file \<and> file_pos f = part_place H sector i
     \<and> page_count f = word_of_nat (i div sub_pages H sector) \<and> subpage_count f = word_of_nat (i mod sub_pages H sector)
     \<and> length (fuota_rbuf f) = 130"

lemma part_inside:
  assumes "sizes_fit H sector file" and "i < parts_of_image H sector file"
  shows "i div sub_pages H sector < length file div sector" and "i mod sub_pages H sector < sub_pages H sector"
    and "length (part_of_image H sector file i) = (if last_part H sector i then sector mod payload_size H else payload_size H)"
    and "part_of_image H sector file i \<noteq> []" and "length (part_of_image H sector file i) \<le> 118 - length H"
    and "part_place H sector i + length (part_of_image H sector file i) = part_place H sector (Suc i)"
proof -
  let ?q = "sub_pages H sector" and ?p = "payload_size H"
  let ?k = "i div ?q" and ?j = "i mod ?q"
  let ?n = "if last_part H sector i then sector mod ?p else ?p"
  have q: "0 < ?q" and p: "0 < ?p" and m: "sector mod ?p \<noteq> 0" using assms(1) by (simp_all add: sub_pages_def sizes_fit_def payload_size_def)
  show k: "?k < length file div sector"
    using assms(2) by (simp add: parts_of_image_def less_mult_imp_div_less)
  show j: "?j < ?q" using q by simp
  have stop: "?j * ?p + ?n = (if last_part H sector i then sector else Suc ?j * ?p)"
    by (simp add: last_part_def)
  have "?j * ?p + ?n \<le> sector"
  proof (cases "last_part H sector i")
    case False
    with j have "Suc ?j \<le> sector div ?p" unfolding last_part_def sub_pages_def by linarith
    then have "Suc ?j * ?p \<le> sector" by (metis div_times_less_eq_dividend mult_le_mono1 order_trans)
    with stop False show ?thesis by simp
  qed (use stop in simp)
  then have "part_place H sector i + ?n \<le> Suc ?k * sector" by (simp add: part_place_def)
  also have "\<dots> \<le> length file div sector * sector" using k by (intro mult_le_mono1) simp
  also have "\<dots> \<le> length file" by simp
  finally have fits: "part_place H sector i + ?n \<le> length file" .
  then show len: "length (part_of_image H sector file i) = ?n" by (simp add: part_of_image_def)
  with p m show "part_of_image H sector file i \<noteq> []" by (auto split: if_splits)
  have "sector mod ?p < ?p" using p by simp
  with len show "length (part_of_image H sector file i) \<le> 118 - length H" by (simp add: payload_size_def)
  show "part_place H sector i + length (part_of_image H sector file i) = part_place H sector (Suc i)"
  proof (cases "last_part H sector i")
    case True
    then have "Suc i mod ?q = 0" "Suc i div ?q = Suc ?k"
      by (simp_all add: last_part_def sub_pages_def mod_Suc div_Suc)
    with True stop len show ?thesis by (simp add: part_place_def)
  next
    case False
    then have "Suc i mod ?q = Suc ?j" "Suc i div ?q = ?k"
      using j by (simp_all add: last_part_def sub_pages_def mod_Suc div_Suc)
    with False stop len show ?thesis by (simp add: part_place_def)
  qed
qed

lemma next_place:
  "Suc i mod sub_pages H sector = (if last_part H sector i then 0 else Suc (i mod sub_pages H sector))"
  "Suc i div sub_pages H sector = (if last_part H sector i then Suc (i div sub_pages H sector) else i div sub_pages H sector)"
  by (simp_all add: last_part_def sub_pages_def mod_Suc div_Suc)

lemma part_read:
  assumes u: "uploading H R sector file i f" and i: "i < parts_of_image H sector file" and fit: "sizes_fit H sector file"
  shows "\<exists>cmd. read_sub_page f = Some (last_part H sector i, part_of_image H sector file i,
      f\<lparr>image_tf_command := cmd, file_pos := part_place H sector (Suc i)\<rparr>) \<and> hd cmd = 0x2E
    \<and> templates H R (f\<lparr>image_tf_command := cmd, file_pos := part_place H sector (Suc i)\<rparr>)"
proof -
  from u have t: "templates H R f" by (simp add: uploading_def)
  then obtain a b y s hi lo body where img: "image_tf_command f = [a, b] @ H @ [0x2F, y, 0x06, 0x01, s, hi, lo] @ body"
    and body: "length body = 119 - length H" by (auto simp: templates_def)
  let ?cmd = "[0x2E, BASE_HDR_LEN f - 1] @ H @ [0x2F, y, 0x06, 0x01, s, hi, lo] @ body"
  have put: "memcpy_to (image_tf_command f) 0 [0x2E, BASE_HDR_LEN f - 1] = Some ?cmd"
    using img memcpy_to_start [of "[0x2E, BASE_HDR_LEN f - 1]" "[a, b]"] by simp
  have H: "length H \<le> 110" "sector < 65536" "sector div payload_size H < 256" using fit by (simp_all add: sizes_fit_def)
  have B: "uint (BASE_HDR_LEN f) = int (length H + 2)"
    using t H uint_u8_of_nat [of "length H + 2"] by (simp add: templates_def del: of_nat_add)
  note inside = part_inside [OF fit i]
  have j: "uint (subpage_count f) = int (i mod sub_pages H sector)"
  proof -
    have "i mod sub_pages H sector < 256" using H(3) inside(2) unfolding sub_pages_def by linarith
    with u show ?thesis by (simp add: uploading_def uint_u8_of_nat)
  qed
  then have last: "(uint (subpage_count f) = int (sector div payload_size H) + 1 - 1) = last_part H sector i"
    by (simp add: last_part_def)
  note sizes = sizes_of_header [OF H(1,2)]
  have data: "take (nat (if last_part H sector i then int (sector mod payload_size H) else int (payload_size H))) (drop (file_pos f) file)
      = part_of_image H sector file i"
    using u by (simp add: part_of_image_def uploading_def)
  have "read_sub_page f = Some (last_part H sector i, part_of_image H sector file i,
      f\<lparr>image_tf_command := ?cmd, file_pos := part_place H sector (Suc i)\<rparr>)"
  proof -
    have f: "sector_value f = word_of_nat sector" "fouta_read_fd f = Some file" "file_pos f = part_place H sector i"
      using u by (simp_all add: uploading_def)
    have n: "(if last_part H sector i then get_min_payload_size (word_of_nat sector) (int (length H + 2))
        else Some (get_max_payload_size (int (length H + 2))))
        = Some (if last_part H sector i then int (sector mod payload_size H) else int (payload_size H))"
      using sizes by simp
    have "\<not> (if last_part H sector i then int (sector mod payload_size H) else int (payload_size H)) < 0"
      "\<not> length (part_of_image H sector file i) > 128" using inside(5) by auto
    moreover have "payload_size H \<le> 128" "sector mod payload_size H \<le> 128"
      using mod_less_divisor [OF sizes(2), of sector] by (simp_all add: payload_size_def)
    ultimately show ?thesis using n last data inside(6)
      unfolding read_sub_page_def Let_def put f(1,2) B sizes(3) Option.bind.bind_lunit
      by (simp add: f(3))
  qed
  moreover have "templates H R (f\<lparr>image_tf_command := ?cmd, file_pos := part_place H sector (Suc i)\<rparr>)"
    using t body by (auto simp: templates_def)
  ultimately show ?thesis by (intro exI [of _ ?cmd]) simp
qed

lemma status_fields [simp]:
  "owner (ondemand_fuota_update_status a b c f) = owner f" "cntx (ondemand_fuota_update_status a b c f) = cntx f"
  "fuota_imagetf_retry_count (ondemand_fuota_update_status a b c f) = fuota_imagetf_retry_count f"
  "fuota_rbuf (ondemand_fuota_update_status a b c f) = fuota_rbuf f"
  "rf_fuota_expected_resp_header (ondemand_fuota_update_status a b c f) = rf_fuota_expected_resp_header f"
  "image_tf_command (ondemand_fuota_update_status a b c f) = image_tf_command f"
  "command_length (ondemand_fuota_update_status a b c f) = command_length f"
  "ondemand_fuota_state (ondemand_fuota_update_status a b c f) = ondemand_fuota_state f"
  "client_tx_buffer (ondemand_fuota_update_status a b c f) = client_tx_buffer f"
  "using_alternate_path (ondemand_fuota_update_status a b c f) = using_alternate_path f"
  "temp_expect_buf (ondemand_fuota_update_status a b c f) = temp_expect_buf f"
  "BASE_HDR_LEN (ondemand_fuota_update_status a b c f) = BASE_HDR_LEN f"
  "upload_view (ondemand_fuota_update_status a b c f) = upload_view f"
  by (simp_all add: ondemand_fuota_update_status_def upload_view_def Let_def split: option.splits)

lemma view_fields [simp]:
  "upload_view (f\<lparr>fuota_imagetf_retry_count := n\<rparr>) = upload_view f"
  "upload_view (f\<lparr>using_alternate_path := b, fuotaimagetf_alternate_count := k\<rparr>) = upload_view f"
  by (simp_all add: upload_view_def)

lemma same_view: "upload_view g = upload_view f \<Longrightarrow> uploading H R sector file i g = uploading H R sector file i f"
  by (simp add: upload_view_def uploading_def templates_def)

lemma view_advance:
  "upload_view g = upload_view f \<Longrightarrow> upload_view (advance_sub_page l g) = upload_view (advance_sub_page l f)"
  by (simp add: upload_view_def advance_sub_page_def)

text \<open>After the last field of a state that the exchange reads was advanced.\<close>

lemma uploading_next:
  assumes "uploading H R sector file i f"
  shows "uploading H R sector file (Suc i) (advance_sub_page (last_part H sector i) (f\<lparr>file_pos := part_place H sector (Suc i)\<rparr>))"
  using assms by (simp add: uploading_def advance_sub_page_def templates_def next_place add.commute)

text \<open>The exchange that one pass of the main loop starts for the \<open>i\<close>-th part.\<close>

lemma part_prepared:
  assumes u: "uploading H R sector file i f" and i: "i < parts_of_image H sector file" and fit: "sizes_fit H sector file"
  shows "\<exists>g. upload_step cansend f = send_sub_page cansend g \<bind> (\<lambda>(sent, h). after_sub_page cansend (last_part H sector i) sent h)
    \<and> fuota_imagetf_retry_count g = 0 \<and> length (fuota_rbuf g) = 130 \<and> length (rf_fuota_expected_resp_header g) = 30
    \<and> take 24 (rf_fuota_expected_resp_header g) = image_confirmation H R sector i
    \<and> memcpy_from (image_tf_command g) 0 (unat (command_length g)) = Some (image_frame H sector file i)
    \<and> owner g = owner f \<and> cntx g = cntx f \<and> ondemand_fuota_state g = ondemand_fuota_state f
    \<and> client_tx_buffer g = client_tx_buffer f \<and> using_alternate_path g = using_alternate_path f \<and> temp_expect_buf g = temp_expect_buf f
    \<and> BASE_HDR_LEN g = BASE_HDR_LEN f \<and> length (image_tf_command g) = 128
    \<and> (\<forall>h. upload_view h = upload_view g \<longrightarrow> uploading H R sector file (Suc i) (advance_sub_page (last_part H sector i) h))"
proof -
  let ?k = "i div sub_pages H sector" and ?j = "i mod sub_pages H sector" and ?d = "part_of_image H sector file i"
  let ?l = "last_part H sector i"
  note inside = part_inside [OF fit i]
  have u': "templates H R f" "sector_value f = word_of_nat sector" "total_firmwaresize f = word_of_nat (length file)"
      "fouta_read_fd f = Some file" "page_count f = word_of_nat ?k" "subpage_count f = word_of_nat ?j" "length (fuota_rbuf f) = 130"
    using u by (simp_all add: uploading_def)
  have fits: "length H \<le> 110" "0 < sector" "sector < 65536" "length file < 2 ^ 32" "length file div sector < 65536"
    using fit by (simp_all add: sizes_fit_def)
  have "(word_of_nat (length file) :: u32) div word_of_nat sector = word_of_nat (length file div sector)"
    using fits by (intro div_small) simp_all
  moreover have "(word_of_nat sector :: u32) \<noteq> 0" using fits by (simp add: word_unat_eq_iff unsigned_of_nat take_bit_nat_eq_self)
  ultimately have pages: "get_max_page_count (sector_value f) (total_firmwaresize f) = Some (word_of_nat (length file div sector))"
    using u' by (simp add: get_max_page_count_def)
  have more: "page_count f < word_of_nat (length file div sector)"
    using u' inside(1) fits by (simp add: word_less_nat_alt unsigned_of_nat take_bit_nat_eq_self)
  obtain cmd where r: "read_sub_page f = Some (?l, ?d, f\<lparr>image_tf_command := cmd, file_pos := part_place H sector (Suc i)\<rparr>)"
    and cmd: "hd cmd = 0x2E" "templates H R (f\<lparr>image_tf_command := cmd, file_pos := part_place H sector (Suc i)\<rparr>)"
    using part_read [OF u i fit] by auto
  let ?f1 = "f\<lparr>image_tf_command := cmd, file_pos := part_place H sector (Suc i)\<rparr>"
  have k: "?k < 65536" using inside(1) fits(5) by simp
  obtain cmd2 exp2 f2 where f2: "f2 = ?f1\<lparr>image_tf_command := cmd2,
        command_length := word_of_nat (length (image_frame H sector file i)), rf_fuota_expected_resp_header := exp2\<rparr>"
    and fr: "frame_sub_page ?d ?l ?f1 = Some f2"
    and cmd2: "take (length (image_frame H sector file i)) cmd2 = image_frame H sector file i" "length cmd2 = 128"
    and exp2: "take 24 exp2 = image_confirmation H R sector i" and t2: "templates H R f2"
    using frame_sub_page_made [OF cmd(2) _ k _ inside(5), of ?j ?l] u' cmd(1)
    unfolding image_frame_def image_confirmation_def by fastforce
  let ?f3 = "ondemand_fuota_update_status 11 1 (request_id f2) (f2\<lparr>fuota_imagetf_retry_count := 0\<rparr>)"
  have len: "length (image_frame H sector file i) \<le> 128"
    using inside(5) fits(1) by (simp add: image_frame_def sub_page_frame_def sub_page_command_def Let_def)
  have "memcpy_from (image_tf_command ?f3) 0 (unat (command_length ?f3)) = Some (image_frame H sector file i)"
    using cmd2 len by (simp add: f2 memcpy_from_start unat_small)
  moreover have "length (rf_fuota_expected_resp_header ?f3) = 30" using t2 by (auto simp: templates_def)
  moreover have "owner f2 = owner f" "cntx f2 = cntx f" "length (fuota_rbuf f2) = 130" "rf_fuota_expected_resp_header f2 = exp2"
    using u' by (simp_all add: f2)
  moreover have "upload_step cansend f = send_sub_page cansend ?f3 \<bind> (\<lambda>(sent, h). after_sub_page cansend ?l sent h)"
    unfolding upload_step_def pages using more r fr inside(4) by (simp add: Let_def)
  moreover have "uploading H R sector file (Suc i) (advance_sub_page ?l h)" if "upload_view h = upload_view ?f3" for h
  proof -
    have "upload_view (advance_sub_page ?l h) = upload_view (advance_sub_page ?l f2)"
      using that by (intro view_advance) simp
    moreover have "uploading H R sector file (Suc i) (advance_sub_page ?l f2)"
      using u' t2 by (simp add: uploading_def advance_sub_page_def templates_def next_place f2 add.commute)
    ultimately show ?thesis using same_view by blast
  qed
  moreover have "ondemand_fuota_state ?f3 = ondemand_fuota_state f" "client_tx_buffer ?f3 = client_tx_buffer f"
    "using_alternate_path ?f3 = using_alternate_path f" "temp_expect_buf ?f3 = temp_expect_buf f" "BASE_HDR_LEN ?f3 = BASE_HDR_LEN f"
    by (simp_all add: f2)
  ultimately show ?thesis using exp2 cmd2(2) by (intro exI [of _ ?f3]) (simp add: f2)
qed

text \<open>A target that takes a sub-page: with what is to come (\<open>takes\<close>), the packet is written \<open>copies\<close> times and the
  program goes on to the next.\<close>

locale upload_target =
  fixes cansend :: "fuota \<Rightarrow> (int \<times> fuota) option"
    and confirmation :: "nat \<Rightarrow> bytes"
    and takes :: "nat \<Rightarrow> client \<Rightarrow> fuota_retry_contex \<Rightarrow> bool"
    and copies :: nat and parts :: nat
  assumes delivered: "i < parts \<Longrightarrow> takes i (owner f) (cntx f) \<Longrightarrow> fuota_imagetf_retry_count f = 0 \<Longrightarrow> length (fuota_rbuf f) = 130
      \<Longrightarrow> length (rf_fuota_expected_resp_header f) = 30 \<Longrightarrow> take 24 (rf_fuota_expected_resp_header f) = confirmation i
      \<Longrightarrow> memcpy_from (image_tf_command f) 0 (unat (command_length f)) = Some frame
      \<Longrightarrow> \<exists>g. send_sub_page cansend f = Some (SubBreak, g) \<and> upload_view g = upload_view f
        \<and> wire (owner g) = wire (owner f) @ replicate copies frame \<and> takes (Suc i) (owner g) (cntx g)
        \<and> (unat (fuota_imagetf_retry_count g) = 3 \<longrightarrow> 3 \<le> alternate_retry (cntx g))"
begin

lemma part_step:
  assumes u: "uploading H R sector file i f" and i: "i < parts_of_image H sector file" and fit: "sizes_fit H sector file"
    and parts: "i < parts" and takes: "takes i (owner f) (cntx f)" and conf: "confirmation i = image_confirmation H R sector i"
  shows "\<exists>g. upload_step cansend f = Some (UploadNext, g) \<and> uploading H R sector file (Suc i) g
    \<and> wire (owner g) = wire (owner f) @ replicate copies (image_frame H sector file i) \<and> takes (Suc i) (owner g) (cntx g)
    \<and> ondemand_fuota_state g = ondemand_fuota_state f \<and> client_tx_buffer g = client_tx_buffer f"
proof -
  let ?l = "last_part H sector i"
  from part_prepared [OF u i fit, of cansend] obtain f3 where f3:
    "upload_step cansend f = send_sub_page cansend f3 \<bind> (\<lambda>(sent, h). after_sub_page cansend ?l sent h)"
    "owner f3 = owner f" "cntx f3 = cntx f" "ondemand_fuota_state f3 = ondemand_fuota_state f" "client_tx_buffer f3 = client_tx_buffer f"
    "\<And>h. upload_view h = upload_view f3 \<Longrightarrow> uploading H R sector file (Suc i) (advance_sub_page ?l h)"
    and ready: "fuota_imagetf_retry_count f3 = 0" "length (fuota_rbuf f3) = 130" "length (rf_fuota_expected_resp_header f3) = 30"
      "take 24 (rf_fuota_expected_resp_header f3) = image_confirmation H R sector i"
      "memcpy_from (image_tf_command f3) 0 (unat (command_length f3)) = Some (image_frame H sector file i)"
    by blast
  with delivered [OF parts _ ready(1-3) _ ready(5)] takes conf obtain g where
    g: "send_sub_page cansend f3 = Some (SubBreak, g)" "upload_view g = upload_view f3"
      "wire (owner g) = wire (owner f) @ replicate copies (image_frame H sector file i)" "takes (Suc i) (owner g) (cntx g)"
      "unat (fuota_imagetf_retry_count g) = 3 \<longrightarrow> 3 \<le> alternate_retry (cntx g)" by auto
  let ?g = "if unat (fuota_imagetf_retry_count g) = 3
    then g\<lparr>using_alternate_path := True, fuotaimagetf_alternate_count := alternate_retry (cntx g)\<rparr> else g"
  have "upload_step cansend f = Some (UploadNext, advance_sub_page ?l ?g)"
    using f3(1) g(1,5) by (auto simp: after_sub_page_def)
  moreover have "uploading H R sector file (Suc i) (advance_sub_page ?l ?g)" using g(2) by (intro f3(6)) simp
  moreover have "owner (advance_sub_page ?l ?g) = owner g" "cntx (advance_sub_page ?l ?g) = cntx g"
    "ondemand_fuota_state (advance_sub_page ?l ?g) = ondemand_fuota_state g" "client_tx_buffer (advance_sub_page ?l ?g) = client_tx_buffer g"
    by (simp_all add: advance_sub_page_def)
  moreover have "ondemand_fuota_state g = ondemand_fuota_state f" "client_tx_buffer g = client_tx_buffer f"
    using g(2) f3(4,5) by (simp_all add: upload_view_def)
  ultimately show ?thesis using g(3,4) by (intro exI [of _ "advance_sub_page ?l ?g"]) simp
qed

lemma parts_done:
  assumes "uploading H R sector file (parts_of_image H sector file) f" and "sizes_fit H sector file"
  shows "upload_loop cansend f = Some (None, f)"
proof -
  let ?q = "sub_pages H sector"
  have fits: "0 < sector" "sector < 65536" "length file < 2 ^ 32" using assms(2) by (simp_all add: sizes_fit_def)
  have "0 < ?q" by (simp add: sub_pages_def)
  then have "parts_of_image H sector file div ?q = length file div sector" by (simp add: parts_of_image_def)
  moreover have "(word_of_nat (length file) :: u32) div word_of_nat sector = word_of_nat (length file div sector)"
    using fits by (intro div_small) simp_all
  moreover have "(word_of_nat sector :: u32) \<noteq> 0" using fits by (simp add: word_unat_eq_iff unsigned_of_nat take_bit_nat_eq_self)
  ultimately have "upload_step cansend f = Some (UploadDone, f)"
    using assms(1) by (simp add: upload_step_def uploading_def get_max_page_count_def)
  then show ?thesis by (subst upload_loop.simps) simp
qed

lemma all_parts:
  assumes "uploading H R sector file i f" and "i \<le> parts" and "parts = parts_of_image H sector file" and "sizes_fit H sector file"
    and "takes i (owner f) (cntx f)" and "\<And>j. confirmation j = image_confirmation H R sector j"
  shows "\<exists>g. upload_loop cansend f = Some (None, g) \<and> takes parts (owner g) (cntx g)
    \<and> wire (owner g) = wire (owner f) @ concat (map (\<lambda>j. replicate copies (image_frame H sector file j)) [i..<parts])
    \<and> ondemand_fuota_state g = ondemand_fuota_state f \<and> client_tx_buffer g = client_tx_buffer f"
  using assms(1,2,5)
proof (induction "parts - i" arbitrary: i f)
  case 0
  then show ?case using parts_done assms(3,4) by (intro exI [of _ f]) auto
next
  case (Suc n)
  then have i: "i < parts" by simp
  with part_step [OF Suc.prems(1) _ assms(4) i Suc.prems(3) assms(6)] assms(3) obtain g where
    g: "upload_step cansend f = Some (UploadNext, g)" "uploading H R sector file (Suc i) g"
      "wire (owner g) = wire (owner f) @ replicate copies (image_frame H sector file i)" "takes (Suc i) (owner g) (cntx g)"
      "ondemand_fuota_state g = ondemand_fuota_state f" "client_tx_buffer g = client_tx_buffer f" by auto
  have loop: "upload_loop cansend f = upload_loop cansend g" using g(1) by (subst upload_loop.simps) simp
  with Suc.hyps(1) [of "Suc i" g] Suc.hyps(2) g i show ?case by (simp add: upt_conv_Cons)
qed

end

section \<open>Two targets\<close>

text \<open>A target that confirms every part, in order, and one from which nothing comes, when the alternate
  routes are used up.\<close>

definition confirms :: "bytes \<Rightarrow> bytes \<Rightarrow> nat \<Rightarrow> nat \<Rightarrow> nat \<Rightarrow> client \<Rightarrow> fuota_retry_contex \<Rightarrow> bool" where
  "confirms H R sector parts i c x \<longleftrightarrow> send_results c = []
     \<and> take (parts - i) (map snd (inbox c)) = map (\<lambda>j. RxData (image_confirmation H R sector j)) [i..<parts]"

definition silent :: "nat \<Rightarrow> client \<Rightarrow> fuota_retry_contex \<Rightarrow> bool" where
  "silent i c x \<longleftrightarrow> send_results c = [] \<and> inbox c = [] \<and> 3 \<le> alternate_retry x"

lemma send_all: "send_results c = [] \<Longrightarrow> send frame c = (int (length frame), c\<lparr>wire := wire c @ [frame]\<rparr>)"
  by (simp add: send_def)

lemma confirmed_at_once:
  assumes "inbox (owner f) = (t, RxData e) # rest" and "send_results (owner f) = []" and "fuota_imagetf_retry_count f = 0"
    and "length (fuota_rbuf f) = 130" and "length (rf_fuota_expected_resp_header f) = 30"
    and "take 24 (rf_fuota_expected_resp_header f) = e" and "length e = 24" and "e ! 1 = 0x17"
    and "memcpy_from (image_tf_command f) 0 (unat (command_length f)) = Some frame"
  shows "\<exists>g. send_sub_page cansend f = Some (SubBreak, g) \<and> upload_view g = upload_view f
    \<and> owner g = (owner f)\<lparr>wire := wire (owner f) @ [frame], clock := t, inbox := rest\<rparr> \<and> fuota_imagetf_retry_count g = 0"
proof -
  let ?c = "(owner f)\<lparr>wire := wire (owner f) @ [frame]\<rparr>"
  have r: "recv 130 ?c = (RxData e, e @ replicate (130 - length e) 0, ?c\<lparr>clock := t, inbox := rest\<rparr>)"
    using assms(1,7) by (cases e) (simp_all add: recv_def)
  have put: "memcpy_to (fuota_rbuf f) 0 e = Some (e @ drop 24 (fuota_rbuf f))"
    using assms(4,7) by (simp add: memcpy_to_def)
  have len: "rd (rf_fuota_expected_resp_header f, 0) 1 = Some 0x17"
  proof -
    have "rf_fuota_expected_resp_header f ! 1 = e ! 1" using assms(6) by (metis nth_take numeral_less_iff one_less_numeral_iff semiring_norm(76))
    with assms(5,8) show ?thesis by simp
  qed
  let ?h = "f\<lparr>owner := ?c\<lparr>clock := t, inbox := rest\<rparr>, fuota_rbuf := e @ drop 24 (fuota_rbuf f), response_length := 0x18\<rparr>"
  have h: "handle_fuota_post_read n ?h = Some (FUOTA_SUCCESS, ?h\<lparr>cntx := (cntx f)\<lparr>alternate_retry := 0\<rparr>, fuota_imagetf_retry_count := 0,
      fuotaimagetf_alternate_count := 0, using_alternate_path := False\<rparr>)" for n
    using assms(4-7) by (simp add: handle_fuota_post_read_def memcpy_from_start)
  show ?thesis
    using assms(3,9) send_all [OF assms(2)] r put len h assms(4,7)
    by (subst send_sub_page.simps) (auto simp: upload_view_def)
qed

lemma unanswered:
  assumes "inbox (owner f) = []" and "send_results (owner f) = []"
    and "memcpy_from (image_tf_command f) 0 (unat (command_length f)) = Some frame"
    and "unat (fuota_imagetf_retry_count f) + n = 3"
  shows "\<exists>g. send_sub_page cansend f = Some (SubBreak, g) \<and> upload_view g = upload_view f
    \<and> owner g = (owner f)\<lparr>wire := wire (owner f) @ replicate n frame\<rparr> \<and> cntx g = cntx f"
  using assms
proof (induction n arbitrary: f)
  case 0
  then show ?case by (subst send_sub_page.simps) simp
next
  case (Suc n)
  let ?c = "(owner f)\<lparr>wire := wire (owner f) @ [frame]\<rparr>"
  let ?g = "f\<lparr>owner := ?c, fuota_imagetf_retry_count := fuota_imagetf_retry_count f + 1\<rparr>"
  have less: "unat (fuota_imagetf_retry_count f) < 3" using Suc.prems(4) by simp
  have "send_sub_page cansend f = send_sub_page cansend ?g"
    using Suc.prems(3) less send_all [OF Suc.prems(2)] recv_nothing [of ?c 130] Suc.prems(1)
    by (subst send_sub_page.simps) simp
  moreover obtain g where "send_sub_page cansend ?g = Some (SubBreak, g)" "upload_view g = upload_view ?g"
      "owner g = ?c\<lparr>wire := wire ?c @ replicate n frame\<rparr>" "cntx g = cntx f"
    using Suc.IH [of ?g] Suc.prems less by (auto simp: count_up)
  ultimately show ?case by (auto simp: upload_view_def)
qed

interpretation confirming: upload_target cansend "image_confirmation H R sector" "confirms H R sector parts" 1 parts
  for cansend H R sector parts
proof (unfold_locales, goal_cases)
  case (1 i f frame)
  let ?e = "image_confirmation H R sector i"
  have "[i..<parts] = i # [Suc i..<parts]" using 1(1) by (simp add: upt_conv_Cons)
  with 1(1,2) obtain t rest where inbox: "inbox (owner f) = (t, RxData ?e) # rest"
    and rest: "take (parts - Suc i) (map snd rest) = map (\<lambda>j. RxData (image_confirmation H R sector j)) [Suc i..<parts]"
    by (cases "inbox (owner f)") (auto simp: confirms_def take_Cons' split: if_splits)
  have e: "length ?e = 24" using 1(5) arg_cong [OF 1(6), of length] by simp
  have "?e ! 1 = 0x17" by (simp add: image_confirmation_def sub_page_confirmation_def Let_def)
  note e = e this
  with confirmed_at_once [OF inbox _ 1(3,4,5,6) e 1(7)] 1(2) rest show ?case
    by (fastforce simp: confirms_def)
qed

interpretation silent_target: upload_target cansend "image_confirmation H R sector" silent 3 parts
  for cansend H R sector parts
proof (unfold_locales, goal_cases)
  case (1 i f frame)
  then show ?case using unanswered [of f frame 3 cansend] by (fastforce simp: silent_def)
qed

section \<open>The start of a transfer\<close>

text \<open>The two parts of the header in the frame that was built last.\<close>

definition header_of :: "fuota \<Rightarrow> bytes" where
  "header_of f = (let h = unat (client_tx_buffer f ! 12) in take (11 + (if h = 0 then 4 else h * 4)) (drop 2 (client_tx_buffer f)))"

definition answer_header_of :: "fuota \<Rightarrow> bytes" where
  "answer_header_of f = (let h = unat (client_tx_buffer f ! 12)
     in take 8 (drop 3 (client_tx_buffer f)) @ take 4 (drop (if h = 0 then 13 else 13 + (h - 1) * 4) (client_tx_buffer f)))"

definition buffers :: "fuota \<Rightarrow> bool" where
  "buffers f \<longleftrightarrow> length (client_tx_buffer f) = 1024 \<and> length (image_tf_command f) = 128
     \<and> length (rf_fuota_expected_resp_header f) = 30 \<and> length (fuota_rbuf f) = 130 \<and> temp_expect_buf f = replicate 64 0"

lemma upload_started:
  assumes "buffers f" and "length (header_of f) \<le> 110" and "fouta_read_fd f = Some file"
    and "sector_value f = word_of_nat sector" and "total_firmwaresize f = word_of_nat (length file)"
  shows "\<exists>g. fuota_uploading_process cansend f = do {
        (r, h) \<leftarrow> upload_loop cansend g;
        case r of Some r \<Rightarrow> Some (r, h)
        | None \<Rightarrow> prepare_and_get_the_endof_image_transfer
            (if ondemand_fuota_state h = FW_IMAGE_TRANSFER then h\<lparr>ondemand_fuota_state := FW_IMAGE_ENDOF_PAGE_TRANSFER\<rparr> else h) }
    \<and> uploading (header_of f) (answer_header_of f) sector file 0 g \<and> owner g = owner f \<and> cntx g = cntx f
    \<and> ondemand_fuota_state g = ondemand_fuota_state f \<and> using_alternate_path g = using_alternate_path f
    \<and> client_tx_buffer g = client_tx_buffer f \<and> temp_expect_buf g = temp_expect_buf f"
proof -
  let ?H = "header_of f" and ?R = "answer_header_of f"
  let ?tx = "client_tx_buffer f" and ?h = "unat (client_tx_buffer f ! 12)"
  let ?n = "13 + (if ?h = 0 then 4 else ?h * 4)"
  let ?last = "if ?h = 0 then 13 else 13 + (?h - 1) * 4"
  have len: "length ?tx = 1024" "length (image_tf_command f) = 128" "length (rf_fuota_expected_resp_header f) = 30" "length (fuota_rbuf f) = 130"
    using assms(1) by (simp_all add: buffers_def)
  have n: "length ?H = ?n - 2" "?n \<le> 112"
  proof -
    have "length ?H = min (?n - 2) 1022" using len by (simp add: header_of_def Let_def)
    with assms(2) show "length ?H = ?n - 2" "?n \<le> 112" by auto
  qed
  have last: "?last + 4 \<le> 1024" using n(2) by (auto split: if_splits)
  have zero: "(client_tx_buffer f ! 12 = 0) = (?h = 0)" by (simp add: unat_eq_zero)
  have rd12: "rd (?tx, 0) 12 = Some (?tx ! 12)" using len by simp
  obtain x y z rest where tx: "?tx = x # y # z # rest"
    using len(1) by (cases ?tx; cases "tl ?tx"; cases "tl (tl ?tx)") auto
  have H: "take ?n ?tx = [x, y] @ ?H"
  proof -
    have "?n = 2 + (11 + (if ?h = 0 then 4 else ?h * 4))" by simp
    then have "take ?n ?tx = take 2 ?tx @ take (11 + (if ?h = 0 then 4 else ?h * 4)) (drop 2 ?tx)" by (simp only: take_add)
    moreover have "take 2 ?tx = [x, y]" using tx by simp
    ultimately show ?thesis by (simp add: header_of_def Let_def)
  qed
  have "take 11 ?tx @ take 4 (drop ?last ?tx) = [x, y, z] @ ?R"
    using tx by (simp add: answer_header_of_def Let_def)
  moreover have "length (take 4 (drop ?last ?tx)) = 4" "length (take 11 ?tx) = 11" using len(1) last by simp_all
  ultimately have R: "take 11 ?tx @ take 4 (drop ?last ?tx) = [x, y, z] @ ?R" "length ?R = 12"
    using length_append [of "take 11 ?tx" "take 4 (drop ?last ?tx)"] by simp_all
  let ?exp = "[x, y, z] @ ?R @ drop 15 (rf_fuota_expected_resp_header f)"
  let ?f0 = "f\<lparr>page_count := 0, subpage_count := 0, fuota_imagetf_retry_count := 0\<rparr>"
  have resp: "update_fuota_response_buff ?f0 = Some (15, ?f0\<lparr>rf_fuota_expected_resp_header := ?exp\<rparr>)"
  proof -
    have "memcpy_from ?tx 0 11 = Some (take 11 ?tx)" "memcpy_from ?tx ?last 4 = Some (take 4 (drop ?last ?tx))"
      using len last by (simp_all add: memcpy_from_def)
    moreover have "memcpy_to (rf_fuota_expected_resp_header f) 0 (take 11 ?tx @ take 4 (drop ?last ?tx)) = Some ?exp"
      unfolding R(1) using R(2) len by (simp add: memcpy_to_def)
    ultimately show ?thesis using rd12 by (simp add: update_fuota_response_buff_def zero)
  qed
  let ?f1 = "?f0\<lparr>rf_fuota_expected_resp_header := ?exp\<rparr>"
  let ?img = "([x, y] @ ?H) @ drop ?n (image_tf_command f)"
  have image: "update_fuota_image_transfer_tx_buff ?f1 = Some (word_of_nat ?n, ?f1\<lparr>image_tf_command := ?img\<rparr>)"
  proof -
    have "memcpy_from ?tx 0 ?n = Some ([x, y] @ ?H)" using len n(2) H by (simp add: memcpy_from_start)
    moreover have "memcpy_to (image_tf_command f) 0 ([x, y] @ ?H) = Some ?img"
      using len n by (simp add: memcpy_to_def)
    ultimately show ?thesis using rd12 by (simp add: update_fuota_image_transfer_tx_buff_def Let_def zero)
  qed
  obtain old tail where rest: "drop ?n (image_tf_command f) = old @ tail" "length old = 7" "length tail = 119 - length ?H"
  proof -
    have r: "length (drop ?n (image_tf_command f)) = 128 - ?n" using len by simp
    then have "7 \<le> length (drop ?n (image_tf_command f))" using n(2) by linarith
    then obtain old tail where s: "drop ?n (image_tf_command f) = old @ tail" "length old = 7"
      using split_at by blast
    then have "length tail = 121 - ?n" using r by (simp del: length_drop)
    with s that n show thesis by simp
  qed
  let ?it = "[0x2F, 0x06, 0x06, 0x01, 0x00, 0x00, 0x00] :: bytes"
  have put: "memcpy_to ?img (unat (word_of_nat ?n :: u8)) ?it = Some (([x, y] @ ?H) @ ?it @ tail)"
    using memcpy_to_at [of ?n "[x, y] @ ?H" ?it old tail] rest n unat_small [of ?n] by simp
  let ?g = "f\<lparr>page_count := 0, subpage_count := 0, fuota_imagetf_retry_count := 0, rf_fuota_expected_resp_header := ?exp,
      FUOTA_Resp_Header_Len := 15, FUOTA_Cmd_Header_Len := word_of_nat ?n, BASE_HDR_LEN := word_of_nat ?n,
      image_tf_command := [x, y + 7] @ ?H @ ?it @ tail, file_pos := 0\<rparr>"
  have "memcpy_to (([x, y] @ ?H) @ ?it @ tail) 1 [y + 7] = Some ([x, y + 7] @ ?H @ ?it @ tail)"
    using memcpy_to_at [of 1 "[x]" "[y + 7]" "[y]" "?H @ ?it @ tail"] by simp
  moreover have "rd (([x, y] @ ?H) @ ?it @ tail, 0) 1 = Some y" by (simp add: rd.simps)
  ultimately have "fuota_uploading_process cansend f = do {
        (r, h) \<leftarrow> upload_loop cansend ?g;
        case r of Some r \<Rightarrow> Some (r, h)
        | None \<Rightarrow> prepare_and_get_the_endof_image_transfer
            (if ondemand_fuota_state h = FW_IMAGE_TRANSFER then h\<lparr>ondemand_fuota_state := FW_IMAGE_ENDOF_PAGE_TRANSFER\<rparr> else h) }"
    using resp image put assms(3) unfolding fuota_uploading_process_def Let_def by simp
  moreover have "templates ?H ?R ?g"
  proof -
    have "\<exists>a b v s hi lo body. image_tf_command ?g = [a, b] @ ?H @ [0x2F, v, 0x06, 0x01, s, hi, lo] @ body \<and> length body = 119 - length ?H"
      using rest by simp
    moreover have "\<exists>a b c rest. rf_fuota_expected_resp_header ?g = [a, b, c] @ ?R @ rest \<and> length rest = 15"
      using len by simp
    moreover have "BASE_HDR_LEN ?g = word_of_nat (length ?H + 2)"
    proof -
      have "length ?H + 2 = ?n" using n by simp
      moreover have "BASE_HDR_LEN ?g = word_of_nat ?n" by simp
      ultimately show ?thesis by (simp only:)
    qed
    moreover have "FUOTA_Resp_Header_Len ?g = 15" by simp
    ultimately show ?thesis unfolding templates_def using assms(2) R(2) by blast
  qed
  then have "uploading ?H ?R sector file 0 ?g"
    using assms len by (simp add: uploading_def part_place_def)
  ultimately show ?thesis by (intro exI [of _ ?g]) simp
qed

text \<open>C8: when the target confirms every sub-page, the transfer sends exactly one packet for each, in order and
  correctly numbered, whose payloads together are the whole sectors of the firmware file; then it asks for the end
  of the transfer.  What the file has beyond its last whole sector is never sent, although the checksum sent for
  verification covers it.\<close>

theorem image_delivered:
  assumes "buffers f" and "fouta_read_fd f = Some file" and "sector_value f = word_of_nat sector"
    and "total_firmwaresize f = word_of_nat (length file)" and "sizes_fit (header_of f) sector file"
    and "confirms (header_of f) (answer_header_of f) sector (parts_of_image (header_of f) sector file) 0 (owner f) (cntx f)"
    and "ondemand_fuota_state f = FW_IMAGE_TRANSFER"
  shows "\<exists>g. fuota_uploading_process cansend f = prepare_and_get_the_endof_image_transfer g
    \<and> ondemand_fuota_state g = FW_IMAGE_ENDOF_PAGE_TRANSFER
    \<and> wire (owner g) = wire (owner f) @ map (image_frame (header_of f) sector file) [0..<parts_of_image (header_of f) sector file]
    \<and> concat (map (part_of_image (header_of f) sector file) [0..<parts_of_image (header_of f) sector file])
      = take (length file div sector * sector) file"
proof -
  let ?H = "header_of f" and ?N = "parts_of_image (header_of f) sector file"
  have H: "length ?H \<le> 110" using assms(5) by (simp add: sizes_fit_def)
  obtain g where g: "fuota_uploading_process cansend f = do {
        (r, h) \<leftarrow> upload_loop cansend g;
        case r of Some r \<Rightarrow> Some (r, h)
        | None \<Rightarrow> prepare_and_get_the_endof_image_transfer
            (if ondemand_fuota_state h = FW_IMAGE_TRANSFER then h\<lparr>ondemand_fuota_state := FW_IMAGE_ENDOF_PAGE_TRANSFER\<rparr> else h) }"
      "uploading ?H (answer_header_of f) sector file 0 g" "owner g = owner f" "cntx g = cntx f" "ondemand_fuota_state g = FW_IMAGE_TRANSFER"
    using upload_started [OF assms(1) H assms(2-4), of cansend] assms(7) by auto
  with confirming.all_parts [OF g(2) _ refl assms(5)] assms(6) obtain h where
    "upload_loop cansend g = Some (None, h)" "ondemand_fuota_state h = FW_IMAGE_TRANSFER"
    "wire (owner h) = wire (owner f) @ map (image_frame ?H sector file) [0..<?N]" by fastforce
  with g(1) image_is_complete [OF H, of sector "file"] show ?thesis
    by (intro exI [of _ "h\<lparr>ondemand_fuota_state := FW_IMAGE_ENDOF_PAGE_TRANSFER\<rparr>"]) simp
qed

text \<open>A transfer to a target that never answers ends like a complete one, when the count of alternate routes
  says that they are used up: every packet is sent three times, nothing was confirmed, and the program goes on
  to ask for the end of the transfer.\<close>

theorem unconfirmed_transfer_completes:
  assumes "buffers f" and "fouta_read_fd f = Some file" and "sector_value f = word_of_nat sector"
    and "total_firmwaresize f = word_of_nat (length file)" and "sizes_fit (header_of f) sector file"
    and "inbox (owner f) = []" and "send_results (owner f) = []" and "3 \<le> alternate_retry (cntx f)"
    and "ondemand_fuota_state f = FW_IMAGE_TRANSFER"
  shows "\<exists>g. fuota_uploading_process cansend f = prepare_and_get_the_endof_image_transfer g
    \<and> ondemand_fuota_state g = FW_IMAGE_ENDOF_PAGE_TRANSFER
    \<and> wire (owner g) = wire (owner f)
      @ concat (map (\<lambda>i. replicate 3 (image_frame (header_of f) sector file i)) [0..<parts_of_image (header_of f) sector file])"
proof -
  let ?H = "header_of f" and ?N = "parts_of_image (header_of f) sector file"
  have H: "length ?H \<le> 110" using assms(5) by (simp add: sizes_fit_def)
  obtain g where g: "fuota_uploading_process cansend f = do {
        (r, h) \<leftarrow> upload_loop cansend g;
        case r of Some r \<Rightarrow> Some (r, h)
        | None \<Rightarrow> prepare_and_get_the_endof_image_transfer
            (if ondemand_fuota_state h = FW_IMAGE_TRANSFER then h\<lparr>ondemand_fuota_state := FW_IMAGE_ENDOF_PAGE_TRANSFER\<rparr> else h) }"
      "uploading ?H (answer_header_of f) sector file 0 g" "owner g = owner f" "cntx g = cntx f" "ondemand_fuota_state g = FW_IMAGE_TRANSFER"
    using upload_started [OF assms(1) H assms(2-4), of cansend] assms(9) by auto
  with silent_target.all_parts [OF g(2) _ refl assms(5)] assms(6-8) obtain h where
    "upload_loop cansend g = Some (None, h)" "ondemand_fuota_state h = FW_IMAGE_TRANSFER"
    "wire (owner h) = wire (owner f) @ concat (map (\<lambda>i. replicate 3 (image_frame ?H sector file i)) [0..<?N])"
    by (fastforce simp: silent_def)
  with g(1) show ?thesis
    by (intro exI [of _ "h\<lparr>ondemand_fuota_state := FW_IMAGE_ENDOF_PAGE_TRANSFER\<rparr>"]) simp
qed

end
