(* ===== verification/Fuota_Faults.thy ===== *)
theory Fuota_Faults
  imports Fuota_Upload
begin

text \<open>
  Further facts about a firmware upgrade (\<open>HES/src/fuota.cpp\<close>): the frame around a command to the target, the
  status reported for a request, answers that end a transfer; and the concrete transfers that show the
  theorems about it to be applicable.  No code is modelled here.
\<close>

section \<open>The frame to the target\<close>

lemma extract_ids_length:
  "extract_ids gw = Some (pan, src) \<Longrightarrow> length pan = 4 \<and> length src = 4"
  by (auto simp: extract_ids_def split: if_splits bind_splits dest!: mapM_length)

text \<open>Up to the addresses all frames are alike; then the command is copied behind the first address.\<close>

lemma target_header:
  assumes ids: "extract_ids (gateway_id (owner f)) = Some (pan, src)" and len: "length (client_tx_buffer f) = 1024"
    and h: "request_hops f = int h" "h \<le> 32" and route: "length (paths (current_fuota_route f)) = 128"
    and cmd: "cmd \<noteq> []" "length cmd \<le> 112"
    and addrs: "addrs = (if h = 0 then src else take (4 * h) (paths (current_fuota_route f)))"
    and n: "n = (if h = 0 then 16 else 12 + 4 * h) + length cmd"
  shows "frame_pmesh_fuota_cmd_header_for_target_node t cmd f = do {
      buf \<leftarrow> memcpy_to ([0x2E, client_tx_buffer f ! 1, t] @ pan @ src @ [0, word_of_nat h] @ addrs @ drop (13 + length addrs) (client_tx_buffer f)) 17 cmd;
      buf \<leftarrow> memcpy_to buf 1 [word_of_nat n];
      Some (e_success_0, f\<lparr>current_fuota_route := (current_fuota_route f)\<lparr>hops := word_of_nat h\<rparr>, client_tx_buffer := buf\<rparr>) }"
proof -
  let ?r = "(current_fuota_route f)\<lparr>hops := word_of_nat h\<rparr>"
  have ps: "length pan = 4" "length src = 4" using extract_ids_length [OF ids] by simp_all
  have la: "length addrs = (if h = 0 then 4 else 4 * h)" using addrs ps route h by simp
  have "length addrs \<le> 128" using la h by simp
  then have "\<exists>a b o1 o2 o3 tail. client_tx_buffer f = [a, b] @ o1 @ o2 @ o3 @ tail \<and> length o1 = 9 \<and> length o2 = 2 \<and> length o3 = length addrs"
  proof -
    obtain x o0 where "client_tx_buffer f = x @ o0" "length x = 2" using split_at [of 2 "client_tx_buffer f"] len by auto
    moreover from this obtain o1 y where "o0 = o1 @ y" "length o1 = 9" using split_at [of 9 o0] len by auto
    moreover from calculation obtain o2 z where "y = o2 @ z" "length o2 = 2" using split_at [of 2 y] len by auto
    moreover from calculation obtain o3 tail where "z = o3 @ tail" "length o3 = length addrs"
      using split_at [of "length addrs" z] len \<open>length addrs \<le> 128\<close> by auto
    moreover from calculation obtain a b where "x = [a, b]" by (cases x; cases "tl x") auto
    ultimately show ?thesis by auto
  qed
  then obtain a b o1 o2 o3 tail where old: "client_tx_buffer f = [a, b] @ o1 @ o2 @ o3 @ tail"
    and ol: "length o1 = 9" "length o2 = 2" "length o3 = length addrs" by blast
  let ?head = "[t] @ pan @ src"
  have 1: "memcpy_to (client_tx_buffer f) 0 [HES_START_BYTE] = Some ([0x2E, b] @ o1 @ o2 @ o3 @ tail)"
    unfolding old using memcpy_to_start [of "[HES_START_BYTE]" "[a]"] by simp
  have 2: "memcpy_to ([0x2E, b] @ o1 @ o2 @ o3 @ tail) 2 ?head = Some ([0x2E, b] @ ?head @ o2 @ o3 @ tail)"
    by (rule memcpy_to_at) (simp_all add: ol ps)
  have 3: "memcpy_to ([0x2E, b] @ ?head @ o2 @ o3 @ tail) 11 ([0, word_of_nat h] @ addrs)
      = Some (([0x2E, b] @ ?head) @ ([0, word_of_nat h] @ addrs) @ tail)"
    using memcpy_to_at [of 11 "[0x2E, b] @ ?head" "[0, word_of_nat h] @ addrs" "o2 @ o3" tail] ol ps by simp
  have hu: "unat (word_of_nat h :: u8) = h" using h(2) by (simp add: unat_small)
  have w: "(word_of_int (request_hops f) :: u8) = word_of_nat h" using h(1) by simp
  have rd: "(if h = 0 then Some src else memcpy_from (paths (current_fuota_route f)) 0 (h * 4)) = Some addrs"
    using route h addrs by (simp add: memcpy_from_start mult.commute)
  have tail: "drop (13 + length addrs) (client_tx_buffer f) = tail" "client_tx_buffer f ! 1 = b"
  proof -
    have "drop (length ([a, b] @ o1 @ o2 @ o3)) (([a, b] @ o1 @ o2 @ o3) @ tail) = tail" by simp
    moreover have "length ([a, b] @ o1 @ o2 @ o3) = 13 + length addrs" using ol by simp
    ultimately show "drop (13 + length addrs) (client_tx_buffer f) = tail" unfolding old by (simp only: append_assoc)
  qed (simp add: old)
  have not: "\<not> h > 32" "\<not> int (6 + 6 + h * 4 + length cmd) > CLIENT_TX_BUFFER_SIZE" using h cmd by simp_all
  have len': "(if h > 0 then 6 + 6 + h * 4 + length cmd else 6 + 6 + h * 4 + 4 + length cmd) = n" using n by simp
  show ?thesis
    unfolding frame_pmesh_fuota_cmd_header_for_target_node_def Let_def
    using cmd(1) 1 2 3 rd not len' hu w tail
    by (simp add: ids cong: if_cong)
qed

text \<open>With at most one hop the frame to the target is the intended one: length, type, network and sender, the
  number of hops, the address and the command; the bytes behind it are those the buffer held before.\<close>

theorem target_command_framed:
  assumes ids: "extract_ids (gateway_id (owner f)) = Some (pan, src)" and len: "length (client_tx_buffer f) = 1024"
    and h: "request_hops f = int h" "h \<le> 1" and route: "length (paths (current_fuota_route f)) = 128"
    and cmd: "cmd \<noteq> []" "length cmd \<le> 112"
  shows "\<exists>g. frame_pmesh_fuota_cmd_header_for_target_node t cmd f = Some (e_success_0, g)
    \<and> client_tx_buffer g = [0x2E, word_of_nat (16 + length cmd), t] @ pan @ src @ [0, word_of_nat h]
        @ (if h = 0 then src else take 4 (paths (current_fuota_route f))) @ cmd @ drop (17 + length cmd) (client_tx_buffer f)"
proof -
  let ?addrs = "if h = 0 then src else take (4 * h) (paths (current_fuota_route f))"
  have ps: "length pan = 4" "length src = 4" using extract_ids_length [OF ids] by simp_all
  have la: "length ?addrs = 4" using ps route h by simp
  let ?b = "client_tx_buffer f ! 1"
  let ?pre = "[0x2E, ?b, t] @ pan @ src @ [0, word_of_nat h] @ ?addrs"
  obtain o1 tail where r: "drop 17 (client_tx_buffer f) = o1 @ tail" "length o1 = length cmd"
    using split_at [of "length cmd" "drop 17 (client_tx_buffer f)"] len cmd by auto
  have t: "drop (17 + length cmd) (client_tx_buffer f) = tail"
    using r drop_drop [of "length cmd" 17 "client_tx_buffer f"] by (simp add: add.commute)
  have 1: "memcpy_to (?pre @ o1 @ tail) 17 cmd = Some (?pre @ cmd @ tail)"
    by (rule memcpy_to_at) (simp_all add: r ps la del: if_image_distrib)
  have 2: "memcpy_to (?pre @ cmd @ tail) 1 [n] = Some ([0x2E, n, t] @ pan @ src @ [0, word_of_nat h] @ ?addrs @ cmd @ tail)" for n
    using memcpy_to_at [of 1 "[0x2E]" "[n]" "[?b]"] by simp
  have hh: "h = 0 \<or> h = 1" using h(2) by auto
  have "frame_pmesh_fuota_cmd_header_for_target_node t cmd f = Some (e_success_0,
      f\<lparr>current_fuota_route := (current_fuota_route f)\<lparr>hops := word_of_nat h\<rparr>,
        client_tx_buffer := [0x2E, word_of_nat (16 + length cmd), t] @ pan @ src @ [0, word_of_nat h] @ ?addrs @ cmd @ tail\<rparr>)"
    using target_header [OF ids len h(1) _ route cmd refl refl, of t] h(2) 1 2 la r(1) hh
    by (auto simp del: of_nat_add)
  then show ?thesis using t hh by auto
qed

text \<open>With two or more hops a short command does not arrive: it is written over the second address, while the
  length counts all addresses and the command, so that in its place the frame carries what the buffer held
  before.\<close>

theorem second_hop_overwritten:
  assumes ids: "extract_ids (gateway_id (owner f)) = Some (pan, src)" and len: "length (client_tx_buffer f) = 1024"
    and h: "request_hops f = int h" "2 \<le> h" "h \<le> 32" and route: "length (paths (current_fuota_route f)) = 128"
    and cmd: "cmd \<noteq> []" "length cmd \<le> 4 * (h - 1)" "length cmd \<le> 112"
  shows "\<exists>g. frame_pmesh_fuota_cmd_header_for_target_node t cmd f = Some (e_success_0, g)
    \<and> take (13 + 4 * h + length cmd) (client_tx_buffer g) = [0x2E, word_of_nat (12 + 4 * h + length cmd), t] @ pan @ src @ [0, word_of_nat h]
        @ take 4 (paths (current_fuota_route f)) @ cmd @ drop (4 + length cmd) (take (4 * h) (paths (current_fuota_route f)))
        @ take (length cmd) (drop (13 + 4 * h) (client_tx_buffer f))"
proof -
  let ?addrs = "take (4 * h) (paths (current_fuota_route f))"
  have ps: "length pan = 4" "length src = 4" using extract_ids_length [OF ids] by simp_all
  have la: "length ?addrs = 4 * h" using route h by simp
  let ?b = "client_tx_buffer f ! 1"
  have h0: "h \<noteq> 0" using h(2) by simp
  obtain a1 a2 where a: "?addrs = a1 @ a2" "length a1 = 4"
    using split_at [of 4 ?addrs, unfolded la] h(2) by fastforce
  then have "length a2 = 4 * (h - 1)" using la by (cases h) auto
  then obtain a3 a4 where b: "a2 = a3 @ a4" "length a3 = length cmd" using split_at [of "length cmd" a2] cmd by auto
  let ?tail = "drop (13 + 4 * h) (client_tx_buffer f)"
  let ?pre = "[0x2E, ?b, t] @ pan @ src @ [0, word_of_nat h] @ a1"
  have 1: "memcpy_to (?pre @ a3 @ a4 @ ?tail) 17 cmd = Some (?pre @ cmd @ a4 @ ?tail)"
    by (rule memcpy_to_at) (simp_all add: b ps a)
  have 2: "memcpy_to (?pre @ cmd @ a4 @ ?tail) 1 [n] = Some ([0x2E, n, t] @ pan @ src @ [0, word_of_nat h] @ a1 @ cmd @ a4 @ ?tail)" for n
    using memcpy_to_at [of 1 "[0x2E]" "[n]" "[?b]"] by simp
  let ?buf = "[0x2E, word_of_nat (12 + 4 * h + length cmd), t] @ pan @ src @ [0, word_of_nat h] @ a1 @ cmd @ a4 @ ?tail"
  have "frame_pmesh_fuota_cmd_header_for_target_node t cmd f = Some (e_success_0,
      f\<lparr>current_fuota_route := (current_fuota_route f)\<lparr>hops := word_of_nat h\<rparr>, client_tx_buffer := ?buf\<rparr>)"
  proof -
    note target_header [OF ids len h(1,3) route cmd(1,3), of ?addrs "12 + 4 * h + length cmd" t, unfolded la]
    with h0 a b have "frame_pmesh_fuota_cmd_header_for_target_node t cmd f = do {
        buf \<leftarrow> memcpy_to (?pre @ a3 @ a4 @ ?tail) 17 cmd;
        buf \<leftarrow> memcpy_to buf 1 [word_of_nat (12 + 4 * h + length cmd)];
        Some (e_success_0, f\<lparr>current_fuota_route := (current_fuota_route f)\<lparr>hops := word_of_nat h\<rparr>, client_tx_buffer := buf\<rparr>) }"
      by (simp del: of_nat_add of_nat_mult)
    then show ?thesis by (simp only: 1 2 Option.bind.bind_lunit)
  qed
  moreover have "client_tx_buffer (f\<lparr>current_fuota_route := (current_fuota_route f)\<lparr>hops := word_of_nat h\<rparr>, client_tx_buffer := ?buf\<rparr>) = ?buf"
    by simp
  moreover have "take 4 (paths (current_fuota_route f)) = a1"
  proof -
    have "take 4 (paths (current_fuota_route f)) = take 4 ?addrs" using h by simp
    then show ?thesis using a by simp
  qed
  moreover have "drop (4 + length cmd) ?addrs = a4" using a b by simp
  moreover have "take (13 + 4 * h + length cmd) ?buf = [0x2E, word_of_nat (12 + 4 * h + length cmd), t] @ pan @ src @ [0, word_of_nat h]
      @ a1 @ cmd @ a4 @ take (length cmd) ?tail"
  proof -
    have "length a4 + length cmd + 4 = 4 * h" using a b la by (metis add.commute add.left_commute length_append)
    then have "13 + 4 * h + length cmd = length ([0x2E, word_of_nat (12 + 4 * h + length cmd), t] @ pan @ src @ [0, word_of_nat h] @ a1 @ cmd @ a4) + length cmd"
      using ps a by simp
    then show ?thesis by (simp only: append_assoc [symmetric] take_append) simp
  qed
  ultimately show ?thesis
    by (intro exI [of _ "f\<lparr>current_fuota_route := (current_fuota_route f)\<lparr>hops := word_of_nat h\<rparr>, client_tx_buffer := ?buf\<rparr>"] conjI) (simp_all only:)
qed

section \<open>The status of a request\<close>

text \<open>What is written for an update, and the updates of a request up to the first with error 0.\<close>

definition written_status :: "int \<times> int \<times> int \<Rightarrow> int \<times> int \<times> int" where
  "written_status u = (case u of (status, error, req) \<Rightarrow> if status = 17 \<and> error = 1 then (req, 21, 1) else (req, status, error))"

fun until_final :: "(int \<times> int \<times> int) list \<Rightarrow> (int \<times> int \<times> int) list" where
  "until_final [] = []"
| "until_final ((req, status, error) # us) = (req, status, error) # (if error = 0 then [] else until_final us)"

abbreviation of_request :: "int \<Rightarrow> (int \<times> int \<times> int) list \<Rightarrow> (int \<times> int \<times> int) list" where
  "of_request q \<equiv> filter (\<lambda>e. fst e = q)"

lemma status_log_updates:
  "of_request q (status_log (fold (\<lambda>(s, e, r). ondemand_fuota_update_status s e r) us f)) = of_request q (status_log f)
     @ (case map_of (last_status_map f) q of Some (_, e) \<Rightarrow> if e = 0 then [] else until_final (of_request q (map written_status us))
        | None \<Rightarrow> until_final (of_request q (map written_status us)))"
proof (induction us arbitrary: f)
  case (Cons u us)
  obtain s e r where u: "u = (s, e, r)" by (rule prod_cases3)
  let ?g = "ondemand_fuota_update_status s e r f"
  show ?case
  proof (cases "\<exists>x. map_of (last_status_map f) r = Some (x, 0)")
    case True
    then have "?g = f" by (auto simp: ondemand_fuota_update_status_def)
    with Cons [of f] True show ?thesis by (auto simp: u written_status_def split: option.splits)
  next
    case False
    then have g: "status_log ?g = status_log f @ [written_status u]"
      "map_of (last_status_map ?g) = (map_of (last_status_map f))(r \<mapsto> snd (written_status u))"
      by (auto simp: ondemand_fuota_update_status_def u written_status_def Let_def update_conv' split: option.splits)
    with Cons [of ?g] False show ?thesis
      by (auto simp: u written_status_def split: option.splits if_splits)
  qed
qed (auto split: option.splits)

text \<open>Whatever updates a run makes, the database gets for every request its updates in order up to the first with
  error code 0, which is the last for this request, with 17 turned into 21 when there is no error.\<close>

theorem status_until_final:
  "of_request q (status_log (fold (\<lambda>(s, e, r). ondemand_fuota_update_status s e r) us (f\<lparr>status_log := [], last_status_map := []\<rparr>)))
    = until_final (of_request q (map written_status us))"
  by (simp add: status_log_updates)

section \<open>A refused answer\<close>

text \<open>An answer that is neither the confirmation nor a mismatch, while the first route is used: the packet is
  repeated, and the confirmation expected becomes what \<open>temp_expect_buf\<close> holds.\<close>

lemma post_read_refused:
  assumes rl: "length (fuota_rbuf h) = 130" and el: "length (rf_fuota_expected_resp_header h) = 30"
    and R: "0 < unat (response_length h)" "unat (response_length h) \<le> 24"
    and other: "take (unat (response_length h)) (fuota_rbuf h) \<noteq> take (unat (response_length h)) (rf_fuota_expected_resp_header h)"
    and n: "3 \<le> n" "n \<le> 130" and kind: "fuota_rbuf h ! 2 = 0x0A \<longrightarrow> fuota_rbuf h ! (n - 2) \<notin> {0x02, 0x03}"
    and route: "\<not> using_alternate_path h" and temp: "temp_expect_buf h = replicate 64 0"
    and count: "unat (fuota_imagetf_retry_count h) < 3"
  defines "g \<equiv> h\<lparr>fuota_imagetf_retry_count := fuota_imagetf_retry_count h + 1\<rparr>"
  shows "unat (fuota_imagetf_retry_count h) < 2 \<Longrightarrow> handle_fuota_post_read n h = Some (FUOTA_RETRY, g\<lparr>rf_fuota_expected_resp_header :=
      replicate (unat (response_length h)) 0 @ drop (unat (response_length h)) (rf_fuota_expected_resp_header h)\<rparr>)"
    and "unat (fuota_imagetf_retry_count h) = 2 \<Longrightarrow> handle_fuota_post_read n h = do {
        let f = g\<lparr>using_alternate_path := True, fuotaimagetf_alternate_count := 0\<rparr>;
        len \<leftarrow> rd (image_tf_command f, 0) (uint (BASE_HDR_LEN f) + 1);
        command \<leftarrow> memcpy_from (image_tf_command f) (unat (BASE_HDR_LEN f)) (unat len);
        f \<leftarrow> prepare_alternate_sameroute_retry command f;
        Some (FUOTA_RETRY, f) }"
proof -
  let ?r = "fuota_rbuf h" and ?R = "unat (response_length h)"
  have reads: "rd (?r, 0) 2 = Some (?r ! 2)" "rd (?r, 0) (int n - 2) = Some (?r ! (n - 2))"
    "\<exists>v. rd (?r, 0) (uint (response_length h) - 1) = Some v"
  proof -
    show "rd (?r, 0) 2 = Some (?r ! 2)" using rl by (simp add: rd.simps)
    show "rd (?r, 0) (int n - 2) = Some (?r ! (n - 2))" using rl n by (simp add: rd.simps nat_diff_distrib)
    have "0 < int ?R" "int ?R \<le> 24" using R by linarith+
    then have "0 < uint (response_length h)" "uint (response_length h) \<le> 24" by (simp_all only: uint_nat)
    with rl show "\<exists>v. rd (?r, 0) (uint (response_length h) - 1) = Some v" by (simp add: rd.simps)
  qed
  then obtain v where v: "rd (?r, 0) (uint (response_length h) - 1) = Some v" by blast
  have mism: "\<not> (?r ! 2 = 0x0A \<and> ?r ! (n - 2) = 0x02)" "\<not> (?r ! 2 = 0x0A \<and> ?r ! (n - 2) = 0x03)" using kind by auto
  have cmp: "memcpy_from ?r 0 ?R = Some (take ?R ?r)"
    "memcpy_from (rf_fuota_expected_resp_header h) 0 ?R = Some (take ?R (rf_fuota_expected_resp_header h))"
    using rl el R by (simp_all add: memcpy_from_start)
  have temp': "memcpy_from (temp_expect_buf h) 0 ?R = Some (replicate ?R 0)"
    using R temp by (simp add: memcpy_from_start)
  have put: "memcpy_to (rf_fuota_expected_resp_header h) 0 (replicate ?R 0)
      = Some (replicate ?R 0 @ drop ?R (rf_fuota_expected_resp_header h))"
    using R el by (simp add: memcpy_to_def)
  have up: "unat (fuota_imagetf_retry_count h + 1) = Suc (unat (fuota_imagetf_retry_count h))" using count by (rule count_up)
  have "n \<noteq> 0" using n by simp
  note step = handle_fuota_post_read_def cmp other this reads(1,2) v mism route up Let_def eqB_def
  show "handle_fuota_post_read n h = Some (FUOTA_RETRY, g\<lparr>rf_fuota_expected_resp_header :=
      replicate ?R 0 @ drop ?R (rf_fuota_expected_resp_header h)\<rparr>)" if "unat (fuota_imagetf_retry_count h) < 2"
    using that n(1) by (simp add: step retry_with_template_def temp' put g_def)
  show "handle_fuota_post_read n h = do {
        let f = g\<lparr>using_alternate_path := True, fuotaimagetf_alternate_count := 0\<rparr>;
        len \<leftarrow> rd (image_tf_command f, 0) (uint (BASE_HDR_LEN f) + 1);
        command \<leftarrow> memcpy_from (image_tf_command f) (unat (BASE_HDR_LEN f)) (unat len);
        f \<leftarrow> prepare_alternate_sameroute_retry command f;
        Some (FUOTA_RETRY, f) }" if "unat (fuota_imagetf_retry_count h) = 2"
    using that n(1) by (simp add: step g_def)
qed

lemma answer_refused:
  assumes "inbox (owner f) = (t, RxData bs) # rest" and "send_results (owner f) = []" and n: "3 \<le> length bs" "length bs \<le> 130"
    and bufs: "length (fuota_rbuf f) = 130" "length (rf_fuota_expected_resp_header f) = 30" "temp_expect_buf f = replicate 64 0"
    and L: "rf_fuota_expected_resp_header f ! 1 = L" "unat L < 24"
    and other: "take (unat L + 1) (bs @ drop (length bs) (fuota_rbuf f)) \<noteq> take (unat L + 1) (rf_fuota_expected_resp_header f)"
    and kind: "bs ! 2 = 0x0A \<longrightarrow> bs ! (length bs - 2) \<notin> {0x02, 0x03}"
    and route: "\<not> using_alternate_path f" and count: "unat (fuota_imagetf_retry_count f) < 3"
    and frame: "memcpy_from (image_tf_command f) 0 (unat (command_length f)) = Some frame"
  defines "h \<equiv> f\<lparr>owner := (owner f)\<lparr>wire := wire (owner f) @ [frame], clock := t, inbox := rest\<rparr>,
      fuota_rbuf := bs @ drop (length bs) (fuota_rbuf f), response_length := L + 1,
      fuota_imagetf_retry_count := fuota_imagetf_retry_count f + 1\<rparr>"
  shows "unat (fuota_imagetf_retry_count f) < 2 \<Longrightarrow> send_sub_page cansend f = send_sub_page cansend (h\<lparr>rf_fuota_expected_resp_header :=
      replicate (unat L + 1) 0 @ drop (unat L + 1) (rf_fuota_expected_resp_header f)\<rparr>)"
    and "unat (fuota_imagetf_retry_count f) = 2 \<Longrightarrow> length (client_tx_buffer f) = 1024 \<Longrightarrow> client_tx_buffer f ! 12 = 0
      \<Longrightarrow> rd (image_tf_command f, 0) (uint (BASE_HDR_LEN f) + 1) = Some len
      \<Longrightarrow> memcpy_from (image_tf_command f) (unat (BASE_HDR_LEN f)) (unat len) = Some (x # xs)
      \<Longrightarrow> send_sub_page cansend f = Some (SubBreak, ondemand_fuota_update_status 22 1 (request_id f)
          (h\<lparr>using_alternate_path := True, fuotaimagetf_alternate_count := 0,
             cntx := (cntx f)\<lparr>retry_count := 0, alternate_retry := alternate_retry (cntx f) + 1\<rparr>\<rparr>))"
proof -
  let ?c = "(owner f)\<lparr>wire := wire (owner f) @ [frame]\<rparr>"
  let ?rbuf = "bs @ drop (length bs) (fuota_rbuf f)"
  let ?h = "f\<lparr>owner := ?c\<lparr>clock := t, inbox := rest\<rparr>, fuota_rbuf := ?rbuf, response_length := L + 1\<rparr>"
  have L1: "unat (L + 1) = unat L + 1" using L(2) by (simp add: unat_word_ariths)
  have r: "recv 130 ?c = (RxData bs, bs @ replicate (130 - length bs) 0, ?c\<lparr>clock := t, inbox := rest\<rparr>)"
    using assms(1) n by (cases bs) (simp_all add: recv_def)
  have put: "memcpy_to (fuota_rbuf f) 0 bs = Some ?rbuf" using n bufs by (simp add: memcpy_to_def)
  have len: "rd (rf_fuota_expected_resp_header f, 0) 1 = Some L" using L(1) bufs by simp
  have kind': "fuota_rbuf ?h ! 2 = 0x0A \<longrightarrow> fuota_rbuf ?h ! (length bs - 2) \<notin> {0x02, 0x03}"
  proof -
    have "length bs - 2 < length bs" "2 < length bs" using n by arith+
    with kind show ?thesis by (simp add: nth_append)
  qed
  have ready: "length (fuota_rbuf ?h) = 130" "length (rf_fuota_expected_resp_header ?h) = 30" "0 < unat (response_length ?h)"
    "unat (response_length ?h) \<le> 24" "take (unat (response_length ?h)) (fuota_rbuf ?h) \<noteq> take (unat (response_length ?h)) (rf_fuota_expected_resp_header ?h)"
    "\<not> using_alternate_path ?h" "temp_expect_buf ?h = replicate 64 0" "unat (fuota_imagetf_retry_count ?h) < 3"
    using bufs n L(2) L1 other route count by simp_all
  note refused = post_read_refused [OF ready(1-5) n kind' ready(6-8)]
  have run: "send_sub_page cansend f = do {
      (decision, f) \<leftarrow> handle_fuota_post_read (length bs) ?h;
      case decision of
          FUOTA_SUCCESS \<Rightarrow> Some (SubBreak, f)
        | FUOTA_RETRY \<Rightarrow> send_sub_page cansend f
        | FUOTA_JUMP \<Rightarrow> Some (SubBreak, f)
        | FUOTA_ABORT \<Rightarrow> map_option (Pair (SubReturn e_success_1))
            (handle_fuota_completion cansend (ondemand_fuota_update_status 11 0 (request_id f) f)) }"
    using count frame send_all [OF assms(2)] r put len by (subst send_sub_page.simps) simp
  show "send_sub_page cansend f = send_sub_page cansend (h\<lparr>rf_fuota_expected_resp_header :=
      replicate (unat L + 1) 0 @ drop (unat L + 1) (rf_fuota_expected_resp_header f)\<rparr>)"
    if "unat (fuota_imagetf_retry_count f) < 2"
    using that refused(1) L1 by (simp add: run h_def)
  show "send_sub_page cansend f = Some (SubBreak, ondemand_fuota_update_status 22 1 (request_id f)
          (h\<lparr>using_alternate_path := True, fuotaimagetf_alternate_count := 0,
             cntx := (cntx f)\<lparr>retry_count := 0, alternate_retry := alternate_retry (cntx f) + 1\<rparr>\<rparr>))"
    if two: "unat (fuota_imagetf_retry_count f) = 2" and tx: "length (client_tx_buffer f) = 1024" "client_tx_buffer f ! 12 = 0"
      and cmd: "rd (image_tf_command f, 0) (uint (BASE_HDR_LEN f) + 1) = Some len"
        "memcpy_from (image_tf_command f) (unat (BASE_HDR_LEN f)) (unat len) = Some (x # xs)"
  proof -
    let ?g = "ondemand_fuota_update_status 22 1 (request_id f) (h\<lparr>using_alternate_path := True, fuotaimagetf_alternate_count := 0,
             cntx := (cntx f)\<lparr>retry_count := 0, alternate_retry := alternate_retry (cntx f) + 1\<rparr>\<rparr>)"
    have "prepare_alternate_sameroute_retry (x # xs) (h\<lparr>using_alternate_path := True, fuotaimagetf_alternate_count := 0\<rparr>) = Some ?g"
      using tx by (simp add: prepare_alternate_sameroute_retry_def h_def rd.simps Let_def)
    then have "handle_fuota_post_read (length bs) ?h = Some (FUOTA_RETRY, ?g)"
      using refused(2) two cmd by (simp add: h_def)
    moreover have "unat (fuota_imagetf_retry_count ?g) = 3" using two count_up [OF count] by (simp add: h_def)
    then have "send_sub_page cansend ?g = Some (SubBreak, ?g)" by (subst send_sub_page.simps) simp
    ultimately show ?thesis by (simp add: run)
  qed
qed

lemma command_in_frame:
  assumes img: "image_tf_command f = sub_page_frame H k j data @ z" and B: "BASE_HDR_LEN f = word_of_nat (length H + 2)"
    and H: "length H \<le> 110" "length data \<le> 118 - length H"
  shows "rd (image_tf_command f, 0) (uint (BASE_HDR_LEN f) + 1) = Some (word_of_nat (length data + 7))"
    and "memcpy_from (image_tf_command f) (unat (BASE_HDR_LEN f)) (unat (word_of_nat (length data + 7) :: u8)) = Some (sub_page_command k j data)"
proof -
  have u: "unat (BASE_HDR_LEN f) = length H + 2" "uint (BASE_HDR_LEN f) = int (length H + 2)"
    "unat (word_of_nat (length data + 7) :: u8) = length data + 7"
    using B H unat_small [of "length H + 2"] uint_u8_of_nat [of "length H + 2"] unat_small [of "length data + 7"]
    by (simp_all del: of_nat_add)
  let ?pre = "[HES_START_BYTE, word_of_nat (length H + length (sub_page_command k j data) + 2)] @ H"
  have split: "image_tf_command f = ?pre @ sub_page_command k j data @ [checksum8 (sub_page_command k j data)] @ z"
    using img by (simp add: sub_page_frame_def Let_def)
  have "image_tf_command f ! (length ?pre + 1) = word_of_nat (length data + 7)"
    unfolding split nth_append_length_plus by (simp add: sub_page_command_def)
  then show "rd (image_tf_command f, 0) (uint (BASE_HDR_LEN f) + 1) = Some (word_of_nat (length data + 7))"
    using u(2) by (simp add: rd.simps split nat_add_distrib del: of_nat_add) (simp add: sub_page_command_def)
  show "memcpy_from (image_tf_command f) (unat (BASE_HDR_LEN f)) (unat (word_of_nat (length data + 7) :: u8)) = Some (sub_page_command k j data)"
    unfolding u split by (rule memcpy_from_at) (simp_all add: sub_page_command_def)
qed

text \<open>C34: one answer that is no confirmation, for example that the target is busy, ends the whole transfer over the
  direct route, even when the target confirms the packet at the second and the third attempt: the confirmation
  expected was overwritten with zeros.  The program goes on to the next request or wakes the network.\<close>

theorem busy_answer_aborts:
  assumes u: "uploading H R sector file i f" and i: "i < parts_of_image H sector file" and fit: "sizes_fit H sector file"
    and inbox: "inbox (owner f) = (t, RxData bs) # (t', RxData (image_confirmation H R sector i)) # (t'', RxData (image_confirmation H R sector i)) # rest"
    and sends: "send_results (owner f) = []" and busy: "3 \<le> length bs" "length bs \<le> 130" "bs ! 2 \<noteq> 0x0A"
    and bufs: "temp_expect_buf f = replicate 64 0" "length (client_tx_buffer f) = 1024" "client_tx_buffer f ! 12 = 0"
    and first: "\<not> using_alternate_path f" "alternate_retry (cntx f) < 2"
  shows "\<exists>g. upload_step cansend f = map_option (Pair (UploadReturn 1)) (handle_fuota_completion cansend g)
    \<and> wire (owner g) = wire (owner f) @ replicate 3 (image_frame H sector file i) \<and> inbox (owner g) = rest"
proof -
  let ?e = "image_confirmation H R sector i" and ?fr = "image_frame H sector file i"
  from part_prepared [OF u i fit, of cansend] obtain f3 where
    step: "upload_step cansend f = send_sub_page cansend f3 \<bind> (\<lambda>(sent, h). after_sub_page cansend (last_part H sector i) sent h)"
    and ready1: "fuota_imagetf_retry_count f3 = 0" "length (fuota_rbuf f3) = 130" "length (rf_fuota_expected_resp_header f3) = 30"
      "take 24 (rf_fuota_expected_resp_header f3) = ?e" "memcpy_from (image_tf_command f3) 0 (unat (command_length f3)) = Some ?fr"
      "owner f3 = owner f" "cntx f3 = cntx f" "client_tx_buffer f3 = client_tx_buffer f" "using_alternate_path f3 = using_alternate_path f"
      "temp_expect_buf f3 = temp_expect_buf f" "length (image_tf_command f3) = 128" "BASE_HDR_LEN f3 = BASE_HDR_LEN f"
    by blast
  have ready2: "\<not> using_alternate_path f3" "temp_expect_buf f3 = replicate 64 0" using ready1(9,10) first bufs(1) by simp_all
  note ready = ready1(1-8) ready2 ready1(11,12)
  have e: "length ?e = 24" using arg_cong [OF ready(4), of length] ready(3) by simp
  have en: "?e ! 0 = 0x2E" "?e ! 1 = 0x17" "?e ! 2 = 0x0A" by (simp_all add: image_confirmation_def sub_page_confirmation_def Let_def)
  have R: "length R = 12" using u by (simp add: uploading_def templates_def)
  have status: "?e ! 22 \<notin> {0x02, 0x03}"
    unfolding image_confirmation_def sub_page_confirmation_def Let_def
    using nth_append_length_plus [of "[HES_START_BYTE, 0x17, 0x0A] @ R" _ 7] R by (simp add: nth_append)
  let ?exp = "rf_fuota_expected_resp_header f3"
  have exp1: "?exp ! 1 = 0x17" using ready(4) en(2) nth_take [of 1 24 ?exp] by simp
  have u17: "unat (0x17 :: u8) + 1 = 24" "unat (0 :: u8) + 1 = 1" by simp_all
  have differ: "take 24 (bs @ ys) \<noteq> take 24 ?exp" for ys
  proof
    assume "take 24 (bs @ ys) = take 24 ?exp"
    then have "take 24 (bs @ ys) ! 2 = ?e ! 2" using ready(4) by simp
    with busy en(3) show False by (simp add: nth_append)
  qed
  define c4 where "c4 = (owner f3)\<lparr>wire := wire (owner f3) @ [?fr], clock := t,
    inbox := [(t', RxData ?e), (t'', RxData ?e)] @ rest\<rparr>"
  define f4 where "f4 = f3\<lparr>owner := c4, fuota_rbuf := bs @ drop (length bs) (fuota_rbuf f3), response_length := 0x17 + 1,
    fuota_imagetf_retry_count := fuota_imagetf_retry_count f3 + 1, rf_fuota_expected_resp_header := replicate 24 0 @ drop 24 ?exp\<rparr>"
  define c5 where "c5 = c4\<lparr>wire := wire c4 @ [?fr], clock := t', inbox := (t'', RxData ?e) # rest\<rparr>"
  define f5 where "f5 = f4\<lparr>owner := c5, fuota_rbuf := ?e @ drop 24 (fuota_rbuf f4), response_length := 0 + 1,
    fuota_imagetf_retry_count := fuota_imagetf_retry_count f4 + 1, rf_fuota_expected_resp_header := replicate 1 0 @ drop 1 (replicate 24 0 @ drop 24 ?exp)\<rparr>"
  have 1: "send_sub_page cansend f3 = send_sub_page cansend f4"
  proof -
    have "inbox (owner f3) = (t, RxData bs) # [(t', RxData ?e), (t'', RxData ?e)] @ rest" using inbox ready(6) by simp
    from answer_refused(1) [OF this _ busy(1,2) ready(2,3,10) exp1 _ _ _ ready(9) _ ready(5)] show ?thesis
      using sends ready(1,6) busy(3) differ by (simp add: u17 f4_def c4_def)
  qed
  have 2: "send_sub_page cansend f4 = send_sub_page cansend f5"
  proof -
    have "inbox (owner f4) = (t', RxData ?e) # (t'', RxData ?e) # rest" by (simp add: f4_def c4_def)
    moreover have "length (fuota_rbuf f4) = 130" "length (rf_fuota_expected_resp_header f4) = 30"
      "temp_expect_buf f4 = replicate 64 0" "rf_fuota_expected_resp_header f4 ! 1 = 0" "\<not> using_alternate_path f4"
      "memcpy_from (image_tf_command f4) 0 (unat (command_length f4)) = Some ?fr" "send_results (owner f4) = []"
      "fuota_imagetf_retry_count f4 = 1" "rf_fuota_expected_resp_header f4 = replicate 24 0 @ drop 24 ?exp" "owner f4 = c4"
      using ready sends busy by (simp_all add: f4_def c4_def nth_append)
    moreover have "take (Suc 0) ?e = [0x2E]" by (simp add: image_confirmation_def sub_page_confirmation_def Let_def)
    ultimately show ?thesis
      using answer_refused(1) [of f4 t' ?e "(t'', RxData ?e) # rest" 0 ?fr cansend] e en status
      by (simp add: u17 f5_def c5_def take_Cons' take_append)
  qed
  define f6 where "f6 = ondemand_fuota_update_status 22 1 (request_id f5)
    (f5\<lparr>owner := c5\<lparr>wire := wire c5 @ [?fr], clock := t'', inbox := rest\<rparr>, fuota_rbuf := ?e @ drop 24 (fuota_rbuf f5),
       response_length := 0 + 1, fuota_imagetf_retry_count := fuota_imagetf_retry_count f5 + 1, using_alternate_path := True,
       fuotaimagetf_alternate_count := 0, cntx := (cntx f5)\<lparr>retry_count := 0, alternate_retry := alternate_retry (cntx f5) + 1\<rparr>\<rparr>)"
  have 3: "send_sub_page cansend f5 = Some (SubBreak, f6)"
  proof -
    have "take (unat (command_length f3)) (image_tf_command f3) = ?fr"
      using ready(5) by (simp add: memcpy_from_def split: if_splits)
    then obtain z where z: "image_tf_command f3 = ?fr @ z" by (metis append_take_drop_id)
    have "image_tf_command f5 = ?fr @ z" "BASE_HDR_LEN f5 = word_of_nat (length H + 2)" "length H \<le> 110"
      using z ready u by (simp_all add: f5_def f4_def uploading_def templates_def)
    note cmd = command_in_frame [OF this(1) [unfolded image_frame_def] this(2,3) part_inside(5) [OF fit i]]
    obtain x xs where x: "sub_page_command (i div sub_pages H sector) (i mod sub_pages H sector) (part_of_image H sector file i) = x # xs"
      by (simp add: sub_page_command_def)
    have "inbox (owner f5) = (t'', RxData ?e) # rest" by (simp add: f5_def c5_def)
    moreover have "length (fuota_rbuf f5) = 130" "length (rf_fuota_expected_resp_header f5) = 30"
      "temp_expect_buf f5 = replicate 64 0" "rf_fuota_expected_resp_header f5 ! 1 = 0" "\<not> using_alternate_path f5"
      "memcpy_from (image_tf_command f5) 0 (unat (command_length f5)) = Some ?fr" "send_results (owner f5) = []"
      "fuota_imagetf_retry_count f5 = 2" "take (Suc 0) (rf_fuota_expected_resp_header f5) = [0]" "owner f5 = c5"
      "length (client_tx_buffer f5) = 1024" "client_tx_buffer f5 ! 12 = 0"
      using ready sends busy bufs e by (simp_all add: f5_def c5_def f4_def c4_def nth_append)
    moreover have "take (Suc 0) ?e = [0x2E]" by (simp add: image_confirmation_def sub_page_confirmation_def Let_def)
    ultimately show ?thesis
      using answer_refused(2) [of f5 t'' ?e rest 0 ?fr _ x xs cansend] e en status cmd [unfolded x]
      by (simp add: u17 f6_def)
  qed
  have "upload_step cansend f = map_option (Pair (UploadReturn 1)) (handle_fuota_completion cansend
      (f6\<lparr>using_alternate_path := True, fuotaimagetf_alternate_count := alternate_retry (cntx f6)\<rparr>))"
    using step 1 2 3 ready first(2) by (simp add: after_sub_page_def Let_def f6_def f5_def f4_def)
  moreover have "owner f6 = (owner f)\<lparr>wire := wire (owner f) @ replicate 3 ?fr, clock := t'', inbox := rest\<rparr>"
    using ready by (simp add: f6_def c5_def c4_def numeral_3_eq_3)
  ultimately show ?thesis
    by (intro exI [of _ "f6\<lparr>using_alternate_path := True, fuotaimagetf_alternate_count := alternate_retry (cntx f6)\<rparr>"]) simp
qed

text \<open>A reception that fails during the exchange of a sub-page, and the answer that the page is not the expected
  one, leave the program in undefined behaviour: the number -1 of received bytes becomes a huge unsigned
  number, and the log of the mismatch reads a string at the address 1.\<close>

theorem reception_ends_program:
  assumes u: "uploading H R sector file i f" and i: "i < parts_of_image H sector file" and fit: "sizes_fit H sector file"
    and inbox: "inbox (owner f) = (t, r) # rest" and sends: "send_results (owner f) = []"
    and r: "r = RxError \<or> (\<exists>bs. r = RxData bs \<and> 3 \<le> length bs \<and> length bs \<le> 130 \<and> bs ! 2 = 0x0A \<and> bs ! (length bs - 2) = 0x03
      \<and> take 24 bs \<noteq> image_confirmation H R sector i \<and> 24 \<le> length bs)"
  shows "upload_step cansend f = None"
proof -
  from part_prepared [OF u i fit, of cansend] obtain f3 where
    step: "upload_step cansend f = send_sub_page cansend f3 \<bind> (\<lambda>(sent, h). after_sub_page cansend (last_part H sector i) sent h)"
    and ready: "fuota_imagetf_retry_count f3 = 0" "length (fuota_rbuf f3) = 130" "length (rf_fuota_expected_resp_header f3) = 30"
      "take 24 (rf_fuota_expected_resp_header f3) = image_confirmation H R sector i"
      "memcpy_from (image_tf_command f3) 0 (unat (command_length f3)) = Some (image_frame H sector file i)" "owner f3 = owner f"
    by blast
  let ?c = "(owner f)\<lparr>wire := wire (owner f) @ [image_frame H sector file i]\<rparr>"
  from r show ?thesis
  proof
    assume "r = RxError"
    then have "fst (recv 130 ?c) = RxError" using inbox by (simp add: recv_def)
    then obtain x where "recv 130 ?c = (RxError, x)" by (cases "recv 130 ?c") simp
    then have "send_sub_page cansend f3 = None"
      using ready sends send_all [of "owner f"] by (subst send_sub_page.simps) simp
    then show ?thesis by (simp add: step)
  next
    assume "\<exists>bs. r = RxData bs \<and> 3 \<le> length bs \<and> length bs \<le> 130 \<and> bs ! 2 = 0x0A \<and> bs ! (length bs - 2) = 0x03
      \<and> take 24 bs \<noteq> image_confirmation H R sector i \<and> 24 \<le> length bs"
    then obtain bs where bs: "r = RxData bs" "24 \<le> length bs" "length bs \<le> 130" "bs ! 2 = 0x0A" "bs ! (length bs - 2) = 0x03"
      "take 24 bs \<noteq> image_confirmation H R sector i" by blast
    let ?rbuf = "bs @ drop (length bs) (fuota_rbuf f3)"
    let ?h = "f3\<lparr>owner := ?c\<lparr>clock := t, inbox := rest\<rparr>, fuota_rbuf := ?rbuf, response_length := 0x18\<rparr>"
    have rx: "recv 130 ?c = (RxData bs, bs @ replicate (130 - length bs) 0, ?c\<lparr>clock := t, inbox := rest\<rparr>)"
      using inbox bs by (cases bs) (simp_all add: recv_def)
    have put: "memcpy_to (fuota_rbuf f3) 0 bs = Some ?rbuf" using bs ready by (simp add: memcpy_to_def)
    have "rf_fuota_expected_resp_header f3 ! 1 = 0x17"
      using ready(4) nth_take [of 1 24 "rf_fuota_expected_resp_header f3"]
      by (simp add: image_confirmation_def sub_page_confirmation_def Let_def)
    then have len: "rd (rf_fuota_expected_resp_header f3, 0) 1 = Some 0x17" using ready(3) by simp
    have "length bs - 2 < length bs" "2 < length bs" "length bs \<noteq> 0" using bs by arith+
    then have "rd (?rbuf, 0) 2 = Some 0x0A" "rd (?rbuf, 0) (int (length bs) - 2) = Some 0x03"
      using bs ready(2) by (simp_all add: rd.simps nth_append nat_diff_distrib)
    moreover obtain v where "rd (?rbuf, 0) 23 = Some v" using bs ready(2) by (simp add: rd.simps)
    ultimately have "handle_fuota_post_read (length bs) ?h = None"
      using bs ready \<open>length bs \<noteq> 0\<close> by (simp add: handle_fuota_post_read_def memcpy_from_start eqB_def)
    then have "send_sub_page cansend f3 = None"
      using ready sends send_all [of "owner f"] rx put len by (subst send_sub_page.simps) simp
    then show ?thesis by (simp add: step)
  qed
qed

section \<open>Concrete transfers\<close>

text \<open>A gateway that is its own target, with a file of 300 bytes and sectors of 256: three sub-pages of 103, 103 and
  50 bytes.\<close>

definition example_header :: bytes where
  "example_header = [0x09, 0, 0, 0x54, 0x35, 0xA3, 0x53, 0x54, 0x35, 0, 0, 0xA3, 0x53, 0x54, 0x35]"

definition example_answer_header :: bytes where
  "example_answer_header = [0, 0, 0x54, 0x35, 0xA3, 0x53, 0x54, 0x35, 0xA3, 0x53, 0x54, 0x35]"

definition example_fuota :: "(env \<times> rx) list \<Rightarrow> int \<Rightarrow> fuota" where
  "example_fuota receptions retries = \<lparr>crc = 0, CRC = 0, rf_fuota_crc_calculated = False, rf_fuota_crc_value = 0, crc_tab16 = None,
     fouta_read_fd = Some (replicate 300 7), total_firmwaresize = 300, sector_value = 256,
     owner = example_client\<lparr>inbox := receptions\<rparr>, requests = example_mqtt, request_id = 5, request_hops = 0,
     ondemand_fuota_state = FW_IMAGE_TRANSFER, cntx = new_retry_contex\<lparr>alternate_retry := retries\<rparr>, waiting_for_response = False,
     use_alternate_fuota_route = False, use_alternate_fuotaroute_disable = False, network_silence_state = 0,
     router_path = \<lparr>paths = replicate 128 0, hops = 0\<rparr>, current_fuota_route = \<lparr>paths = replicate 128 1, hops = 0\<rparr>,
     current_fuota_target_mac = replicate 8 0, alternatepaths = [], alternate_network_rows = [],
     client_tx_buffer = [0x2E, 0x15] @ example_header @ replicate 1007 0,
     image_tf_command = [0x2E, 0x18] @ example_header @ [0x2F, 0x06, 0x06, 0x01, 0, 0, 0] @ replicate 104 0,
     rf_fuota_expected_resp_header = [0x2E, 0, 0x0A] @ example_answer_header @ replicate 15 0, temp_expect_buf = replicate 64 0,
     fuota_rbuf = replicate 130 0, file_pos = 0, BASE_HDR_LEN = 17, FUOTA_Cmd_Header_Len = 17, FUOTA_Resp_Header_Len = 15,
     command_length = 0, response_length = 0, page_count = 0, subpage_count = 0, fuota_imagetf_retry_count = 0,
     fuotaimagetf_alternate_count = 0, using_alternate_path = False, firmware_file = [], client_firmware_path = [],
     last_status_map = [], status_log = [], pending_terminal_request_id = 0, pending_terminal_complete = False\<rparr>"

abbreviation example_confirmation :: "nat \<Rightarrow> bytes" where
  "example_confirmation i \<equiv> image_confirmation example_header example_answer_header 256 i"

lemma example_headers:
  "length example_header = 15" "length example_answer_header = 12"
  "header_of (example_fuota rs n) = example_header" "answer_header_of (example_fuota rs n) = example_answer_header"
  by (simp_all add: example_header_def example_answer_header_def example_fuota_def header_of_def answer_header_of_def)

lemma example_ready:
  "buffers (example_fuota rs n)" "fouta_read_fd (example_fuota rs n) = Some (replicate 300 7)"
  "sector_value (example_fuota rs n) = word_of_nat 256" "total_firmwaresize (example_fuota rs n) = word_of_nat (length (replicate 300 (7 :: u8)))"
  "ondemand_fuota_state (example_fuota rs n) = FW_IMAGE_TRANSFER" "owner (example_fuota rs n) = example_client\<lparr>inbox := rs\<rparr>"
  "cntx (example_fuota rs n) = new_retry_contex\<lparr>alternate_retry := n\<rparr>"
  by (simp_all add: example_fuota_def buffers_def example_headers)

lemma example_sizes:
  "sizes_fit example_header 256 (replicate 300 7)" "parts_of_image example_header 256 (replicate 300 7) = 3"
  by (simp_all add: sizes_fit_def payload_size_def example_headers parts_of_image_def sub_pages_def)

lemma example_uploading: "uploading example_header example_answer_header 256 (replicate 300 7) 0 (example_fuota rs n)"
proof -
  have "templates example_header example_answer_header (example_fuota rs n)"
    unfolding templates_def by (simp add: example_headers) (simp add: example_fuota_def example_headers)
  then show ?thesis by (simp add: uploading_def example_ready part_place_def) (simp add: example_fuota_def)
qed

theorem image_delivered_witness:
  "\<exists>g. fuota_uploading_process (\<lambda>f. Some (1, f)) (example_fuota (map (\<lambda>i. (example_env, RxData (example_confirmation i))) [0..<3]) 0)
      = prepare_and_get_the_endof_image_transfer g
    \<and> wire (owner g) = map (image_frame example_header 256 (replicate 300 7)) [0..<3]"
proof -
  let ?f = "example_fuota (map (\<lambda>i. (example_env, RxData (example_confirmation i))) [0..<3]) 0"
  have "confirms example_header example_answer_header 256 3 0 (owner ?f) (cntx ?f)"
    by (simp add: confirms_def example_ready example_client_def)
  then show ?thesis
    using image_delivered [OF example_ready(1-4), unfolded example_headers(3,4) example_sizes(2), OF example_sizes(1) _ example_ready(5),
      of "map (\<lambda>i. (example_env, RxData (example_confirmation i))) [0..<3]" 0 "\<lambda>f. Some (1, f)"]
    by (fastforce simp: example_ready example_client_def)
qed

theorem unconfirmed_transfer_completes_witness:
  "\<exists>g. fuota_uploading_process (\<lambda>f. Some (1, f)) (example_fuota [] 3) = prepare_and_get_the_endof_image_transfer g
    \<and> wire (owner g) = concat (map (\<lambda>i. replicate 3 (image_frame example_header 256 (replicate 300 7) i)) [0..<3])"
  using unconfirmed_transfer_completes [OF example_ready(1-4), unfolded example_headers(3,4) example_sizes(2), OF example_sizes(1),
      of "[]" 3 "\<lambda>f. Some (1, f)"]
  by (fastforce simp: example_ready example_client_def)

theorem busy_answer_aborts_witness:
  "\<exists>g. upload_step (\<lambda>f. Some (1, f)) (example_fuota [(example_env, RxData [0x2E, 0x05, 0x09, 0, 0, 0x06]),
        (example_env, RxData (example_confirmation 0)), (example_env, RxData (example_confirmation 0))] 0)
      = map_option (Pair (UploadReturn 1)) (handle_fuota_completion (\<lambda>f. Some (1, f)) g)
    \<and> wire (owner g) = replicate 3 (image_frame example_header 256 (replicate 300 7) 0) \<and> inbox (owner g) = []"
proof -
  let ?f = "example_fuota [(example_env, RxData [0x2E, 0x05, 0x09, 0, 0, 0x06]),
        (example_env, RxData (example_confirmation 0)), (example_env, RxData (example_confirmation 0))] 0"
  have f: "inbox (owner ?f) = (example_env, RxData [0x2E, 0x05, 0x09, 0, 0, 0x06]) # (example_env, RxData (example_confirmation 0))
      # (example_env, RxData (example_confirmation 0)) # []" "send_results (owner ?f) = []" "wire (owner ?f) = []"
    "temp_expect_buf ?f = replicate 64 0" "length (client_tx_buffer ?f) = 1024" "client_tx_buffer ?f ! 12 = 0" "\<not> using_alternate_path ?f"
    "alternate_retry (cntx ?f) < 2"
    by (simp_all add: example_fuota_def example_client_def example_header_def new_retry_contex_def)
  have "0 < parts_of_image example_header 256 (replicate 300 7)" by (simp add: example_sizes)
  from busy_answer_aborts [OF example_uploading this example_sizes(1) f(1,2) _ _ _ f(4-8), of "\<lambda>f. Some (1, f)"] show ?thesis
    by (simp add: f(3))
qed

theorem reception_ends_program_witness:
  "upload_step (\<lambda>f. Some (1, f)) (example_fuota [(example_env, RxError)] 0) = None
    \<and> upload_step (\<lambda>f. Some (1, f)) (example_fuota [(example_env, RxData ((example_confirmation 0)[22 := 0x03]))] 0) = None"
proof -
  have "0 < parts_of_image example_header 256 (replicate 300 7)" by (simp add: example_sizes)
  note ends = reception_ends_program [OF example_uploading this example_sizes(1), of _ _ example_env _ "[]" "\<lambda>f. Some (1, f)"]
  have c: "example_confirmation 0 = [0x2E, 0x17, 0x0A] @ example_answer_header @ [0x2D, 8, 7, 1, 0, 0, 0, 1, 0x3E]"
    by code_simp
  have "take 24 ((example_confirmation 0)[22 := 0x03]) \<noteq> example_confirmation 0"
    unfolding c by (simp add: example_answer_header_def)
  moreover have "length (example_confirmation 0) = 24" "example_confirmation 0 ! 2 = 0x0A" by (simp_all add: c example_headers)
  ultimately show ?thesis
    using ends by (simp add: example_ready example_client_def)
qed

lemma example_ids: "extract_ids (gateway_id example_client) = Some ([0, 0, 0x54, 0x35], [0xA3, 0x53, 0x54, 0x35])"
  by code_simp

theorem target_command_framed_witness:
  "\<exists>g. frame_pmesh_fuota_cmd_header_for_target_node 0x09 lastsector_page_read (example_fuota [] 0) = Some (0, g)
    \<and> take 22 (client_tx_buffer g) = [0x2E, 21, 0x09, 0, 0, 0x54, 0x35, 0xA3, 0x53, 0x54, 0x35, 0, 0, 0xA3, 0x53, 0x54, 0x35,
        0x2F, 0x04, 0x0C, 0x01, 0x40]"
proof -
  let ?f = "example_fuota [] 0"
  have f: "extract_ids (gateway_id (owner ?f)) = Some ([0, 0, 0x54, 0x35], [0xA3, 0x53, 0x54, 0x35])"
    "length (client_tx_buffer ?f) = 1024" "request_hops ?f = int 0" "length (paths (current_fuota_route ?f)) = 128"
    using example_ids by (simp_all add: example_fuota_def example_headers)
  from target_command_framed [OF f(1-3) _ f(4), of lastsector_page_read "0x09"] show ?thesis by fastforce
qed

theorem second_hop_overwritten_witness:
  "\<exists>g. frame_pmesh_fuota_cmd_header_for_target_node 0x09 fuota_flash_exit ((example_fuota [] 0)\<lparr>request_hops := 2\<rparr>) = Some (0, g)
    \<and> take 23 (client_tx_buffer g) = [0x2E, 22, 0x09, 0, 0, 0x54, 0x35, 0xA3, 0x53, 0x54, 0x35, 0, 2, 1, 1, 1, 1, 0, 1, 1, 1, 0, 0]"
proof -
  let ?f = "(example_fuota [] 0)\<lparr>request_hops := 2\<rparr>"
  have f: "extract_ids (gateway_id (owner ?f)) = Some ([0, 0, 0x54, 0x35], [0xA3, 0x53, 0x54, 0x35])"
    "length (client_tx_buffer ?f) = 1024" "request_hops ?f = int 2" "length (paths (current_fuota_route ?f)) = 128"
    "paths (current_fuota_route ?f) = replicate 128 1" "drop 21 (client_tx_buffer ?f) = replicate 1003 0"
    using example_ids by (simp_all add: example_fuota_def example_headers example_header_def)
  from second_hop_overwritten [OF f(1-3) _ _ f(4), of fuota_flash_exit "0x09"]
  have framed: "\<exists>g. frame_pmesh_fuota_cmd_header_for_target_node 0x09 fuota_flash_exit ?f = Some (0, g)
    \<and> take 23 (client_tx_buffer g) = [0x2E, 22, 0x09, 0, 0, 0x54, 0x35, 0xA3, 0x53, 0x54, 0x35, 0, 2]
        @ take 4 (paths (current_fuota_route ?f)) @ fuota_flash_exit @ drop 6 (take 8 (paths (current_fuota_route ?f)))
        @ take (Suc (Suc 0)) (drop 21 (client_tx_buffer ?f))" by simp
  have "take 4 (replicate 128 1) = [1, 1, 1, 1 :: u8]" "drop 6 (take 8 (replicate 128 1)) = [1, 1 :: u8]"
    "take (Suc (Suc 0)) (replicate 1003 0) = [0, 0 :: u8]" by (simp_all add: numeral_eq_Suc)
  with framed show ?thesis unfolding f(5,6) by simp
qed

end
