(* ===== verification/Odm_Readers.thy ===== *)
theory Odm_Readers
  imports Receive
begin

text \<open>
  The readers of the answers to on-demand requests (\<open>HES/src/client.cpp\<close>): \<open>log_dlms_data_type\<close> and
  \<open>extract_dlms_value\<close> for one record, the five profile parsers with the loop they share, the parser of
  events, and \<open>handle_single_obis_read\<close>.  A parser fills columns: for each data index the values in
  the order in which they came.  The lemmas show that no page makes a parser read further than 514
  bytes from its start, that pages of well-formed records are read back completely, and what a
  record without a value does to the rest of its page.
\<close>

section \<open>State\<close>

text \<open>The columns of a profile are a \<open>std::unordered_map\<close> of vectors; a missing entry is created empty by
  \<open>operator[]\<close>.\<close>

type_synonym columns = "u8 \<Rightarrow> dlms_value list"

definition no_columns :: columns where
  "no_columns = (\<lambda>k. [])"

definition push_value :: "u8 \<Rightarrow> dlms_value \<Rightarrow> columns \<Rightarrow> columns" where
  "push_value k v c = c(k := c k @ [v])"

text \<open>\<open>ODM_SingleObisData\<close>.\<close>

record single_obis =
  rtc_timestamp :: "u32 list"
  rtc_formatted :: cstr
  period_seconds :: "u16 list"
  load_limit :: "u16 list"
  load_status :: "u8 list"
  load_status_str :: cstr
  scheduler_timestamp :: "u32 list"
  scheduler_formatted :: cstr
  obis_command :: "u8 list"
  obis_sub_command :: "u8 list"

definition new_single_obis :: single_obis where
  "new_single_obis = \<lparr>rtc_timestamp = [], rtc_formatted = [], period_seconds = [], load_limit = [], load_status = [],
     load_status_str = [], scheduler_timestamp = [], scheduler_formatted = [], obis_command = [], obis_sub_command = []\<rparr>"

text \<open>The members of \<open>ODMProfiles\<close> that readers fill.  The profiles of the seven kinds of events are one
  function of the event type (1 voltage, 2 current, 3 power, 4 transactional, 5 other, 6 non-rollover,
  7 control); \<open>event_data\<close> is the summary of all kinds.  \<open>written_tail\<close> is \<open>pp_write_payload_tail\<close>, the value
  of the last write command, and \<open>pp_command\<close> the command of \<open>DB_parameter\<close>.\<close>

record odm_profiles =
  name_plate :: columns
  ip_profile :: columns
  dlp_profile :: columns
  blp_profile :: columns
  bh_profile :: columns
  event_profiles :: "u8 \<Rightarrow> columns"
  event_data :: "u8 \<rightharpoonup> dlms_value list"
  singleObisData :: single_obis
  written_tail :: u32
  pp_command :: u8

definition no_profiles :: odm_profiles where
  "no_profiles = \<lparr>name_plate = no_columns, ip_profile = no_columns, dlp_profile = no_columns, blp_profile = no_columns,
     bh_profile = no_columns, event_profiles = (\<lambda>t. no_columns), event_data = Map.empty,
     singleObisData = new_single_obis, written_tail = 0, pp_command = 0\<rparr>"

section \<open>Times as text\<close>

fun dec :: "nat \<Rightarrow> cstr" where
  "dec n = (if n < 10 then [hexdig n] else dec (n div 10) @ [hexdig (n mod 10)])"

declare dec.simps [simp del]

text \<open>\<open>%0wu\<close>\<close>

definition dec_pad :: "nat \<Rightarrow> nat \<Rightarrow> cstr" where
  "dec_pad w n = (let d = dec n in replicate (w - length d) CHR ''0'' @ d)"

text \<open>A 32-bit time always has a local time, and its text has 19 characters.\<close>

definition format_timestamp :: "env \<Rightarrow> u32 \<Rightarrow> cstr" where
  "format_timestamp e hex_timestamp =
     (let timeinfo = localtime e (uint hex_timestamp)
      in dec (nat (tm_year timeinfo + 1900)) @ ''-'' @ dec_pad 2 (nat (tm_mon timeinfo + 1)) @ ''-'' @ dec_pad 2 (nat (tm_mday timeinfo)) @ '' ''
         @ dec_pad 2 (nat (tm_hour timeinfo)) @ '':'' @ dec_pad 2 (nat (tm_min timeinfo)) @ '':'' @ dec_pad 2 (nat (tm_sec timeinfo)))"

text \<open>The argument is \<open>data()\<close> of a vector of which twelve bytes are read.\<close>

definition parse_dlms_datetime :: "bytes \<Rightarrow> cstr option" where
  "parse_dlms_datetime data =
     (if length data < 12 then None
      else let year = be16 (data ! 0) (data ! 1); month = data ! 2; day = data ! 3; hour = data ! 5; minute = data ! 6;
        year = (if year = 0xFFFF \<or> year = 0 then 2000 else year);
        month = (if month = 0xFF \<or> month = 0 then 1 else month);
        day = (if day = 0xFF \<or> day = 0 then 1 else day);
        hour = (if hour = 0xFF then 0 else hour);
        minute = (if minute = 0xFF then 0 else minute)
      in Some (dec_pad 4 year @ ''-'' @ dec_pad 2 (unat month) @ ''-'' @ dec_pad 2 (unat day) @ '' ''
        @ dec_pad 2 (unat hour) @ '':'' @ dec_pad 2 (unat minute)))"

section \<open>One record\<close>

abbreviation (input) UNKNOWN_DATA_TYPE :: int where "UNKNOWN_DATA_TYPE \<equiv> 0x22"

text \<open>The types of the switch; all others are unknown.\<close>

definition listed_types :: "u8 list" where
  "listed_types = [0x00, 0x01, 0x02, 0x03, 0x04, 0x05, 0x06, 0x09, 0x0A, 0x0C, 0x0D, 0x0F, 0x10, 0x11, 0x12, 0x13, 0x14, 0x15, 0x16,
     0x17, 0x18, 0x19, 0x1A, 0x1B, 0x1C, 0x1D, 0x1E, 0x1F, 0x20, 0x21, 0x80]"

text \<open>The result with \<open>data_offset\<close> and \<open>field_length\<close>, which the callers set to 0 before.\<close>

definition log_dlms_data_type :: "u8 \<Rightarrow> u8 \<Rightarrow> ptr \<Rightarrow> (int \<times> u8 \<times> u8) option" where
  "log_dlms_data_type data_type offset data =
     (if data_type = DLMS_DATA_TYPE_ARRAY then Some (0, 3, 0)
      else if data_type = DLMS_DATA_TYPE_OCTET_STRING \<or> data_type = DLMS_DATA_TYPE_STRING then do {
        len \<leftarrow> rd data (uint offset + 3);
        Some (0, 4, len)
      }
      else if data_type \<in> {DLMS_DATA_TYPE_BOOLEAN, DLMS_DATA_TYPE_INT8, DLMS_DATA_TYPE_UINT8, DLMS_DATA_TYPE_ENUM} then Some (0, 3, 1)
      else if data_type \<in> {DLMS_DATA_TYPE_UINT16, DLMS_DATA_TYPE_INT16} then Some (0, 3, 2)
      else if data_type \<in> {DLMS_DATA_TYPE_UINT64, DLMS_DATA_TYPE_INT64} then Some (0, 3, 8)
      else if data_type \<in> {DLMS_DATA_TYPE_UINT32, DLMS_DATA_TYPE_INT32, DLMS_DATA_TYPE_DATETIME} then Some (0, 3, 4)
      else if data_type \<in> set listed_types then Some (0, 0, 0)
      else Some (UNKNOWN_DATA_TYPE, 0, 0))"

text \<open>The setters of \<open>DLMSValue\<close> write the type with one member of the union, or the octets.\<close>

definition set_member :: "u8 \<Rightarrow> payload \<Rightarrow> dlms_value" where
  "set_member t p = new_value\<lparr>vtype := t, payload := p\<rparr>"

definition setOctetString :: "bytes \<Rightarrow> dlms_value" where
  "setOctetString val = new_value\<lparr>vtype := DLMS_DATA_TYPE_OCTET_STRING, octetString := val\<rparr>"

definition setString :: "bytes \<Rightarrow> dlms_value" where
  "setString val = new_value\<lparr>vtype := DLMS_DATA_TYPE_STRING, octetString := val\<rparr>"

abbreviation (input) SECONDS_5H30M :: u32 where "SECONDS_5H30M \<equiv> 0x4D58"

text \<open>\<open>memcpy\<close> into a \<open>float\<close> or \<open>double\<close> takes the bytes in the order of the host, little-endian.\<close>

definition extract_dlms_value :: "env \<Rightarrow> u8 \<Rightarrow> ptr \<Rightarrow> u8 \<Rightarrow> dlms_value option" where
  "extract_dlms_value e data_type data field_len =
     (if data_type = DLMS_DATA_TYPE_BOOLEAN then
        map_option (\<lambda>b. set_member DLMS_DATA_TYPE_BOOLEAN (BoolValue (b \<noteq> 0))) (rd data 0)
      else if data_type = DLMS_DATA_TYPE_INT8 then map_option (\<lambda>b. set_member DLMS_DATA_TYPE_INT8 (Int8Value b)) (rd data 0)
      else if data_type = DLMS_DATA_TYPE_UINT8 then map_option (\<lambda>b. set_member DLMS_DATA_TYPE_UINT8 (UInt8Value b)) (rd data 0)
      else if data_type = DLMS_DATA_TYPE_INT16 then do {
        bs \<leftarrow> rd_seq data 0 2; w \<leftarrow> dread16 bs 0; Some (set_member DLMS_DATA_TYPE_INT16 (Int16Value w)) }
      else if data_type = DLMS_DATA_TYPE_UINT16 then do {
        bs \<leftarrow> rd_seq data 0 2; w \<leftarrow> dread16 bs 0; Some (set_member DLMS_DATA_TYPE_UINT16 (UInt16Value w)) }
      else if data_type = DLMS_DATA_TYPE_INT32 then do {
        bs \<leftarrow> rd_seq data 0 4; w \<leftarrow> dread32 bs 0; Some (set_member DLMS_DATA_TYPE_INT32 (Int32Value w)) }
      else if data_type = DLMS_DATA_TYPE_UINT32 then do {
        bs \<leftarrow> rd_seq data 0 4; w \<leftarrow> dread32 bs 0; Some (set_member DLMS_DATA_TYPE_UINT32 (UInt32Value w)) }
      else if data_type = DLMS_DATA_TYPE_DATETIME then do {
        bs \<leftarrow> rd_seq data 0 4; raw_ts \<leftarrow> dread32 bs 0;
        Some (setString (map of_char (format_timestamp e (raw_ts - SECONDS_5H30M)))) }
      else if data_type = DLMS_DATA_TYPE_FLOAT32 then do {
        bs \<leftarrow> rd_seq data 0 4; w \<leftarrow> dread32 (rev bs) 0; Some (set_member DLMS_DATA_TYPE_FLOAT32 (Float32Value w)) }
      else if data_type = DLMS_DATA_TYPE_FLOAT64 then do {
        bs \<leftarrow> rd_seq data 0 8; w \<leftarrow> dread64 (rev bs) 0; Some (set_member DLMS_DATA_TYPE_FLOAT64 (Float64Value w)) }
      else if data_type = DLMS_DATA_TYPE_STRING then map_option setString (rd_seq data 0 (unat field_len))
      else map_option setOctetString (rd_seq data 0 (unat field_len)))"

section \<open>The loop over the records of a page\<close>

text \<open>\<open>offset\<close> is a \<open>uint8_t\<close>, and so is its sum with the size of a record.  The record is a data index, a
  status that is only logged, and a type.\<close>

fun read_records :: "env \<Rightarrow> ptr \<Rightarrow> nat \<Rightarrow> nat \<Rightarrow> u8 \<Rightarrow> columns \<Rightarrow> columns option" where
  "read_records e data len 0 offset c = Some c"
| "read_records e data len (Suc n) offset c =
     (if len \<le> unat offset then Some c
      else do {
        data_index \<leftarrow> rd data (uint offset);
        dlms_status \<leftarrow> rd data (uint offset + 1);
        dlms_data_type \<leftarrow> rd data (uint offset + 2);
        (r, data_off, field_len) \<leftarrow> log_dlms_data_type dlms_data_type offset data;
        value \<leftarrow> extract_dlms_value e dlms_data_type (padd data (uint offset + uint data_off)) field_len;
        let c = (if dlms_data_type \<noteq> DLMS_DATA_TYPE_NONE then push_value data_index value c else c);
        read_records e data len n (offset + (data_off + field_len)) c
      })"

definition read_page :: "env \<Rightarrow> ptr \<Rightarrow> nat \<Rightarrow> columns \<Rightarrow> columns option" where
  "read_page e data len c = do {
     total_records \<leftarrow> rd data 8;
     read_records e data len (unat total_records) 9 c
   }"

definition parse_nameplate_profile :: "env \<Rightarrow> ptr \<Rightarrow> nat \<Rightarrow> odm_profiles \<Rightarrow> odm_profiles option" where
  "parse_nameplate_profile e data len s = map_option (\<lambda>c. s\<lparr>name_plate := c\<rparr>) (read_page e data len (name_plate s))"

definition parse_instantaneous_profile :: "env \<Rightarrow> ptr \<Rightarrow> nat \<Rightarrow> odm_profiles \<Rightarrow> odm_profiles option" where
  "parse_instantaneous_profile e data len s = map_option (\<lambda>c. s\<lparr>ip_profile := c\<rparr>) (read_page e data len (ip_profile s))"

definition parse_daily_load_profile :: "env \<Rightarrow> ptr \<Rightarrow> nat \<Rightarrow> odm_profiles \<Rightarrow> odm_profiles option" where
  "parse_daily_load_profile e data len s = map_option (\<lambda>c. s\<lparr>dlp_profile := c\<rparr>) (read_page e data len (dlp_profile s))"

definition parse_block_load_profile :: "env \<Rightarrow> ptr \<Rightarrow> nat \<Rightarrow> odm_profiles \<Rightarrow> odm_profiles option" where
  "parse_block_load_profile e data len s = map_option (\<lambda>c. s\<lparr>blp_profile := c\<rparr>) (read_page e data len (blp_profile s))"

definition parse_billing_history_profile :: "env \<Rightarrow> ptr \<Rightarrow> nat \<Rightarrow> odm_profiles \<Rightarrow> odm_profiles option" where
  "parse_billing_history_profile e data len s = map_option (\<lambda>c. s\<lparr>bh_profile := c\<rparr>) (read_page e data len (bh_profile s))"

section \<open>Events\<close>

text \<open>The summary of one kind of events: sixteen bytes, of which the first is its index.  The position is
  a \<open>uint8_t\<close> as well.\<close>

definition event_summary :: "ptr \<Rightarrow> nat \<Rightarrow> (u8 \<times> dlms_value list) option" where
  "event_summary data i = do {
     let base = (word_of_nat (9 + i * 16) :: u8);
     bs \<leftarrow> rd_seq data (uint base) 16;
     no_of_records \<leftarrow> dread16 bs 1;
     capture_period \<leftarrow> dread32 bs 3;
     current_entries \<leftarrow> dread32 bs 8;
     max_records \<leftarrow> dread32 bs 12;
     Some (bs ! 0, [set_member DLMS_DATA_TYPE_UINT8 (UInt8Value (bs ! 0)), set_member DLMS_DATA_TYPE_UINT16 (UInt16Value no_of_records),
       set_member DLMS_DATA_TYPE_UINT32 (UInt32Value capture_period), set_member DLMS_DATA_TYPE_UINT8 (UInt8Value (bs ! 7)),
       set_member DLMS_DATA_TYPE_UINT32 (UInt32Value current_entries), set_member DLMS_DATA_TYPE_UINT32 (UInt32Value max_records)])
   }"

abbreviation (input) EVENT_ALL :: u8 where "EVENT_ALL \<equiv> 0x00"

definition set_event :: "u8 \<Rightarrow> columns \<Rightarrow> odm_profiles \<Rightarrow> odm_profiles" where
  "set_event event_type c s = s\<lparr>event_profiles := (event_profiles s)(event_type := c)\<rparr>"

text \<open>The body of the switch: summaries for \<open>EVENT_ALL\<close>, a value for the event types 1 to 7, nothing
  otherwise.\<close>

definition read_event :: "env \<Rightarrow> ptr \<Rightarrow> u8 \<Rightarrow> nat \<Rightarrow> u8 \<Rightarrow> u8 \<Rightarrow> u8 \<Rightarrow> u8 \<Rightarrow> u8 \<Rightarrow> odm_profiles \<Rightarrow> odm_profiles option" where
  "read_event e data event_type i offset data_index dlms_data_type data_off field_len s =
     (if event_type = EVENT_ALL then do {
        (event_index, summary) \<leftarrow> event_summary data i;
        Some (s\<lparr>event_data := (event_data s)(event_index \<mapsto> summary)\<rparr>)
      }
      else if event_type \<le> 7 then do {
        value \<leftarrow> extract_dlms_value e dlms_data_type (padd data (uint offset + uint data_off)) field_len;
        Some (if dlms_data_type \<noteq> DLMS_DATA_TYPE_NONE
          then set_event event_type (push_value data_index value (event_profiles s event_type)) s
          else s)
      }
      else Some s)"

fun read_events :: "env \<Rightarrow> ptr \<Rightarrow> nat \<Rightarrow> u8 \<Rightarrow> nat \<Rightarrow> nat \<Rightarrow> u8 \<Rightarrow> odm_profiles \<Rightarrow> odm_profiles option" where
  "read_events e data len event_type 0 i offset s = Some s"
| "read_events e data len event_type (Suc n) i offset s =
     (if len \<le> unat offset then Some s
      else do {
        data_index \<leftarrow> rd data (uint offset);
        dlms_status \<leftarrow> rd data (uint offset + 1);
        dlms_data_type \<leftarrow> rd data (uint offset + 2);
        (r, data_off, field_len) \<leftarrow> log_dlms_data_type dlms_data_type offset data;
        s \<leftarrow> read_event e data event_type i offset data_index dlms_data_type data_off field_len s;
        read_events e data len event_type n (Suc i) (offset + (data_off + field_len)) s
      })"

definition parse_Events_profile :: "env \<Rightarrow> ptr \<Rightarrow> nat \<Rightarrow> odm_profiles \<Rightarrow> odm_profiles option" where
  "parse_Events_profile e data len s = do {
     record_count \<leftarrow> rd data 8;
     event_type \<leftarrow> rd data 6;
     read_events e data len event_type (unat record_count) 0 9 s
   }"

section \<open>Single objects\<close>

text \<open>\<open>response->data[k]\<close> is the byte \<open>17 + k\<close> of the packet.\<close>

definition rd_data32 :: "ptr \<Rightarrow> int \<Rightarrow> u32 option" where
  "rd_data32 response k = do { bs \<leftarrow> rd_seq response (17 + k) 4; dread32 bs 0 }"

definition rd_data16 :: "ptr \<Rightarrow> int \<Rightarrow> u16 option" where
  "rd_data16 response k = do { bs \<leftarrow> rd_seq response (17 + k) 2; dread16 bs 0 }"

definition obis_rtc :: "env \<Rightarrow> ptr \<Rightarrow> u8 \<Rightarrow> odm_profiles \<Rightarrow> (int \<times> odm_profiles) option" where
  "obis_rtc e response command s = do {
     status \<leftarrow> rd response (17 + 10);
     data_type \<leftarrow> rd response (17 + 11);
     if command = 0x00 then
       (if data_type = 0x19 \<and> status = 0x00 then do {
          raw \<leftarrow> rd_data32 response 12;
          let timestamp = raw + 0x386CF628;
          let d = singleObisData s;
          Some (SUCCESS, s\<lparr>singleObisData := d\<lparr>rtc_timestamp := rtc_timestamp d @ [timestamp], rtc_formatted := format_timestamp e timestamp\<rparr>\<rparr>)
        }
        else Some (INVALID_RESPONSE, s))
     else do {
       written \<leftarrow> rd response (17 + 7);
       if written = 0x00 then do {
         let timestamp = written_tail s + 0x386CF628;
         let d = singleObisData s;
         Some (SUCCESS, s\<lparr>written_tail := timestamp,
           singleObisData := d\<lparr>rtc_timestamp := rtc_timestamp d @ [timestamp], rtc_formatted := format_timestamp e timestamp\<rparr>\<rparr>)
       }
       else Some (INVALID_RESPONSE, s)
     }
   }"

text \<open>A read period is a 32-bit value of which the lower two bytes are taken, a written one the lower half
  of what was sent.\<close>

definition obis_period :: "ptr \<Rightarrow> u8 \<Rightarrow> odm_profiles \<Rightarrow> (int \<times> odm_profiles) option" where
  "obis_period response command s = do {
     status \<leftarrow> rd response (17 + 10);
     data_type \<leftarrow> rd response (17 + 11);
     let d = singleObisData s;
     if command = 0x00 then
       (if data_type = 0x06 \<and> status = 0x00 then do {
          period \<leftarrow> rd_data16 response 14;
          Some (SUCCESS, s\<lparr>singleObisData := d\<lparr>period_seconds := period_seconds d @ [period]\<rparr>\<rparr>)
        }
        else Some (INVALID_RESPONSE, s))
     else do {
       written \<leftarrow> rd response (17 + 7);
       Some (if written = 0x00
         then (SUCCESS, s\<lparr>singleObisData := d\<lparr>period_seconds := period_seconds d @ [ucast (written_tail s)]\<rparr>\<rparr>)
         else (INVALID_RESPONSE, s))
     }
   }"

definition obis_load_limit :: "ptr \<Rightarrow> u8 \<Rightarrow> odm_profiles \<Rightarrow> (int \<times> odm_profiles) option" where
  "obis_load_limit response command s = do {
     data_index \<leftarrow> rd response (17 + 9);
     let d = singleObisData s;
     if command = 0x00 then
       (if data_index = 0x04 then do {
          lim \<leftarrow> rd_data16 response 14;
          Some (SUCCESS, s\<lparr>singleObisData := d\<lparr>load_limit := load_limit d @ [lim]\<rparr>\<rparr>)
        }
        else Some (INVALID_RESPONSE, s))
     else do {
       written \<leftarrow> rd response (17 + 7);
       Some (if written = 0x00
         then (SUCCESS, s\<lparr>singleObisData := d\<lparr>load_limit := load_limit d @ [ucast (written_tail s)]\<rparr>\<rparr>)
         else (INVALID_RESPONSE, s))
     }
   }"

definition obis_load_status :: "ptr \<Rightarrow> u8 \<Rightarrow> odm_profiles \<Rightarrow> (int \<times> odm_profiles) option" where
  "obis_load_status response command s =
     (if command = 0x01 then do {
        written \<leftarrow> rd response (17 + 7);
        let d = singleObisData s;
        Some (SUCCESS, s\<lparr>singleObisData := d\<lparr>load_status := load_status d @ [written]\<rparr>\<rparr>)
      }
      else do {
        status \<leftarrow> rd response (17 + 11);
        let d = singleObisData s;
        Some (SUCCESS, s\<lparr>singleObisData := d\<lparr>load_status := load_status d @ [status],
          load_status_str := (if status = 1 then ''CONNECTED'' else ''DISCONNECTED'')\<rparr>\<rparr>)
      })"

text \<open>An answer of any other structure is accepted without being stored.\<close>

definition obis_schedule :: "env \<Rightarrow> ptr \<Rightarrow> odm_profiles \<Rightarrow> (int \<times> odm_profiles) option" where
  "obis_schedule e response s = do {
     status \<leftarrow> rd response (17 + 10);
     data_type \<leftarrow> rd response (17 + 11);
     no_of_elements \<leftarrow> rd response (17 + 12);
     if data_type = 0x01 \<and> no_of_elements = 0x01 \<and> status = 0x00 then do {
       elem_data_type \<leftarrow> rd response (17 + 13);
       if elem_data_type = 0x1B then do {
         scheduler_time \<leftarrow> rd_data32 response 14;
         let d = singleObisData s;
         Some (SUCCESS, s\<lparr>singleObisData := d\<lparr>scheduler_timestamp := scheduler_timestamp d @ [scheduler_time],
           scheduler_formatted := format_timestamp e scheduler_time\<rparr>\<rparr>)
       }
       else Some (SUCCESS, s)
     }
     else Some (SUCCESS, s)
   }"

abbreviation (input) SINGLE_OBIS_RTC :: u8 where "SINGLE_OBIS_RTC \<equiv> 0x02"
abbreviation (input) SINGLE_OBIS_INTEGRATION_OR_CAPTURE_PERIOD :: u8 where "SINGLE_OBIS_INTEGRATION_OR_CAPTURE_PERIOD \<equiv> 0x01"
abbreviation (input) SINGLE_OBIS_LOAD_LIMIT :: u8 where "SINGLE_OBIS_LOAD_LIMIT \<equiv> 0x08"
abbreviation (input) SINGLE_OBIS_LOAD_STATUS :: u8 where "SINGLE_OBIS_LOAD_STATUS \<equiv> 0x09"
abbreviation (input) SINGLE_OBIS_ACTION_SCHEDULE :: u8 where "SINGLE_OBIS_ACTION_SCHEDULE \<equiv> 0x07"

text \<open>The member function; \<open>dlms_len\<close> is only used for the log.\<close>

definition read_single_obis :: "env \<Rightarrow> ptr \<Rightarrow> odm_profiles \<Rightarrow> (int \<times> odm_profiles) option" where
  "read_single_obis e response s = do {
     command \<leftarrow> rd response (17 + 5);
     sub_command \<leftarrow> rd response (17 + 6);
     let d = singleObisData s;
     let s = s\<lparr>singleObisData := d\<lparr>obis_command := obis_command d @ [command], obis_sub_command := obis_sub_command d @ [sub_command]\<rparr>\<rparr>;
     if command \<noteq> 0x00 \<and> command \<noteq> 0x01 then Some (INVALID_RESPONSE, s)
     else do {
       let s = s\<lparr>pp_command := (if command = 0x00 then 0 else 1)\<rparr>;
       if sub_command = SINGLE_OBIS_RTC then obis_rtc e response command s
       else if sub_command = SINGLE_OBIS_INTEGRATION_OR_CAPTURE_PERIOD then obis_period response command s
       else if sub_command = SINGLE_OBIS_LOAD_LIMIT then obis_load_limit response command s
       else if sub_command = SINGLE_OBIS_LOAD_STATUS then obis_load_status response command s
       else if sub_command = SINGLE_OBIS_ACTION_SCHEDULE then obis_schedule e response s
       else Some (INVALID_RESPONSE, s)
     }
   }"

section \<open>The calls a reception makes\<close>

text \<open>\<open>Receive\<close> logs the calls of the readers; here they are carried out.  The scalar profiles, which other
  members hold, are not modelled.\<close>

definition perform :: "env \<Rightarrow> odm_call \<Rightarrow> odm_profiles \<Rightarrow> odm_profiles option" where
  "perform e call s = (case call of
       ParseProfile command data len \<Rightarrow>
         (if command = 0x00 then parse_nameplate_profile e data len s
          else if command = 0x01 then parse_instantaneous_profile e data len s
          else if command = 0x03 then parse_daily_load_profile e data len s
          else if command = 0x04 then parse_block_load_profile e data len s
          else if command = 0x02 then parse_billing_history_profile e data len s
          else parse_Events_profile e data len s)
     | ParseScalarProfile command data \<Rightarrow> Some s
     | SingleObisRead response len \<Rightarrow> map_option snd (read_single_obis e response s))"

section \<open>No page is read beyond 514 bytes\<close>

lemma rd_seq_padd [simp]: "rd_seq (padd p b) k n = rd_seq p (b + k) n"
  by (induction n arbitrary: k) (simp_all add: algebra_simps)

lemma u8_bounds: "0 \<le> uint (w :: u8)" "uint (w :: u8) \<le> 255" "unat (w :: u8) \<le> 255"
  using unsigned_less [of w, where ?'a = int] unsigned_less [of w, where ?'a = nat] by simp_all

lemma log_dlms_data_type_total:
  assumes "spans p 514"
  obtains r data_off field_len where "log_dlms_data_type t offset p = Some (r, data_off, field_len)" "uint data_off \<le> 4"
proof -
  have "rd p (uint offset + 3) = Some (byte p (uint offset + 3))"
    using assms u8_bounds [of offset] by (intro rd_spans) auto
  then have "\<exists>r data_off field_len. log_dlms_data_type t offset p = Some (r, data_off, field_len) \<and> uint data_off \<le> 4"
    by (simp add: log_dlms_data_type_def)
  then show ?thesis using that by blast
qed

lemma extract_dlms_value_total:
  assumes "spans p n" "0 \<le> k" "k + 8 \<le> n" "k + uint l \<le> n"
  shows "\<exists>v. extract_dlms_value e t (padd p k) l = Some v"
proof -
  have r: "\<exists>bs. rd_seq p k j = Some bs \<and> length bs = j" if "k + int j \<le> n" for j
    using rd_seq_spans [OF assms(1,2) that] rd_seq_length by blast
  obtain b2 b4 b8 bl where
      "rd_seq p k 2 = Some b2" "length b2 = 2" "rd_seq p k 4 = Some b4" "length b4 = 4"
      "rd_seq p k 8 = Some b8" "length b8 = 8" "rd_seq p k (unat l) = Some bl"
    using r [of 2] r [of 4] r [of 8] r [of "unat l"] assms(3,4) by auto
  moreover have "rd p k = Some (byte p k)" using assms(1-3) by (intro rd_spans) auto
  ultimately show ?thesis
    by (auto simp: extract_dlms_value_def dread16_def dread32_def dread64_def dread_def)
qed

lemma rd_record:
  assumes "spans p 514"
  shows "rd p (uint (offset :: u8)) = Some (byte p (uint offset))" "rd p (uint offset + 1) = Some (byte p (uint offset + 1))"
    "rd p (uint offset + 2) = Some (byte p (uint offset + 2))"
  using assms u8_bounds [of offset] by (auto intro!: rd_spans)

lemma extract_in_page:
  assumes "spans p 514" and "uint data_off \<le> 4"
  shows "\<exists>v. extract_dlms_value e t (padd p (uint (offset :: u8) + uint (data_off :: u8))) l = Some v"
  using assms u8_bounds [of offset] u8_bounds [of data_off] u8_bounds [of l]
  by (intro extract_dlms_value_total [OF assms(1)]) auto

lemma read_records_total: "spans p 514 \<Longrightarrow> \<exists>c'. read_records e p len n offset c = Some c'"
proof (induction n arbitrary: offset c)
  case (Suc n)
  obtain r data_off field_len where
    l: "log_dlms_data_type (byte p (uint offset + 2)) offset p = Some (r, data_off, field_len)" "uint data_off \<le> 4"
    using log_dlms_data_type_total [OF Suc.prems] by blast
  obtain v where "extract_dlms_value e (byte p (uint offset + 2)) (padd p (uint offset + uint data_off)) field_len = Some v"
    using extract_in_page [OF Suc.prems l(2)] by blast
  with l(1) Suc show ?case by (simp add: rd_record [OF Suc.prems] Let_def)
qed simp

lemma read_page_total:
  assumes "spans p 514"
  shows "\<exists>c'. read_page e p len c = Some c'"
  using read_records_total [OF assms] rd_spans [OF assms, of 8] by (simp add: read_page_def)

lemma event_summary_total:
  assumes "spans p 514"
  shows "\<exists>k v. event_summary p i = Some (k, v)"
proof -
  obtain bs where "rd_seq p (uint (word_of_nat (9 + i * 16) :: u8)) 16 = Some bs" "length bs = 16"
    using rd_seq_spans [OF assms, of "uint (word_of_nat (9 + i * 16) :: u8)" 16] u8_bounds [of "word_of_nat (9 + i * 16)"]
      rd_seq_length by fastforce
  then show ?thesis
    by (simp add: event_summary_def dread16_def dread32_def dread_def Let_def)
qed

lemma read_event_total:
  assumes "spans p 514" and "uint data_off \<le> 4"
  shows "\<exists>s'. read_event e p event_type i offset k t data_off field_len s = Some s'"
proof -
  obtain v where "extract_dlms_value e t (padd p (uint offset + uint data_off)) field_len = Some v"
    using extract_in_page [OF assms] by blast
  moreover obtain k' v' where "event_summary p i = Some (k', v')" using event_summary_total [OF assms(1)] by blast
  ultimately show ?thesis by (simp add: read_event_def)
qed

lemma read_events_total: "spans p 514 \<Longrightarrow> \<exists>s'. read_events e p len event_type n i offset s = Some s'"
proof (induction n arbitrary: i offset s)
  case (Suc n)
  obtain r data_off field_len where
    l: "log_dlms_data_type (byte p (uint offset + 2)) offset p = Some (r, data_off, field_len)" "uint data_off \<le> 4"
    using log_dlms_data_type_total [OF Suc.prems] by blast
  obtain s' where "read_event e p event_type i offset (byte p (uint offset)) (byte p (uint offset + 2)) data_off field_len s = Some s'"
    using read_event_total [OF Suc.prems l(2)] by blast
  with l(1) Suc show ?case by (simp add: rd_record [OF Suc.prems])
qed simp

text \<open>Whatever an answer contains, the parser that it selects ends without undefined behaviour when
  514 bytes of the receive buffer follow its start: it may read beyond the answer, but not further.\<close>

lemma profile_readers_bounded:
  assumes "spans data 514"
  shows "\<exists>s'. perform e (ParseProfile command data len) s = Some s'"
proof -
  note page = read_page_total [OF assms]
  obtain n t where "rd data 8 = Some n" "rd data 6 = Some t"
    using rd_spans [OF assms] by simp
  with read_events_total [OF assms] have "\<exists>s'. parse_Events_profile e data len s = Some s'"
    by (simp add: parse_Events_profile_def)
  then show ?thesis
    using page by (simp add: perform_def parse_nameplate_profile_def parse_instantaneous_profile_def parse_daily_load_profile_def
        parse_block_load_profile_def parse_billing_history_profile_def)
qed

section \<open>What a meter sends\<close>

text \<open>The contents of a record, their encoding and the value a parser makes of them: a time becomes its
  local text, five and a half hours earlier, and an enumeration or a 64-bit number its octets.\<close>

datatype meter_field = FBool bool | FInt8 u8 | FUint8 u8 | FInt16 u16 | FUint16 u16 | FInt32 u32 | FUint32 u32
  | FDateTime u32 | FOctets bytes | FText bytes | FEnum u8 | FInt64 u64 | FUint64 u64

fun field_type :: "meter_field \<Rightarrow> u8" where
  "field_type (FBool b) = DLMS_DATA_TYPE_BOOLEAN"
| "field_type (FInt8 w) = DLMS_DATA_TYPE_INT8"
| "field_type (FUint8 w) = DLMS_DATA_TYPE_UINT8"
| "field_type (FInt16 w) = DLMS_DATA_TYPE_INT16"
| "field_type (FUint16 w) = DLMS_DATA_TYPE_UINT16"
| "field_type (FInt32 w) = DLMS_DATA_TYPE_INT32"
| "field_type (FUint32 w) = DLMS_DATA_TYPE_UINT32"
| "field_type (FDateTime w) = DLMS_DATA_TYPE_DATETIME"
| "field_type (FOctets bs) = DLMS_DATA_TYPE_OCTET_STRING"
| "field_type (FText bs) = DLMS_DATA_TYPE_STRING"
| "field_type (FEnum w) = DLMS_DATA_TYPE_ENUM"
| "field_type (FInt64 w) = DLMS_DATA_TYPE_INT64"
| "field_type (FUint64 w) = DLMS_DATA_TYPE_UINT64"

fun field_bytes :: "meter_field \<Rightarrow> bytes" where
  "field_bytes (FBool b) = [if b then 1 else 0]"
| "field_bytes (FInt8 w) = [w]"
| "field_bytes (FUint8 w) = [w]"
| "field_bytes (FInt16 w) = enc16 w"
| "field_bytes (FUint16 w) = enc16 w"
| "field_bytes (FInt32 w) = enc32 w"
| "field_bytes (FUint32 w) = enc32 w"
| "field_bytes (FDateTime w) = enc32 w"
| "field_bytes (FOctets bs) = bs"
| "field_bytes (FText bs) = bs"
| "field_bytes (FEnum w) = [w]"
| "field_bytes (FInt64 w) = enc64 w"
| "field_bytes (FUint64 w) = enc64 w"

definition has_length :: "meter_field \<Rightarrow> bool" where
  "has_length f = (case f of FOctets bs \<Rightarrow> True | FText bs \<Rightarrow> True | _ \<Rightarrow> False)"

fun field_value :: "env \<Rightarrow> meter_field \<Rightarrow> dlms_value" where
  "field_value e (FBool b) = set_member DLMS_DATA_TYPE_BOOLEAN (BoolValue b)"
| "field_value e (FInt8 w) = set_member DLMS_DATA_TYPE_INT8 (Int8Value w)"
| "field_value e (FUint8 w) = set_member DLMS_DATA_TYPE_UINT8 (UInt8Value w)"
| "field_value e (FInt16 w) = set_member DLMS_DATA_TYPE_INT16 (Int16Value w)"
| "field_value e (FUint16 w) = set_member DLMS_DATA_TYPE_UINT16 (UInt16Value w)"
| "field_value e (FInt32 w) = set_member DLMS_DATA_TYPE_INT32 (Int32Value w)"
| "field_value e (FUint32 w) = set_member DLMS_DATA_TYPE_UINT32 (UInt32Value w)"
| "field_value e (FDateTime w) = setString (map of_char (format_timestamp e (w - SECONDS_5H30M)))"
| "field_value e (FOctets bs) = setOctetString bs"
| "field_value e (FText bs) = setString bs"
| "field_value e (FEnum w) = setOctetString [w]"
| "field_value e (FInt64 w) = setOctetString (enc64 w)"
| "field_value e (FUint64 w) = setOctetString (enc64 w)"

text \<open>A record is a data index, a status and a field; the strings carry their length.\<close>

type_synonym meter_record = "u8 \<times> u8 \<times> meter_field"

fun enc_meter_record :: "meter_record \<Rightarrow> bytes" where
  "enc_meter_record (k, st, f) = [k, st, field_type f] @ (if has_length f then [word_of_nat (length (field_bytes f))] else []) @ field_bytes f"

definition enc_meter_records :: "meter_record list \<Rightarrow> bytes" where
  "enc_meter_records rs = concat (map enc_meter_record rs)"

fun add_record :: "env \<Rightarrow> meter_record \<Rightarrow> columns \<Rightarrow> columns" where
  "add_record e (k, st, f) c = push_value k (field_value e f) c"

definition add_records :: "env \<Rightarrow> meter_record list \<Rightarrow> columns \<Rightarrow> columns" where
  "add_records e rs = fold (add_record e) rs"

text \<open>The values of a column are those of the records with its index, in order.\<close>

lemma add_records_column:
  "add_records e rs c k = c k @ map (\<lambda>(k, st, f). field_value e f) (filter (\<lambda>r. fst r = k) rs)"
  by (induction rs arbitrary: c) (auto simp: add_records_def push_value_def split: prod.splits)

lemma add_records_append: "add_records e (rs @ qs) c = add_records e qs (add_records e rs c)"
  by (simp add: add_records_def)

section \<open>Round trip of a page\<close>

lemma rd_shift: "rd (m, b) k = rd (m, 0) (b + k)"
  by (simp add: rd.simps)

lemma rd_seq_shift: "rd_seq (m, b) k n = rd_seq (m, 0) (b + k) n"
  by (induction n arbitrary: k) (simp_all add: rd.simps algebra_simps)

lemma rd_within: "b + k = int (length A + j) \<Longrightarrow> j < length xs \<Longrightarrow> rd (A @ xs @ B, b) k = Some (xs ! j)"
  by (simp only: rd.simps nat_int nth_append) simp

lemma rd_seq_within:
  assumes "b + k = int (length A)"
  shows "rd_seq (A @ xs @ B, b) k (length xs) = Some xs"
  using rd_seq_slice [of A "int (length A)" xs B] assms by (subst rd_seq_shift) simp

lemma rd_seq_field:
  assumes "b + k = int (length A + j)" and "xs = take j xs @ ys @ zs" and "j \<le> length xs"
  shows "rd_seq (A @ xs @ B, b) k (length ys) = Some ys"
proof -
  have "A @ xs @ B = (A @ take j xs) @ ys @ (zs @ B)"
    by (subst assms(2)) simp
  moreover have "b + k = int (length (A @ take j xs))" using assms(1,3) by simp
  ultimately show ?thesis by (metis rd_seq_within)
qed

lemma dread_prefix: "dread16 (enc16 a) 0 = Some a" "dread32 (enc32 b) 0 = Some b"
  using dread_enc16 [of "[]" a "[]"] dread_enc32 [of "[]" b "[]"] by simp_all

text \<open>The first byte behind the header of a record, and the record itself.\<close>

lemma record_extracted:
  assumes "rd_seq p 0 (length (field_bytes f)) = Some (field_bytes f)" and "l = word_of_nat (length (field_bytes f))"
    and "length (field_bytes f) < 256" and "0 < length (field_bytes f) \<Longrightarrow> rd p 0 = Some (field_bytes f ! 0)"
  shows "extract_dlms_value e (field_type f) p l = Some (field_value e f)"
proof -
  have "unat l = length (field_bytes f)" using assms(2,3) by (simp add: unat_of_nat)
  with assms show ?thesis
    by (cases f) (simp_all add: extract_dlms_value_def dread_prefix)
qed

lemma field_length: "\<not> has_length f \<Longrightarrow> 0 < length (field_bytes f) \<and> length (field_bytes f) < 256"
  by (cases f) (simp_all add: has_length_def)

lemma length_enc_meter_record:
  "length (enc_meter_record (k, st, f)) = (if has_length f then 4 else 3) + length (field_bytes f)"
  by simp

lemma record_typed:
  assumes "has_length f \<Longrightarrow> rd p (uint offset + 3) = Some (word_of_nat (length (field_bytes f)))"
  shows "log_dlms_data_type (field_type f) offset p
    = Some (0, if has_length f then 4 else 3, word_of_nat (length (field_bytes f)))"
  using assms by (cases f) (simp_all add: log_dlms_data_type_def has_length_def)

lemma read_record:
  fixes A B :: bytes and b :: int and k st :: u8 and f :: meter_field
  defines "p \<equiv> (A @ enc_meter_record (k, st, f) @ B, b)"
  assumes "b + uint offset = int (length A)" and "length (field_bytes f) < 256" and "unat offset < len"
  shows "read_records e p len (Suc n) offset c
    = read_records e p len n (offset + word_of_nat (length (enc_meter_record (k, st, f)))) (push_value k (field_value e f) c)"
proof -
  let ?r = "enc_meter_record (k, st, f)" and ?d = "if has_length f then 4 else 3 :: nat"
  have hdr: "rd p (uint offset) = Some k" "rd p (uint offset + 1) = Some st" "rd p (uint offset + 2) = Some (field_type f)"
    unfolding p_def using assms(2)
      rd_within [of b "uint offset" A 0 ?r B] rd_within [of b "uint offset + 1" A 1 ?r B] rd_within [of b "uint offset + 2" A 2 ?r B]
    by simp_all
  have "rd p (uint offset + 3) = Some (word_of_nat (length (field_bytes f)))" if "has_length f"
    unfolding p_def using assms(2) that rd_within [of b "uint offset + 3" A 3 ?r B] by simp
  then have log: "log_dlms_data_type (field_type f) offset p
      = Some (0, if has_length f then 4 else 3, word_of_nat (length (field_bytes f)))"
    by (rule record_typed)
  have k: "b + (uint offset + int ?d) = int (length A + ?d)" using assms(2) by simp
  have "rd_seq p (uint offset + int ?d) (length (field_bytes f)) = Some (field_bytes f)"
    unfolding p_def by (rule rd_seq_field [OF k, where zs = "[]"]) simp_all
  moreover have "rd p (uint offset + int ?d) = Some (field_bytes f ! 0)" if "0 < length (field_bytes f)"
    unfolding p_def using that k rd_within [of b "uint offset + int ?d" A ?d ?r B] by (simp add: nth_append)
  ultimately have "extract_dlms_value e (field_type f) (padd p (uint offset + int ?d)) (word_of_nat (length (field_bytes f)))
      = Some (field_value e f)"
    using assms(3) by (intro record_extracted) simp_all
  moreover have "field_type f \<noteq> DLMS_DATA_TYPE_NONE" by (cases f) simp_all
  moreover have "word_of_nat (length ?r) = (if has_length f then 4 else 3) + word_of_nat (length (field_bytes f) :: nat) "
    by (simp only: length_enc_meter_record of_nat_add) simp
  ultimately show ?thesis
    using assms(4) hdr log by (cases "has_length f") (simp_all add: Let_def not_le)
qed

lemma unat_advance: "unat (offset :: u8) + n \<le> 255 \<Longrightarrow> unat (offset + word_of_nat n) = unat offset + n"
  using unat_add_lem [of offset "word_of_nat n"] by (simp add: unat_of_nat)

lemma unat_count: "n \<le> 255 \<Longrightarrow> unat (word_of_nat n :: u8) = n"
  by (simp add: unat_of_nat)

lemma enc_meter_records_Cons: "enc_meter_records (r # rs) = enc_meter_record r @ enc_meter_records rs"
  by (simp add: enc_meter_records_def)

lemma enc_meter_records_length: "3 * length rs \<le> length (enc_meter_records rs)"
  by (induction rs) (auto simp: enc_meter_records_def)

text \<open>Encoded records are stored in order, and reading goes on behind them.\<close>

lemma read_records_enc:
  assumes "b + uint offset = int (length A)" and "unat offset + length (enc_meter_records rs) \<le> min 255 len"
  shows "read_records e (A @ enc_meter_records rs @ B, b) len (length rs + n) offset c
    = read_records e (A @ enc_meter_records rs @ B, b) len n (offset + word_of_nat (length (enc_meter_records rs))) (add_records e rs c)"
  using assms
proof (induction rs arbitrary: A offset c)
  case Nil
  show ?case by (simp add: enc_meter_records_def add_records_def)
next
  case (Cons r rs)
  obtain k st f where r: "r = (k, st, f)" by (cases r)
  let ?m = "enc_meter_record r" and ?rest = "enc_meter_records rs"
  define offset' where "offset' = offset + word_of_nat (length ?m)"
  have len: "unat offset + length ?m + length ?rest \<le> 255" "unat offset + length ?m + length ?rest \<le> len" "3 \<le> length ?m"
    using Cons.prems(2) by (simp_all add: enc_meter_records_Cons r)
  then have o: "unat offset' = unat offset + length ?m"
    unfolding offset'_def by (intro unat_advance) simp
  from arg_cong [OF o, of int] have "b + uint offset' = int (length (A @ ?m))"
    using Cons.prems(1) by simp
  from Cons.IH [OF this, of "push_value k (field_value e f) c"] len o
  have IH: "read_records e ((A @ ?m) @ ?rest @ B, b) len (length rs + n) offset' (push_value k (field_value e f) c)
      = read_records e ((A @ ?m) @ ?rest @ B, b) len n (offset' + word_of_nat (length ?rest)) (add_records e rs (push_value k (field_value e f) c))"
    by simp
  have "read_records e (A @ ?m @ ?rest @ B, b) len (Suc (length rs + n)) offset c
      = read_records e (A @ ?m @ ?rest @ B, b) len (length rs + n) offset' (push_value k (field_value e f) c)"
    unfolding offset'_def using len Cons.prems(1) by (simp only: r) (rule read_record; simp)
  with IH show ?case
    by (simp add: enc_meter_records_Cons add_records_def offset'_def r add.assoc)
qed

text \<open>A record of type \<open>NONE\<close> has no size: the loop stays at it until the count is used up.\<close>

lemma read_none:
  assumes "rd p (uint offset) = Some k" "rd p (uint offset + 1) = Some st" "rd p (uint offset + 2) = Some 0"
  shows "read_records e p len n offset c = Some c"
proof (induction n)
  case (Suc n)
  then show ?case
    using assms by (simp add: log_dlms_data_type_def listed_types_def extract_dlms_value_def)
qed simp

text \<open>A page as it stands in the receive buffer: nine bytes, the last of which counts the records, and the
  records, between what precedes and what follows.\<close>

definition page_header :: "bytes \<Rightarrow> nat \<Rightarrow> bool" where
  "page_header hdr n \<longleftrightarrow> length hdr = 9 \<and> hdr ! 8 = word_of_nat n \<and> n \<le> 255"

lemma read_page_prefix:
  assumes "page_header hdr (length rs + n)" and "9 + length (enc_meter_records rs) \<le> min 255 len"
  shows "read_page e (pre @ hdr @ enc_meter_records rs @ rest, int (length pre)) len c
    = read_records e (pre @ hdr @ enc_meter_records rs @ rest, int (length pre)) len n
        (9 + word_of_nat (length (enc_meter_records rs))) (add_records e rs c)"
proof -
  have h: "length hdr = 9" "hdr ! 8 = word_of_nat (length rs + n)" "length rs + n \<le> 255"
    using assms(1) by (simp_all add: page_header_def)
  then have "rd (pre @ hdr @ enc_meter_records rs @ rest, int (length pre)) 8 = Some (word_of_nat (length rs + n))"
    using rd_within [of "int (length pre)" 8 pre 8 hdr] by simp
  moreover have "unat (word_of_nat (length rs + n) :: u8) = length rs + n"
    using h(3) by (rule unat_count)
  moreover have "int (length pre) + uint (9 :: u8) = int (length (pre @ hdr))" using h(1) by simp
  ultimately show ?thesis
    using read_records_enc [of "int (length pre)" 9 "pre @ hdr" rs len e rest n c] assms(2)
    by (simp add: read_page_def)
qed

lemma read_page_enc:
  assumes "page_header hdr (length rs)" and "length (hdr @ enc_meter_records rs) \<le> 255"
  shows "read_page e (pre @ hdr @ enc_meter_records rs @ rest, int (length pre)) (length (hdr @ enc_meter_records rs)) c
    = Some (add_records e rs c)"
  using read_page_prefix [of hdr rs 0 "length (hdr @ enc_meter_records rs)" e pre rest c] assms
  by (simp add: page_header_def)

text \<open>C14: round trip of a page.  The five parsers read a page of at most 255 bytes back completely,
  wherever it lies in the receive buffer: the value of each record is appended to the column of its
  data index, in order, and nothing else of the client's profiles changes.\<close>

theorem odm_page_roundtrip:
  fixes pre hdr rest :: bytes
  assumes "page_header hdr (length rs)" and "length (hdr @ enc_meter_records rs) \<le> 255"
  defines "data \<equiv> (pre @ hdr @ enc_meter_records rs @ rest, int (length pre))" and "len \<equiv> length (hdr @ enc_meter_records rs)"
  shows "parse_nameplate_profile e data len s = Some (s\<lparr>name_plate := add_records e rs (name_plate s)\<rparr>) \<and>
    parse_instantaneous_profile e data len s = Some (s\<lparr>ip_profile := add_records e rs (ip_profile s)\<rparr>) \<and>
    parse_daily_load_profile e data len s = Some (s\<lparr>dlp_profile := add_records e rs (dlp_profile s)\<rparr>) \<and>
    parse_block_load_profile e data len s = Some (s\<lparr>blp_profile := add_records e rs (blp_profile s)\<rparr>) \<and>
    parse_billing_history_profile e data len s = Some (s\<lparr>bh_profile := add_records e rs (bh_profile s)\<rparr>)"
  using read_page_enc [OF assms(1,2)] unfolding data_def len_def
  by (simp_all only: parse_nameplate_profile_def parse_instantaneous_profile_def parse_daily_load_profile_def
      parse_block_load_profile_def parse_billing_history_profile_def option.map simp_thms)

text \<open>Concrete pages: a day with its four meter readings, and a header.\<close>

definition example_day :: "meter_record list" where
  "example_day = [(0, 0, FDateTime 0x684A1F00), (1, 0, FUint32 10), (2, 0, FUint32 20), (3, 0, FUint32 30), (4, 0, FUint32 40)]"

definition example_header :: "nat \<Rightarrow> bytes" where
  "example_header n = [0x2D, 0, 44, 0, 0x0E, 3, 0, 0, word_of_nat n]"

lemma example_header_ok: "n \<le> 255 \<Longrightarrow> page_header (example_header n) n"
  by (simp add: page_header_def example_header_def)

lemma example_day_length: "length example_day = 5" "length (enc_meter_records example_day) = 35"
  by (simp_all add: example_day_def enc_meter_records_def has_length_def)

theorem odm_page_roundtrip_witness:
  "parse_daily_load_profile example_env ([0, 0] @ example_header 5 @ enc_meter_records example_day @ [0x77], 2) 44 no_profiles
    = Some (no_profiles\<lparr>dlp_profile := add_records example_env example_day no_columns\<rparr>)"
proof -
  have "length (example_header 5) = 9" by (simp add: example_header_def)
  moreover have "page_header (example_header 5) (length example_day)"
    using example_header_ok [of 5] by (simp add: example_day_length)
  ultimately show ?thesis
    using odm_page_roundtrip [of "example_header 5" example_day example_env "[0, 0]" "[0x77]" no_profiles]
    by (simp add: example_day_length) (simp add: no_profiles_def)
qed

text \<open>A record without a value hides the rest of its page: the records before it are stored, and
  whatever follows it is ignored, although the parser reports nothing.\<close>

theorem none_record_hides_rest:
  assumes "page_header hdr (length rs + Suc n)" and "12 + length (enc_meter_records rs) \<le> min 255 len"
  shows "parse_daily_load_profile e (pre @ hdr @ enc_meter_records rs @ [k, st, 0] @ rest, int (length pre)) len s
    = Some (s\<lparr>dlp_profile := add_records e rs (dlp_profile s)\<rparr>)"
proof -
  let ?rs = "enc_meter_records rs" and ?data = "pre @ hdr @ enc_meter_records rs @ [k, st, 0] @ rest"
  let ?o = "9 + word_of_nat (length ?rs) :: u8" and ?p = "(?data, int (length pre))"
  have "unat ?o = 9 + length ?rs" using assms(2) unat_advance [of 9 "length ?rs"] by simp
  from arg_cong [OF this, of int] have o: "uint ?o = 9 + int (length ?rs)" by simp
  have "length hdr = 9" using assms(1) by (simp add: page_header_def)
  then have at: "rd ?p (uint ?o + int j) = Some ([k, st, 0] ! j)" if "j < 3" for j
    using that o rd_within [of "int (length pre)" "uint ?o + int j" "pre @ hdr @ ?rs" j "[k, st, 0]" rest] by simp
  have "read_records e ?p len (Suc n) ?o c = Some c" for c
    by (rule read_none [of _ _ k st]) (use at [of 0] at [of 1] at [of 2] in simp_all)
  with read_page_prefix [OF assms(1), of len e pre "[k, st, 0] @ rest" "dlp_profile s"] assms(2) show ?thesis
    by (simp add: parse_daily_load_profile_def)
qed

theorem none_record_hides_rest_witness:
  "parse_daily_load_profile example_env ([0, 0] @ example_header 11 @ enc_meter_records example_day @ [1, 0, 0] @ enc_meter_records example_day, 2) 82 no_profiles
    = Some (no_profiles\<lparr>dlp_profile := add_records example_env example_day no_columns\<rparr>)"
proof -
  have "page_header (example_header 11) (length example_day + Suc 5)"
    using example_header_ok [of 11] by (simp add: example_day_length)
  from none_record_hides_rest [OF this, of 82 example_env "[0, 0]" 1 0 "enc_meter_records example_day" no_profiles] show ?thesis
    by (simp add: example_day_length) (simp add: no_profiles_def)
qed

section \<open>Events and single objects\<close>

text \<open>For the seven kinds of events the loop is the one of the profiles.\<close>

lemma set_event_simps [simp]:
  "set_event t (event_profiles s t) s = s" "event_profiles (set_event t c s) t = c"
  "set_event t c (set_event t c' s) = set_event t c s"
  by (simp_all add: set_event_def)

lemma read_events_records:
  assumes "t \<noteq> EVENT_ALL" and "t \<le> 7"
  shows "read_events e p len t n i offset s
    = map_option (\<lambda>c. set_event t c s) (read_records e p len n offset (event_profiles s t))"
proof (induction n arbitrary: i offset s)
  case (Suc n)
  show ?case
    using assms by (auto simp: read_event_def Suc.IH Let_def split: bind_splits option.splits)
qed simp

lemma event_page_roundtrip:
  assumes "page_header hdr (length rs)" and "length (hdr @ enc_meter_records rs) \<le> 255"
    and "hdr ! 6 \<noteq> EVENT_ALL" and "hdr ! 6 \<le> 7"
  shows "parse_Events_profile e (pre @ hdr @ enc_meter_records rs @ rest, int (length pre)) (length (hdr @ enc_meter_records rs)) s
    = Some (set_event (hdr ! 6) (add_records e rs (event_profiles s (hdr ! 6))) s)"
proof -
  let ?p = "(pre @ hdr @ enc_meter_records rs @ rest, int (length pre))"
  have h: "length hdr = 9" using assms(1) by (simp add: page_header_def)
  have "rd ?p 6 = Some (hdr ! 6)" using h rd_within [of "int (length pre)" 6 pre 6 hdr] by simp
  moreover obtain n where "rd ?p 8 = Some n"
    using h rd_within [of "int (length pre)" 8 pre 8 hdr] by simp
  ultimately show ?thesis
    using read_page_enc [OF assms(1,2), of e pre rest "event_profiles s (hdr ! 6)"]
    by (simp add: parse_Events_profile_def read_page_def read_events_records [OF assms(3,4)])
qed

text \<open>A correct answer to the read of a period: three bytes of no concern here, status, type and 32 bits.\<close>

definition period_answer :: "u32 \<Rightarrow> bytes" where
  "period_answer seconds = replicate 17 0 @ [0x2D, 0, 16, 0, 0x0F, 0x00, SINGLE_OBIS_INTEGRATION_OR_CAPTURE_PERIOD, 0, 1, 0, 0x00, 0x06] @ enc32 seconds"

text \<open>Of the 32 bits of a period only the lower 16 are kept: a meter that captures once a day (86400
  seconds) is reported with 20864 seconds, as a success.\<close>

theorem period_truncated:
  "\<exists>s'. read_single_obis e (period_answer seconds @ rest, 0) s = Some (SUCCESS, s') \<and>
     period_seconds (singleObisData s') = period_seconds (singleObisData s) @ [ucast seconds]"
proof -
  let ?hdr = "replicate 17 0 @ [0x2D, 0, 16, 0, 0x0F, 0x00, SINGLE_OBIS_INTEGRATION_OR_CAPTURE_PERIOD, 0, 1, 0, 0x00, 0x06] :: bytes"
  have "(ucast (drop_bit 8 seconds) :: u8) = ucast (drop_bit 8 (ucast seconds :: u16))" "(ucast seconds :: u8) = ucast (ucast seconds :: u16)"
    by (rule bit_word_eqI, auto simp: bit_simps)+
  then have p: "period_answer seconds @ rest = (?hdr @ [ucast (drop_bit 24 seconds), ucast (drop_bit 16 seconds)]) @ enc16 (ucast seconds) @ rest"
    by (simp add: period_answer_def enc32_def enc16_def)
  have "rd_seq (period_answer seconds @ rest, 0) (17 + 14) 2 = Some (enc16 (ucast seconds))"
    unfolding p by (subst rd_seq_within [where xs = "enc16 (ucast seconds)", simplified]) simp_all
  then have "rd_data16 (period_answer seconds @ rest, 0) 14 = Some (ucast seconds)"
    by (simp add: rd_data16_def dread_prefix)
  moreover have "rd (period_answer seconds @ rest, 0) (17 + 5) = Some 0" "rd (period_answer seconds @ rest, 0) (17 + 6) = Some 1"
    "rd (period_answer seconds @ rest, 0) (17 + 10) = Some 0" "rd (period_answer seconds @ rest, 0) (17 + 11) = Some 6"
    by (simp_all add: period_answer_def nth_append)
  ultimately show ?thesis
    by (simp add: read_single_obis_def obis_period_def Let_def)
qed

lemma day_truncated: "ucast (86400 :: u32) = (20864 :: u16)"
  by simp

end
