(* ===== verification/Odm_Rows.thy ===== *)
theory Odm_Rows
  imports Odm_Readers On_Demand
begin

text \<open>
  The database rows of on-demand requests (\<open>HES/src/client.cpp\<close>): \<open>update_odm_db\<close> with the functions that
  complete a profile (\<open>validate_NP_for_db\<close> to \<open>validate_control_event_for_db\<close>), the insertion of each kind of data
  (\<open>process_NP_case\<close> to \<open>process_AllEvents_case\<close>, \<open>Insert_receive_data_offset\<close>) and \<open>clear_profile_for_type\<close>.  An
  insertion is the table with its columns and their contents.  The lemmas give the rows of the daily
  load profile for complete and incomplete columns; the theorems follow answers from their bytes to
  the rows.
\<close>

section \<open>Contents of a row\<close>

text \<open>What is printed into a statement: text up to its first zero byte, an integer, a \<open>float\<close> made from a
  value and a factor (with two decimals), the same with \<open>double\<close>, a number cut to an integer and divided by a
  constant, a number as \<open>std::to_string\<close> prints it, a product formed in \<open>double\<close>, cut to a \<open>float\<close> and printed with
  the given decimals, and the time at which the statement is made.  A factor is the scaler that the database has for an attribute and
  index, or the inverse of a constant.  Rounding is not modelled.\<close>

datatype factor = DbScaler cstr u8 | OneBy nat

datatype cell = Str bytes | Num int | Scaled number factor | ScaledDouble number factor | Whole number int | Plain number | Product nat number factor | Now

type_synonym insertion = "cstr \<times> (cstr \<times> cell) list"

definition c_str :: "bytes \<Rightarrow> bytes" where
  "c_str bs = takeWhile (\<lambda>b. b \<noteq> 0) bs"

abbreviation (input) chars :: "cstr \<Rightarrow> bytes" where "chars s \<equiv> map of_char s"

text \<open>A string constant or a member of \<open>DB_parameter\<close>.\<close>

definition text_cell :: "cstr \<Rightarrow> cell" where
  "text_cell s = Str (c_str (chars s))"

text \<open>The number behind \<open>getAsFloat\<close> and \<open>getAsDouble\<close>; other types count as zero.\<close>

definition as_number :: "dlms_value \<Rightarrow> number" where
  "as_number v =
     (if vtype v \<in> {DLMS_DATA_TYPE_BOOLEAN, DLMS_DATA_TYPE_INT8, DLMS_DATA_TYPE_INT16, DLMS_DATA_TYPE_INT32, DLMS_DATA_TYPE_INT64,
        DLMS_DATA_TYPE_UINT8, DLMS_DATA_TYPE_UINT16, DLMS_DATA_TYPE_UINT32, DLMS_DATA_TYPE_UINT64, DLMS_DATA_TYPE_FLOAT32, DLMS_DATA_TYPE_FLOAT64}
      then (case payload v of
          BoolValue b \<Rightarrow> CastInt (if b then 1 else 0)
        | Int8Value w \<Rightarrow> CastInt (sint w) | Int16Value w \<Rightarrow> CastInt (sint w) | Int32Value w \<Rightarrow> CastInt (sint w) | Int64Value w \<Rightarrow> CastInt (sint w)
        | UInt8Value w \<Rightarrow> CastInt (uint w) | UInt16Value w \<Rightarrow> CastInt (uint w) | UInt32Value w \<Rightarrow> CastInt (uint w) | UInt64Value w \<Rightarrow> CastInt (uint w)
        | Float32Value w \<Rightarrow> CastFloat w | Float64Value w \<Rightarrow> Double w)
      else CastInt 0)"

definition getAsFloat :: "dlms_value \<Rightarrow> factor \<Rightarrow> cell" where
  "getAsFloat v scale = Scaled (as_number v) scale"

text \<open>The conversion of a \<open>float\<close> to an unsigned integer of 32 bits is undefined outside its range; integers from
  \<open>2 ^ 32 - 128\<close> on are rounded out of it.  The conversion to \<open>int\<close> is the same with its own range.  The bounds on
  the patterns are those of the numbers -1, \<open>2 ^ 32\<close> and \<open>2 ^ 31\<close>.\<close>

fun fits_unsigned :: "number \<Rightarrow> bool" where
  "fits_unsigned (CastInt i) \<longleftrightarrow> 0 \<le> i \<and> i < 2 ^ 32 - 128"
| "fits_unsigned (CastFloat w) \<longleftrightarrow> w < 0x4F800000 \<or> (0x80000000 \<le> w \<and> w < 0xBF800000)"
| "fits_unsigned (Double w) \<longleftrightarrow> w < 0x41EFFFFFF0000000 \<or> (0x8000000000000000 \<le> w \<and> w < 0xBFEFFFFFF0000000)"

fun fits_int :: "number \<Rightarrow> bool" where
  "fits_int (CastInt i) \<longleftrightarrow> - (2 ^ 31) - 128 \<le> i \<and> i < 2 ^ 31 - 64"
| "fits_int (CastFloat w) \<longleftrightarrow> w < 0x4F000000 \<or> (0x80000000 \<le> w \<and> w \<le> 0xCF000000)"
| "fits_int (Double w) \<longleftrightarrow> w < 0x41DFFFFFF0000000 \<or> (0x8000000000000000 \<le> w \<and> w \<le> 0xC1E0000010000000)"

definition to_unsigned :: "dlms_value \<Rightarrow> cell option" where
  "to_unsigned v = (if fits_unsigned (as_number v) then Some (Whole (as_number v) 1) else None)"

definition decimal :: "int \<Rightarrow> cstr" where
  "decimal i = (if i < 0 then CHR ''-'' # dec (nat (- i)) else dec (nat i))"

text \<open>\<open>to_string\<close>; \<open>int8Value\<close> of a value without type is the initial zero.\<close>

definition to_string :: "dlms_value \<Rightarrow> cell" where
  "to_string v =
     (if vtype v = DLMS_DATA_TYPE_BOOLEAN then
        text_cell (case payload v of BoolValue b \<Rightarrow> if b then ''true'' else ''false'' | _ \<Rightarrow> ''false'')
      else if vtype v = DLMS_DATA_TYPE_OCTET_STRING then text_cell (concat (map (\<lambda>b. dec (unat b) @ '' '') (octetString v)))
      else if vtype v = DLMS_DATA_TYPE_STRING then Str (c_str (octetString v))
      else case as_number v of CastInt i \<Rightarrow> text_cell (decimal i) | x \<Rightarrow> Plain x)"

definition getAsString :: "dlms_value \<Rightarrow> cell" where
  "getAsString v = (if vtype v = DLMS_DATA_TYPE_STRING \<or> vtype v = DLMS_DATA_TYPE_STRING_UTF8
     then Str (c_str (octetString v)) else to_string v)"

definition octet_cell :: "dlms_value \<Rightarrow> cell" where
  "octet_cell v = Str (c_str (octetString v))"

section \<open>State\<close>

text \<open>The profiles of the client, the results that the queries to come will have (none left means 0), and
  what was written.  \<open>DB_parameter\<close> carries the names of the meter and the gateway.  A ping is
  \<open>Update_Insert_Ping_request\<close> of \<open>On_Demand\<close>.\<close>

datatype odm_op = SetStatus int int u16 | Insert insertion | EmptyQuery | PingRequest u8 int

record odm_store =
  profiles :: odm_profiles
  query_results :: "int list"
  written :: "odm_op list"

record odm_parameters = db_parameters +
  db_gateway_id :: cstr
  last_download_time :: cstr
  push_alaram :: int
  db_status :: int

definition write_op :: "odm_op \<Rightarrow> odm_store \<Rightarrow> odm_store" where
  "write_op entry s = s\<lparr>written := written s @ [entry]\<rparr>"

definition execute_query :: "odm_op \<Rightarrow> odm_store \<Rightarrow> int \<times> odm_store" where
  "execute_query entry s = (case query_results s of
       [] \<Rightarrow> (0, write_op entry s)
     | r # rs \<Rightarrow> (r, (write_op entry s)\<lparr>query_results := rs\<rparr>))"

definition on_profiles :: "(odm_profiles \<Rightarrow> odm_profiles) \<Rightarrow> odm_store \<Rightarrow> odm_store" where
  "on_profiles f s = s\<lparr>profiles := f (profiles s)\<rparr>"

abbreviation (input) DATA_TYPE_NP :: u8 where "DATA_TYPE_NP \<equiv> 0"
abbreviation (input) DATA_TYPE_IP :: u8 where "DATA_TYPE_IP \<equiv> 1"
abbreviation (input) DATA_TYPE_BHP :: u8 where "DATA_TYPE_BHP \<equiv> 2"
abbreviation (input) DATA_TYPE_DLP :: u8 where "DATA_TYPE_DLP \<equiv> 3"
abbreviation (input) DATA_TYPE_BLP :: u8 where "DATA_TYPE_BLP \<equiv> 4"
abbreviation (input) DATA_TYPE_ALL_EVENTS :: u8 where "DATA_TYPE_ALL_EVENTS \<equiv> 5"
abbreviation (input) DATA_TYPE_VOLTAGE_EVENTS :: u8 where "DATA_TYPE_VOLTAGE_EVENTS \<equiv> 6"
abbreviation (input) DATA_TYPE_CONTROL_EVENTS :: u8 where "DATA_TYPE_CONTROL_EVENTS \<equiv> 12"

definition clear_profile_for_type :: "u8 \<Rightarrow> odm_profiles \<Rightarrow> odm_profiles" where
  "clear_profile_for_type t s =
     (if t = DATA_TYPE_NP then s\<lparr>name_plate := no_columns\<rparr>
      else if t = DATA_TYPE_IP then s\<lparr>ip_profile := no_columns\<rparr>
      else if t = DATA_TYPE_BHP then s\<lparr>bh_profile := no_columns\<rparr>
      else if t = DATA_TYPE_DLP then s\<lparr>dlp_profile := no_columns\<rparr>
      else if t = DATA_TYPE_BLP then s\<lparr>blp_profile := no_columns\<rparr>
      else if t = DATA_TYPE_ALL_EVENTS then s\<lparr>event_data := Map.empty\<rparr>
      else if DATA_TYPE_VOLTAGE_EVENTS \<le> t \<and> t \<le> DATA_TYPE_CONTROL_EVENTS then s\<lparr>event_profiles := (\<lambda>k. no_columns)\<rparr>
      else if 15 \<le> t \<and> t \<le> 26 then s\<lparr>singleObisData := new_single_obis, written_tail := 0\<rparr>
      else s)"

section \<open>Completing a profile\<close>

text \<open>The two tests for a missing column: an empty one, and also one that begins with a value without
  type.  The default is pushed at its end.\<close>

definition ensure_nonempty :: "u8 \<times> dlms_value \<Rightarrow> columns \<Rightarrow> columns" where
  "ensure_nonempty kv c = (if c (fst kv) = [] then push_value (fst kv) (snd kv) c else c)"

definition ensure_dlms_value :: "u8 \<times> dlms_value \<Rightarrow> columns \<Rightarrow> columns" where
  "ensure_dlms_value kv c =
     (if c (fst kv) = [] \<or> vtype (hd (c (fst kv))) = DLMS_DATA_TYPE_NONE then push_value (fst kv) (snd kv) c else c)"

abbreviation zero_float :: dlms_value where
  "zero_float \<equiv> set_member DLMS_DATA_TYPE_FLOAT32 (Float32Value 0)"

abbreviation zero_uint8 :: dlms_value where
  "zero_uint8 \<equiv> set_member DLMS_DATA_TYPE_UINT8 (UInt8Value 0)"

definition validate_NP_for_db :: "columns \<Rightarrow> columns" where
  "validate_NP_for_db = fold ensure_nonempty
     [(0, setString []), (1, setString []), (2, setString []), (3, setString []), (4, zero_uint8), (5, setString []),
      (6, setString []), (7, set_member DLMS_DATA_TYPE_UINT16 (UInt16Value 0))]"

text \<open>The two columns with the times of the maximum demand are completed only when they exist.\<close>

definition validate_IP_for_db :: "columns \<Rightarrow> columns" where
  "validate_IP_for_db c = fold ensure_dlms_value
     ([(0x00, setOctetString [])] @ map (\<lambda>k. (k, zero_float)) [0x01, 0x02, 0x03, 0x04, 0x05, 0x06, 0x07, 0x08, 0x09, 0x0A, 0x0C,
        0x0E, 0x0F, 0x10, 0x11, 0x12, 0x13] @ [(0x14, set_member DLMS_DATA_TYPE_BOOLEAN (BoolValue False)), (0x15, zero_float)]
      @ (if c 0x0B \<noteq> [] then [(0x0B, setOctetString [])] else []) @ (if c 0x0D \<noteq> [] then [(0x0D, setOctetString [])] else [])) c"

definition validate_DLP_for_db :: "columns \<Rightarrow> columns" where
  "validate_DLP_for_db = fold ensure_dlms_value
     [(0x00, setOctetString []), (0x01, zero_float), (0x02, zero_float), (0x03, zero_float), (0x04, zero_float)]"

definition validate_BLP_for_db :: "columns \<Rightarrow> columns" where
  "validate_BLP_for_db = fold ensure_dlms_value
     [(0x00, setOctetString []), (0x01, zero_float), (0x02, zero_float), (0x03, zero_float), (0x04, zero_float), (0x05, zero_float),
      (0x06, zero_float)]"

definition validate_BH_for_db :: "columns \<Rightarrow> columns" where
  "validate_BH_for_db = fold ensure_dlms_value
     ([(0x00, setOctetString []), (0x01, zero_float), (0x02, zero_float), (0x0B, zero_float), (0x19, zero_float), (0x1A, zero_float),
       (0x14, zero_float), (0x16, zero_float), (0x15, setOctetString []), (0x17, setOctetString [])]
      @ map (\<lambda>k. (k, zero_float)) [0x03, 0x04, 0x05, 0x06, 0x07, 0x08, 0x09, 0x0A, 0x0C, 0x0D, 0x0E, 0x0F, 0x10, 0x11, 0x12, 0x13, 0x18])"

text \<open>Voltage, current and other events have seven columns, power, transactional and non-rollover events
  two; the control events have their own defaults.\<close>

definition validate_long_event_for_db :: "columns \<Rightarrow> columns" where
  "validate_long_event_for_db = fold ensure_dlms_value
     [(0x00, setOctetString []), (0x01, zero_uint8), (0x02, zero_float), (0x03, zero_float), (0x04, zero_float), (0x05, zero_float),
      (0x06, set_member DLMS_DATA_TYPE_FLOAT64 (Float64Value 0))]"

definition validate_short_event_for_db :: "columns \<Rightarrow> columns" where
  "validate_short_event_for_db = fold ensure_dlms_value [(0x00, setOctetString []), (0x01, zero_uint8)]"

definition validate_control_event_for_db :: "columns \<Rightarrow> columns" where
  "validate_control_event_for_db = fold ensure_nonempty
     [(0x00, set_member DLMS_DATA_TYPE_UINT32 (UInt32Value 0)), (0x01, zero_uint8)]"

section \<open>Name plate and instantaneous profile\<close>

text \<open>The last columns of most tables.\<close>

definition meter_cells :: "odm_parameters \<Rightarrow> (cstr \<times> cell) list" where
  "meter_cells p = [(''meter_mac_address'', text_cell (meter_mac_address p)), (''meter_serial_number'', text_cell (meter_serial_no p))]"

definition gateway_cell :: "odm_parameters \<Rightarrow> cstr \<times> cell" where
  "gateway_cell p = (''gateway_id'', text_cell (db_gateway_id p))"

definition request_cells :: "odm_parameters \<Rightarrow> (cstr \<times> cell) list" where
  "request_cells p = [(''last_download_time'', text_cell (last_download_time p)), (''request_id'', Num (req_id p)),
     (''push_alaram'', Num (push_alaram p))]"

abbreviation (input) error_cell :: "cstr \<times> cell" where "error_cell \<equiv> (''error_code'', Num 1)"

definition name_plate_row :: "odm_parameters \<Rightarrow> columns \<Rightarrow> insertion option" where
  "name_plate_row p c =
     (let phase = as_number (hd (c 4)) in
      if \<not> fits_int phase then None
      else Some (''name_plate_data'',
        [(''meter_serial_number'', octet_cell (hd (c 0))), (''meter_mac_address'', text_cell (meter_mac_address p)), gateway_cell p,
         (''device_id'', octet_cell (hd (c 1))), (''manufacturer_name'', octet_cell (hd (c 2))),
         (''firmware_version_for_meter'', octet_cell (hd (c 3))), (''meter_type'', Whole phase 6), (''category'', octet_cell (hd (c 5))),
         (''current_rating'', octet_cell (hd (c 6))), (''meter_manufacture_year'', to_string (hd (c 7))),
         (''last_download_time'', text_cell (last_download_time p)), (''request_id'', Num (req_id p)), (''push_alaram'', Num 0)]))"

definition success_status :: "odm_parameters \<Rightarrow> odm_op" where
  "success_status p = SetStatus (req_id p) SUCCESS_STATUS 1"

definition process_NP_case :: "odm_parameters \<Rightarrow> odm_store \<Rightarrow> odm_store option" where
  "process_NP_case p s = do {
     let s = on_profiles (\<lambda>d. d\<lparr>name_plate := validate_NP_for_db (name_plate d)\<rparr>) s;
     let s = write_op (success_status p) s;
     row \<leftarrow> name_plate_row p (name_plate (profiles s));
     let s = on_profiles (clear_profile_for_type DATA_TYPE_NP) s;
     Some (snd (execute_query (Insert row) s))
   }"

text \<open>The union read through its one-byte or two-byte member.  A copy of a value has only the bytes of the
  member that its type names.\<close>

definition int8Value :: "dlms_value \<Rightarrow> u8" where
  "int8Value v = (case payload v of BoolValue b \<Rightarrow> if b then 1 else 0 | Int8Value w \<Rightarrow> w | UInt8Value w \<Rightarrow> w
     | Int16Value w \<Rightarrow> ucast w | UInt16Value w \<Rightarrow> ucast w | Int32Value w \<Rightarrow> ucast w | UInt32Value w \<Rightarrow> ucast w
     | Float32Value w \<Rightarrow> ucast w | Int64Value w \<Rightarrow> ucast w | UInt64Value w \<Rightarrow> ucast w | Float64Value w \<Rightarrow> ucast w)"

definition int16Value :: "dlms_value \<Rightarrow> u16 option" where
  "int16Value v = (case payload v of BoolValue b \<Rightarrow> None | Int8Value w \<Rightarrow> None | UInt8Value w \<Rightarrow> None
     | Int16Value w \<Rightarrow> Some w | UInt16Value w \<Rightarrow> Some w | Int32Value w \<Rightarrow> Some (ucast w) | UInt32Value w \<Rightarrow> Some (ucast w)
     | Float32Value w \<Rightarrow> Some (ucast w) | Int64Value w \<Rightarrow> Some (ucast w) | UInt64Value w \<Rightarrow> Some (ucast w) | Float64Value w \<Rightarrow> Some (ucast w))"

abbreviation (input) IP_RSSI :: u8 where "IP_RSSI \<equiv> 0xF0"
abbreviation (input) IP_FREQUENCY_OFFSET :: u8 where "IP_FREQUENCY_OFFSET \<equiv> 0xF1"
abbreviation (input) IP_NOISE_FLOOR :: u8 where "IP_NOISE_FLOOR \<equiv> 0xF2"
abbreviation (input) IP_TDC_VALUE :: u8 where "IP_TDC_VALUE \<equiv> 0xF3"
abbreviation (input) IP_TEMP :: u8 where "IP_TEMP \<equiv> 0xF4"

text \<open>The bytes of the TDC value and of the temperature are put in the opposite order.\<close>

definition rf_row :: "odm_parameters \<Rightarrow> columns \<Rightarrow> insertion option" where
  "rf_row p c = do {
     let byte_of = (\<lambda>k. if c k = [] then 0 else sint (int8Value (last (c k))));
     let tdc_raw = (word_of_int (byte_of IP_TDC_VALUE) :: u32);
     tdc \<leftarrow> dread32 (rev (enc32 tdc_raw)) 0;
     temp \<leftarrow> (if c IP_TEMP = [] then Some 0 else do { w \<leftarrow> int16Value (last (c IP_TEMP)); dread16 (rev (enc16 w)) 0 });
     Some (''rf_param_info'',
       [gateway_cell p, (''meter_mac_address'', text_cell (meter_mac_address p)), (''meter_sl_no'', text_cell (meter_serial_no p)),
        (''frequency_offset'', Num (byte_of IP_FREQUENCY_OFFSET)), (''frequency_last_download_time'', text_cell (last_download_time p)),
        (''meter_rtc_time'', if c 0 = [] then Str [] else getAsString (last (c 0))),
        (''rssi_value'', Num (byte_of IP_RSSI)), (''noise_floor'', Num (byte_of IP_NOISE_FLOOR)),
        (''temprature'', Num (sint temp)), (''tdc'', Num (sint tdc))])
   }"

definition Insert_receive_data_offset :: "odm_parameters \<Rightarrow> odm_store \<Rightarrow> odm_store option" where
  "Insert_receive_data_offset p s = do {
     row \<leftarrow> rf_row p (ip_profile (profiles s));
     Some (snd (execute_query (Insert row) s))
   }"

text \<open>The accessors of \<open>process_IP_case\<close>; the factor of an index is its scaler of attribute 0100.\<close>

definition ip_float :: "columns \<Rightarrow> u8 \<Rightarrow> cell" where
  "ip_float c k = (if c k \<noteq> [] then getAsFloat (hd (c k)) (DbScaler ''0100'' k) else Scaled (CastInt 0) (OneBy 1))"

definition ip_datetime :: "columns \<Rightarrow> u8 \<Rightarrow> cell option" where
  "ip_datetime c k = (if c k \<noteq> [] \<and> octetString (hd (c k)) \<noteq> []
     then map_option text_cell (parse_dlms_datetime (octetString (hd (c k)))) else Some (Str []))"

definition ip_row :: "odm_parameters \<Rightarrow> columns \<Rightarrow> insertion option" where
  "ip_row p c = do {
     md_kw \<leftarrow> ip_datetime c 0x0B;
     md_kva \<leftarrow> ip_datetime c 0x0D;
     Some (''dlms_ip_push_data'',
       [(''meter_serial_number'', text_cell (meter_serial_no p)), (''meter_mac_address'', text_cell (meter_mac_address p)), gateway_cell p,
        (''meter_rtc_time'', if c 0 \<noteq> [] then getAsString (hd (c 0)) else Str []),
        (''voltage'', ip_float c 0x01), (''phase_current'', ip_float c 0x02), (''neutral_current'', ip_float c 0x03),
        (''signed_powerfactor'', ip_float c 0x04), (''frequency'', ip_float c 0x05), (''apparent_power_kva'', ip_float c 0x06),
        (''active_power_kw'', ip_float c 0x07), (''cum_energy_kwh_import'', ip_float c 0x08), (''cum_energy_kvah_import'', ip_float c 0x09),
        (''maximum_demand_kw'', ip_float c 0x0A), (''md_kw_datetime'', md_kw), (''maximum_demand_kva'', ip_float c 0x0C),
        (''md_kva_datetime'', md_kva), (''cum_power_on_duration'', ip_float c 0x0E), (''cum_tamper_count'', ip_float c 0x0F),
        (''cum_billing_count'', ip_float c 0x10), (''cum_programming_count'', ip_float c 0x11), (''cum_energy_kwh_export'', ip_float c 0x12),
        (''cum_energy_kvah_export'', ip_float c 0x13),
        (''loadlimit_function_sts'', Num (if c 0x14 \<noteq> [] \<and> vtype (hd (c 0x14)) = DLMS_DATA_TYPE_BOOLEAN \<and> payload (hd (c 0x14)) = BoolValue True then 1 else 0)),
        (''loadlimit_value_kw'', ip_float c 0x15)] @ request_cells p @ [error_cell])
   }"

definition process_IP_case :: "odm_parameters \<Rightarrow> odm_store \<Rightarrow> odm_store option" where
  "process_IP_case p s = do {
     let s = on_profiles (\<lambda>d. d\<lparr>ip_profile := validate_IP_for_db (ip_profile d)\<rparr>) s;
     let s = write_op (success_status p) s;
     s \<leftarrow> Insert_receive_data_offset p s;
     row \<leftarrow> ip_row p (ip_profile (profiles s));
     let s = on_profiles (clear_profile_for_type DATA_TYPE_IP) s;
     Some (snd (execute_query (Insert row) s))
   }"

section \<open>Profiles with many entries\<close>

text \<open>\<open>data[k][i]\<close> of a vector that may be shorter.\<close>

definition cell_at :: "columns \<Rightarrow> u8 \<Rightarrow> nat \<Rightarrow> dlms_value option" where
  "cell_at c k i = (if i < length (c k) then Some (c k ! i) else None)"

definition scaled_entry :: "columns \<Rightarrow> cstr \<Rightarrow> u8 \<Rightarrow> nat \<Rightarrow> cell option" where
  "scaled_entry c attr k i = map_option (\<lambda>v. getAsFloat v (DbScaler attr k)) (cell_at c k i)"

definition dlp_row :: "odm_parameters \<Rightarrow> columns \<Rightarrow> nat \<Rightarrow> insertion option" where
  "dlp_row p c i = do {
     rtc \<leftarrow> map_option getAsString (cell_at c 0 i);
     kwh_export \<leftarrow> scaled_entry c ''0300'' 1 i;
     kvah_export \<leftarrow> scaled_entry c ''0300'' 2 i;
     kwh_import \<leftarrow> scaled_entry c ''0300'' 3 i;
     kvah_import \<leftarrow> scaled_entry c ''0300'' 4 i;
     Some (''dlms_daily_load_push_profile'', meter_cells p @ [gateway_cell p, (''real_time_clock'', rtc),
       (''cum_energy_kwh_export'', kwh_export), (''cum_energy_kvah_export'', kvah_export), (''cum_energy_kwh_import'', kwh_import),
       (''cum_energy_kvah_import'', kvah_import)] @ request_cells p @ [error_cell])
   }"

definition blp_row :: "odm_parameters \<Rightarrow> columns \<Rightarrow> nat \<Rightarrow> insertion option" where
  "blp_row p c i = do {
     rtc \<leftarrow> map_option getAsString (cell_at c 0 i);
     voltage \<leftarrow> scaled_entry c ''0400'' 1 i;
     kwh_import \<leftarrow> scaled_entry c ''0400'' 2 i;
     kvah_import \<leftarrow> scaled_entry c ''0400'' 3 i;
     kwh_export \<leftarrow> scaled_entry c ''0400'' 4 i;
     kvah_export \<leftarrow> scaled_entry c ''0400'' 5 i;
     Some (''dlms_block_load_push_profile'', meter_cells p @ [gateway_cell p, (''real_time_clock'', rtc), (''average_voltage'', voltage),
       (''block_energy_kwh_import'', kwh_import), (''block_energy_kvah_import'', kvah_import),
       (''block_energy_kwh_export'', kwh_export), (''block_energy_kvah_export'', kvah_export)] @ request_cells p @ [error_cell])
   }"

definition bh_datetime :: "columns \<Rightarrow> u8 \<Rightarrow> nat \<Rightarrow> cell option" where
  "bh_datetime c k i = (if i < length (c k) \<and> octetString (c k ! i) \<noteq> []
     then map_option text_cell (parse_dlms_datetime (octetString (c k ! i))) else Some (Str []))"

text \<open>The columns of a billing entry between its date and the times of the maximum demand, and behind them.\<close>

definition bh_columns :: "(cstr \<times> u8) list" where
  "bh_columns = [(''average_pwr_factor_for_billing_period'', 0x01), (''cum_energy_kwh_import'', 0x02),
     (''cum_energy_kwh_tz1'', 0x03), (''cum_energy_kwh_tz2'', 0x04), (''cum_energy_kwh_tz3'', 0x05), (''cum_energy_kwh_tz4'', 0x06),
     (''cum_energy_kwh_tz5'', 0x07), (''cum_energy_kwh_tz6'', 0x08), (''cum_energy_kwh_tz7'', 0x09), (''cum_energy_kwh_tz8'', 0x0A),
     (''cum_energy_kvah_import'', 0x0B), (''cum_energy_kvah_tz1'', 0x0C), (''cum_energy_kvah_tz2'', 0x0D), (''cum_energy_kvah_tz3'', 0x0E),
     (''cum_energy_kvah_tz4'', 0x0F), (''cum_energy_kvah_tz5'', 0x10), (''cum_energy_kvah_tz6'', 0x11), (''cum_energy_kvah_tz7'', 0x12),
     (''cum_energy_kvah_tz8'', 0x13), (''max_demand_kw'', 0x14), (''max_demand_kva'', 0x16)]"

definition bh_row :: "odm_parameters \<Rightarrow> columns \<Rightarrow> nat \<Rightarrow> insertion option" where
  "bh_row p c i = do {
     date_time \<leftarrow> bh_datetime c 0x00 i;
     MD_KW \<leftarrow> bh_datetime c 0x15 i;
     MD_KVA \<leftarrow> bh_datetime c 0x17 i;
     values \<leftarrow> mapM (\<lambda>(name, k). map_option (Pair name) (scaled_entry c ''0200'' k i)) bh_columns;
     kwh_export \<leftarrow> scaled_entry c ''0200'' 0x19 i;
     kvah_export \<leftarrow> scaled_entry c ''0200'' 0x1A i;
     duration \<leftarrow> map_option (\<lambda>v. ScaledDouble (as_number v) (DbScaler ''0200'' 0x18)) (cell_at c 0x18 i);
     Some (''dlms_history_data'', meter_cells p @ [gateway_cell p, (''billing_date_import_mode'', date_time)] @ values
       @ [(''md_kw_datetime'', MD_KW), (''md_kva_datetime'', MD_KVA), (''cum_active_energy_kwh_export'', kwh_export),
          (''cum_apparent_energy_kvah_export'', kvah_export), (''billing_power_on_duration'', duration)] @ request_cells p @ [error_cell])
   }"

text \<open>The loop over the entries of the first column.\<close>

definition insert_rows :: "(nat \<Rightarrow> insertion option) \<Rightarrow> nat \<Rightarrow> odm_store \<Rightarrow> odm_store option" where
  "insert_rows row n s = foldM (\<lambda>i s. do { r \<leftarrow> row i; Some (snd (execute_query (Insert r) s)) }) [0..<n] s"

definition process_BHP_case :: "odm_parameters \<Rightarrow> odm_store \<Rightarrow> odm_store option" where
  "process_BHP_case p s = do {
     let s = on_profiles (\<lambda>d. d\<lparr>bh_profile := validate_BH_for_db (bh_profile d)\<rparr>) s;
     let s = write_op (success_status p) s;
     let c = bh_profile (profiles s);
     s \<leftarrow> insert_rows (bh_row p c) (length (c 0)) s;
     Some (on_profiles (clear_profile_for_type DATA_TYPE_BHP) s)
   }"

definition process_DLP_case :: "odm_parameters \<Rightarrow> odm_store \<Rightarrow> odm_store option" where
  "process_DLP_case p s = do {
     let s = on_profiles (\<lambda>d. d\<lparr>dlp_profile := validate_DLP_for_db (dlp_profile d)\<rparr>) s;
     let s = write_op (success_status p) s;
     let c = dlp_profile (profiles s);
     s \<leftarrow> insert_rows (dlp_row p c) (length (c 0)) s;
     Some (on_profiles (clear_profile_for_type DATA_TYPE_DLP) s)
   }"

definition process_BLP_case :: "odm_parameters \<Rightarrow> odm_store \<Rightarrow> odm_store option" where
  "process_BLP_case p s = do {
     let s = on_profiles (\<lambda>d. d\<lparr>blp_profile := validate_BLP_for_db (blp_profile d)\<rparr>) s;
     let s = write_op (success_status p) s;
     let c = blp_profile (profiles s);
     s \<leftarrow> insert_rows (blp_row p c) (length (c 0)) s;
     Some (on_profiles (clear_profile_for_type DATA_TYPE_BLP) s)
   }"

section \<open>Events\<close>

text \<open>A field of the summary of an event kind; kinds without a summary have zeros.\<close>

definition summary_cell :: "odm_profiles \<Rightarrow> u8 \<Rightarrow> nat \<Rightarrow> cell option" where
  "summary_cell d idx k = (case event_data d idx of None \<Rightarrow> Some (Num 0)
     | Some summary \<Rightarrow> if k < length summary then to_unsigned (summary ! k) else Some (Num 0))"

definition summary_cells :: "odm_profiles \<Rightarrow> u8 \<Rightarrow> cstr list \<Rightarrow> (cstr \<times> cell) list option" where
  "summary_cells d idx names = mapM (\<lambda>(name, k). map_option (Pair name) (summary_cell d idx k)) (zip names [1, 2, 4, 5])"

definition all_events_row :: "odm_parameters \<Rightarrow> odm_profiles \<Rightarrow> insertion option" where
  "all_events_row p d = do {
     voltage \<leftarrow> summary_cells d 0 [''voltage_no_of_records'', ''voltage_period'', ''voltage_current_record'', ''voltage_max_records''];
     current \<leftarrow> summary_cells d 1 [''current_no_of_records'', ''current_period'', ''current_current_record'', ''current_max_records''];
     power \<leftarrow> summary_cells d 2 [''power_no_of_records'', ''power_period'', ''power_current_record'', ''power_max_records''];
     transaction \<leftarrow> summary_cells d 3 [''transaction_no_of_records'', ''transaction_period'', ''transaction_current_record'', ''transaction_max_record''];
     non_roll_over \<leftarrow> summary_cells d 4 [''non_roll_over_no_of_records'', ''non_roll_over_period'', ''non_roll_over_current_record'', ''non_roll_over_max_records''];
     other \<leftarrow> summary_cells d 5 [''other_no_of_records'', ''other_period'', ''other_current_record'', ''other_max_records''];
     control \<leftarrow> summary_cells d 6 [''control_no_of_records'', ''control_period'', ''control_current_record'', ''control_max_records''];
     Some (''dlms_all_tamper'', [gateway_cell p] @ meter_cells p @ voltage @ current @ power @ transaction @ non_roll_over @ other @ control
       @ [error_cell, (''request_id'', Num (req_id p)), (''last_download_time'', text_cell (last_download_time p))])
   }"

definition process_AllEvents_case :: "odm_parameters \<Rightarrow> odm_store \<Rightarrow> odm_store option" where
  "process_AllEvents_case p s = do {
     let s = write_op (success_status p) s;
     row \<leftarrow> all_events_row p (profiles s);
     let s = on_profiles (clear_profile_for_type DATA_TYPE_ALL_EVENTS) s;
     Some (snd (execute_query (Insert row) s))
   }"

text \<open>The rows of one event: the last value of each column.\<close>

definition long_event_row :: "cstr \<Rightarrow> int \<Rightarrow> odm_parameters \<Rightarrow> columns \<Rightarrow> insertion option" where
  "long_event_row table tamper_type_index p c = do {
     code \<leftarrow> to_unsigned (last (c 1));
     tampers \<leftarrow> to_unsigned (last (c 6));
     Some (table, meter_cells p @ [(''date_time_of_event'', getAsString (last (c 0))), (''event_code'', code),
       (''current'', getAsFloat (last (c 2)) (OneBy 100)), (''voltage'', getAsFloat (last (c 3)) (OneBy 100)),
       (''power_factor'', getAsFloat (last (c 4)) (OneBy 1000)), (''cumulative_kwh'', getAsFloat (last (c 5)) (OneBy 1000)),
       (''cumulative_tamper_count'', tampers)] @ request_cells p @ [error_cell, (''tamper_type_index'', Num tamper_type_index)])
   }"

definition short_event_row :: "cstr \<Rightarrow> int \<Rightarrow> odm_parameters \<Rightarrow> columns \<Rightarrow> insertion option" where
  "short_event_row table tamper_type_index p c = do {
     code \<leftarrow> to_unsigned (last (c 1));
     Some (table, meter_cells p @ [(''date_time_of_event'', getAsString (last (c 0))), (''event_code'', code),
       (''last_download_time'', text_cell (last_download_time p)), gateway_cell p, (''request_id'', Num (req_id p)),
       (''push_alaram'', Num (push_alaram p)), error_cell, (''tamper_type_index'', Num tamper_type_index)])
   }"

text \<open>How each kind of events is completed and inserted; the kind is the download type less five.\<close>

definition event_table :: "u8 \<Rightarrow> (columns \<Rightarrow> columns) \<times> (odm_parameters \<Rightarrow> columns \<Rightarrow> insertion option)" where
  "event_table kind =
     (if kind = 1 then (validate_long_event_for_db, long_event_row ''voltage_tamper_data'' 1)
      else if kind = 2 then (validate_long_event_for_db, long_event_row ''current_tamper_data'' 2)
      else if kind = 3 then (validate_short_event_for_db, short_event_row ''power_failure_tamper_data'' 3)
      else if kind = 4 then (validate_short_event_for_db, short_event_row ''transaction_tamper_data'' 4)
      else if kind = 5 then (validate_long_event_for_db, long_event_row ''other_utility_based_tamper_data'' 5)
      else if kind = 6 then (validate_short_event_for_db, short_event_row ''non_roll_over_tamper_data'' 6)
      else (validate_control_event_for_db, short_event_row ''control_events_tamper_data'' 7))"

definition event_insertion :: "u8 \<Rightarrow> odm_parameters \<Rightarrow> odm_store \<Rightarrow> (odm_op \<times> odm_store) option" where
  "event_insertion kind p s = do {
     let (validate, row) = event_table kind;
     let s = on_profiles (\<lambda>d. set_event kind (validate (event_profiles d kind)) d) s;
     let s = write_op (success_status p) s;
     r \<leftarrow> row p (event_profiles (profiles s) kind);
     Some (Insert r, s)
   }"

section \<open>\<open>update_odm_db\<close>\<close>

definition programmable_row :: "odm_parameters \<Rightarrow> odm_profiles \<Rightarrow> cstr \<Rightarrow> cell \<Rightarrow> odm_op" where
  "programmable_row p d name value = Insert (''programmable_parameter_data'',
     [(''request_id'', Num (req_id p)), gateway_cell p] @ meter_cells p @ [(''is_read_or_write'', Num (uint (pp_command d))),
      (''status'', Num (db_status p)), (''last_download_time'', text_cell (last_download_time p)), (name, value)])"

text \<open>\<open>back()\<close> of an empty vector is undefined.\<close>

definition vec_back :: "'a list \<Rightarrow> 'a option" where
  "vec_back xs = (if xs = [] then None else Some (last xs))"

text \<open>The statement for the data types that reach the end of the function, with the state before it is
  executed; the types 26, 29 and 30 prepare none.\<close>

definition odm_statement :: "u8 \<Rightarrow> odm_parameters \<Rightarrow> odm_store \<Rightarrow> (odm_op \<times> odm_store) option" where
  "odm_statement t p s =
     (let d = profiles s; obis = singleObisData d in
      if DATA_TYPE_VOLTAGE_EVENTS \<le> t \<and> t \<le> DATA_TYPE_CONTROL_EVENTS then event_insertion (t - 5) p s
      else if t \<in> {15, 16} then Some (programmable_row p d ''real_time_clock'' (text_cell (rtc_formatted obis)), s)
      else if t \<in> {17, 18} then map_option (\<lambda>w. (programmable_row p d ''demand_intg_period'' (Num (uint w)), s)) (vec_back (period_seconds obis))
      else if t \<in> {19, 20} then map_option (\<lambda>w. (programmable_row p d ''profile_capture_period'' (Num (uint w)), s)) (vec_back (period_seconds obis))
      else if t \<in> {21, 22} then map_option (\<lambda>w. (programmable_row p d ''load_limit'' (Num (uint w)), s)) (vec_back (load_limit obis))
      else if t \<in> {23, 24} then map_option (\<lambda>w. (programmable_row p d ''load_connection'' (Num (uint w)), s)) (vec_back (load_status obis))
      else if t = 25 then Some (programmable_row p d ''action_scheduler'' (text_cell (scheduler_formatted obis)), s)
      else Some (EmptyQuery, s))"

text \<open>The function returns true in every case.\<close>

definition update_odm_db :: "odm_parameters \<Rightarrow> u8 \<Rightarrow> odm_store \<Rightarrow> (bool \<times> odm_store) option" where
  "update_odm_db p download_data_type s =
     (let t = download_data_type; returned = map_option (Pair True) in
      if t = DATA_TYPE_NP then returned (process_NP_case p s)
      else if t = DATA_TYPE_IP then returned (process_IP_case p s)
      else if t = DATA_TYPE_BHP then returned (process_BHP_case p s)
      else if t = DATA_TYPE_DLP then returned (process_DLP_case p s)
      else if t = DATA_TYPE_BLP then returned (process_BLP_case p s)
      else if t = DATA_TYPE_ALL_EVENTS then returned (process_AllEvents_case p s)
      else if t = PING_NODE \<or> t = PING_METER then Some (True, write_op (PingRequest t SUCCESS_STATUS) s)
      else if t \<notin> {6, 7, 8, 9, 10, 11, 12, 15, 16, 17, 18, 19, 20, 21, 22, 23, 24, 25, 26, 29, 30} then Some (True, s)
      else do {
        (statement, s) \<leftarrow> odm_statement t p s;
        let (db_result, s) = execute_query statement s;
        Some (True, if db_result = 0 then on_profiles (clear_profile_for_type t) s else s)
      })"

section \<open>The rows of a loop\<close>

lemma execute_query_simp:
  "snd (execute_query entry s) = s\<lparr>query_results := drop 1 (query_results s), written := written s @ [entry]\<rparr>"
  by (cases "query_results s") (simp_all add: execute_query_def write_op_def)

lemma insert_rows_all:
  assumes "\<And>i. i < n \<Longrightarrow> row i = Some (r i)"
  shows "insert_rows row n s
    = Some (s\<lparr>query_results := drop n (query_results s), written := written s @ map (\<lambda>i. Insert (r i)) [0..<n]\<rparr>)"
  using assms
proof (induction n)
  case (Suc n)
  then have "insert_rows row n s
      = Some (s\<lparr>query_results := drop n (query_results s), written := written s @ map (\<lambda>i. Insert (r i)) [0..<n]\<rparr>)"
    by simp
  with Suc.prems [of n] show ?case
    by (simp add: insert_rows_def foldM_append execute_query_simp)
qed (simp add: insert_rows_def)

lemma foldM_None: "x \<in> set xs \<Longrightarrow> (\<And>s. f x s = None) \<Longrightarrow> foldM f xs s = None"
  by (induction xs arbitrary: s) (auto split: bind_splits option.splits)

lemma insert_rows_None: "i < n \<Longrightarrow> row i = None \<Longrightarrow> insert_rows row n s = None"
  unfolding insert_rows_def by (rule foldM_None [of i]) simp_all

text \<open>Values that parsers store have a type, so completing a profile only fills empty columns.\<close>

definition typed :: "columns \<Rightarrow> bool" where
  "typed c \<longleftrightarrow> (\<forall>k. \<forall>v \<in> set (c k). vtype v \<noteq> DLMS_DATA_TYPE_NONE)"

lemma field_value_typed: "vtype (field_value e f) \<noteq> DLMS_DATA_TYPE_NONE"
  by (cases f) (simp_all add: set_member_def setString_def setOctetString_def)

lemma typed_records: "typed c \<Longrightarrow> typed (add_records e rs c)"
  using field_value_typed by (fastforce simp: typed_def add_records_column)

lemma typed_no_columns [simp]: "typed no_columns"
  by (simp add: typed_def no_columns_def)

lemma ensure_dlms_value_id:
  assumes "typed c" and "c k \<noteq> []"
  shows "ensure_dlms_value (k, v) c = c"
proof -
  have "vtype (hd (c k)) \<noteq> DLMS_DATA_TYPE_NONE"
    using assms hd_in_set [OF assms(2)] by (simp only: typed_def) blast
  with assms(2) show ?thesis by (simp add: ensure_dlms_value_def)
qed

lemma cell_at_Some: "i < length (c k) \<Longrightarrow> cell_at c k i = Some (c k ! i)"
  by (simp add: cell_at_def)

section \<open>Daily load\<close>

text \<open>A day: its time and its four readings, as a meter sends them and as the row that they make.\<close>

type_synonym day = "u32 \<times> u32 \<times> u32 \<times> u32 \<times> u32"

fun day_records :: "day \<Rightarrow> meter_record list" where
  "day_records (t, a, b, c, d) = [(0, 0, FDateTime t), (1, 0, FUint32 a), (2, 0, FUint32 b), (3, 0, FUint32 c), (4, 0, FUint32 d)]"

fun day_row :: "env \<Rightarrow> odm_parameters \<Rightarrow> day \<Rightarrow> insertion" where
  "day_row e p (t, a, b, c, d) = (''dlms_daily_load_push_profile'', meter_cells p @ [gateway_cell p,
     (''real_time_clock'', Str (c_str (chars (format_timestamp e (t - SECONDS_5H30M))))),
     (''cum_energy_kwh_export'', Scaled (CastInt (uint a)) (DbScaler ''0300'' 1)),
     (''cum_energy_kvah_export'', Scaled (CastInt (uint b)) (DbScaler ''0300'' 2)),
     (''cum_energy_kwh_import'', Scaled (CastInt (uint c)) (DbScaler ''0300'' 3)),
     (''cum_energy_kvah_import'', Scaled (CastInt (uint d)) (DbScaler ''0300'' 4))] @ request_cells p @ [error_cell])"

definition day_columns :: "env \<Rightarrow> day list \<Rightarrow> columns" where
  "day_columns e days = add_records e (concat (map day_records days)) no_columns"

fun day_value :: "env \<Rightarrow> u8 \<Rightarrow> day \<Rightarrow> dlms_value" where
  "day_value e k (t, a, b, c, d) = field_value e
     (if k = 0 then FDateTime t else FUint32 (if k = 1 then a else if k = 2 then b else if k = 3 then c else d))"

lemma map_filter_concat:
  assumes "\<And>x. map f (filter P (g x)) = [h x]"
  shows "map f (filter P (concat (map g xs))) = map h xs"
  by (induction xs) (simp_all add: assms)

lemma day_columns_column:
  assumes "k \<in> {0, 1, 2, 3, 4}"
  shows "day_columns e days k = map (day_value e k) days"
proof -
  have "map (\<lambda>(k, st, f). field_value e f) (filter (\<lambda>r. fst r = k) (day_records d)) = [day_value e k d]" for d
    using assms by (cases d) auto
  then show ?thesis by (simp add: day_columns_def add_records_column no_columns_def map_filter_concat)
qed

lemma day_row_at:
  assumes "i < length days"
  shows "dlp_row p (day_columns e days) i = Some (day_row e p (days ! i))"
proof -
  have col: "cell_at (day_columns e days) k i = Some (day_value e k (days ! i))" if "k \<in> {0, 1, 2, 3, 4}" for k
    using assms by (simp add: cell_at_def day_columns_column [OF that])
  obtain t a b c d where "days ! i = (t, a, b, c, d)" by (cases "days ! i") auto
  then show ?thesis
    by (simp add: dlp_row_def scaled_entry_def col)
      (simp add: getAsString_def setString_def set_member_def new_value_def getAsFloat_def as_number_def)
qed

lemma day_columns_valid:
  assumes "days \<noteq> []"
  shows "validate_DLP_for_db (day_columns e days) = day_columns e days"
proof -
  have "typed (day_columns e days)" by (simp add: day_columns_def typed_records)
  moreover have "day_columns e days k \<noteq> []" if "k \<in> {0, 1, 2, 3, 4}" for k
    using assms by (simp add: day_columns_column [OF that])
  ultimately show ?thesis
    by (simp add: validate_DLP_for_db_def ensure_dlms_value_id)
qed

lemma days_inserted:
  assumes "days \<noteq> []" and "dlp_profile (profiles s) = day_columns e days"
  shows "\<exists>s'. update_odm_db p DATA_TYPE_DLP s = Some (True, s')
    \<and> written s' = written s @ success_status p # map (\<lambda>d. Insert (day_row e p d)) days
    \<and> dlp_profile (profiles s') = no_columns \<and> query_results s' = drop (length days) (query_results s)"
proof -
  have rows: "map (\<lambda>i. Insert (day_row e p (days ! i))) [0..<length days] = map (\<lambda>d. Insert (day_row e p d)) days"
    by (rule nth_equalityI) simp_all
  have len: "length (day_columns e days 0) = length days" by (simp add: day_columns_column)
  show ?thesis
    using assms(2) insert_rows_all [of "length days" "dlp_row p (day_columns e days)", OF day_row_at]
    by (simp add: update_odm_db_def process_DLP_case_def day_columns_valid [OF assms(1)] Let_def write_op_def len rows on_profiles_def clear_profile_for_type_def)
qed

section \<open>From the pages to the rows\<close>

text \<open>The call that \<open>Receive\<close> logs for a page of the given profile with the given records, wherever the
  page lies in the receive buffer.\<close>

definition page_call :: "u8 \<Rightarrow> odm_call \<Rightarrow> meter_record list \<Rightarrow> bool" where
  "page_call command call rs \<longleftrightarrow> (\<exists>pre hdr rest. page_header hdr (length rs) \<and> length (hdr @ enc_meter_records rs) \<le> 255 \<and>
     call = ParseProfile command (pre @ hdr @ enc_meter_records rs @ rest, int (length pre)) (length (hdr @ enc_meter_records rs)))"

definition event_call :: "u8 \<Rightarrow> odm_call \<Rightarrow> meter_record list \<Rightarrow> bool" where
  "event_call kind call rs \<longleftrightarrow> (\<exists>pre hdr rest. page_header hdr (length rs) \<and> length (hdr @ enc_meter_records rs) \<le> 255 \<and>
     hdr ! 6 = kind \<and> kind \<noteq> EVENT_ALL \<and> kind \<le> 7 \<and>
     call = ParseProfile 8 (pre @ hdr @ enc_meter_records rs @ rest, int (length pre)) (length (hdr @ enc_meter_records rs)))"

text \<open>The contract of a parser: on a page it appends the records to its profile.  Then the pages of an
  answer are read as one list of records.\<close>

locale page_reader =
  fixes e :: env and page :: "odm_call \<Rightarrow> meter_record list \<Rightarrow> bool"
    and get_columns :: "odm_profiles \<Rightarrow> columns" and set_columns :: "columns \<Rightarrow> odm_profiles \<Rightarrow> odm_profiles"
  assumes page_read: "page call rs \<Longrightarrow> perform e call d = Some (set_columns (add_records e rs (get_columns d)) d)"
    and get_set: "get_columns (set_columns c d) = c"
    and set_get: "set_columns (get_columns d) d = d"
    and set_set: "set_columns c (set_columns c' d) = set_columns c d"
begin

lemma pages_read:
  "list_all2 page calls pages \<Longrightarrow>
    foldM (perform e) calls d = Some (set_columns (add_records e (concat pages) (get_columns d)) d)"
proof (induction calls pages arbitrary: d rule: list_all2_induct)
  case Nil
  show ?case by (simp add: add_records_def set_get)
next
  case (Cons call calls rs pages)
  then show ?case by (simp add: page_read get_set set_set add_records_append)
qed

end

lemma perform_page:
  assumes "page_call command call rs"
  obtains data len where "call = ParseProfile command data len" "\<And>c. read_page e data len c = Some (add_records e rs c)"
  using assms read_page_enc [of _ rs e] by (auto simp: page_call_def)

interpretation np_reader: page_reader e "page_call 0" name_plate "\<lambda>c d. d\<lparr>name_plate := c\<rparr>" for e
  by unfold_locales (auto elim!: perform_page [where e = e] simp: perform_def parse_nameplate_profile_def)

interpretation ip_reader: page_reader e "page_call 1" ip_profile "\<lambda>c d. d\<lparr>ip_profile := c\<rparr>" for e
  by unfold_locales (auto elim!: perform_page [where e = e] simp: perform_def parse_instantaneous_profile_def)

interpretation bh_reader: page_reader e "page_call 2" bh_profile "\<lambda>c d. d\<lparr>bh_profile := c\<rparr>" for e
  by unfold_locales (auto elim!: perform_page [where e = e] simp: perform_def parse_billing_history_profile_def)

interpretation dlp_reader: page_reader e "page_call 3" dlp_profile "\<lambda>c d. d\<lparr>dlp_profile := c\<rparr>" for e
  by unfold_locales (auto elim!: perform_page [where e = e] simp: perform_def parse_daily_load_profile_def)

interpretation blp_reader: page_reader e "page_call 4" blp_profile "\<lambda>c d. d\<lparr>blp_profile := c\<rparr>" for e
  by unfold_locales (auto elim!: perform_page [where e = e] simp: perform_def parse_block_load_profile_def)

interpretation event_reader: page_reader e "event_call kind" "\<lambda>d. event_profiles d kind" "set_event kind" for e kind
  by unfold_locales (auto simp: perform_def event_call_def event_page_roundtrip [simplified length_append])

text \<open>C16: when a meter sends its days page by page, however they are distributed over the pages, the
  request inserts exactly one row for each day, in order, with the time and the four readings of
  that day, and leaves the profile empty for the next request.\<close>

theorem daily_load_stored:
  assumes "list_all2 (page_call 3) calls pages" and "concat pages = concat (map day_records days)" and "days \<noteq> []"
    and "dlp_profile (profiles s) = no_columns"
  shows "\<exists>d s'. foldM (perform e) calls (profiles s) = Some d \<and> update_odm_db p DATA_TYPE_DLP (s\<lparr>profiles := d\<rparr>) = Some (True, s') \<and>
    written s' = written s @ success_status p # map (\<lambda>d. Insert (day_row e p d)) days \<and> dlp_profile (profiles s') = no_columns"
proof -
  let ?s = "s\<lparr>profiles := profiles s\<lparr>dlp_profile := day_columns e days\<rparr>\<rparr>"
  have "foldM (perform e) calls (profiles s) = Some (profiles ?s)"
    using dlp_reader.pages_read [OF assms(1), of e "profiles s"] assms(2,4) by (simp add: day_columns_def)
  moreover have "\<exists>s'. update_odm_db p DATA_TYPE_DLP ?s = Some (True, s') \<and>
      written s' = written ?s @ success_status p # map (\<lambda>d. Insert (day_row e p d)) days \<and> dlp_profile (profiles s') = no_columns"
    using days_inserted [OF assms(3), of ?s e p] by auto
  ultimately show ?thesis by simp
qed


text \<open>C30: a day without readings breaks the request: when a page names the time of a further day and then
  holds a record without a value, the rest of the page is lost, the columns are of different lengths,
  and the insertion indexes outside a vector.\<close>

theorem missing_reading_undefined:
  fixes pre hdr rest :: bytes
  defines "records ds t \<equiv> concat (map day_records ds) @ [(0, 0, FDateTime t)]"
  assumes "page_header hdr (length (records days t) + Suc n)" and "12 + length (enc_meter_records (records days t)) \<le> min 255 len"
    and "days \<noteq> []" and "dlp_profile (profiles s) = no_columns"
  shows "\<exists>d. perform e (ParseProfile 3 (pre @ hdr @ enc_meter_records (records days t) @ [k, st, 0] @ rest, int (length pre)) len) (profiles s)
      = Some d \<and> update_odm_db p DATA_TYPE_DLP (s\<lparr>profiles := d\<rparr>) = None"
proof -
  let ?c = "add_records e (records days t) no_columns"
  let ?d = "profiles s\<lparr>dlp_profile := ?c\<rparr>"
  have cols: "?c k = map (day_value e k) days @ (if k = 0 then [field_value e (FDateTime t)] else [])" if "k \<in> {0, 1, 2, 3, 4}" for k
  proof -
    have "?c k = day_columns e days k @ (if k = 0 then [field_value e (FDateTime t)] else [])"
      by (simp add: records_def day_columns_def add_records_column)
    then show ?thesis using day_columns_column [OF that] by simp
  qed
  then have "?c k \<noteq> []" if "k \<in> {0, 1, 2, 3, 4}" for k
    using that assms(4) by simp
  moreover have "typed ?c" by (simp add: typed_records)
  ultimately have v: "validate_DLP_for_db ?c = ?c"
    by (simp add: validate_DLP_for_db_def ensure_dlms_value_id)
  have "length (?c 0) = Suc (length days)" "cell_at ?c 1 (length days) = None"
    using cols [of 0] cols [of 1] by (simp_all add: cell_at_def)
  then have "insert_rows (dlp_row p ?c) (length (?c 0)) s' = None" for s'
    by (intro insert_rows_None [of "length days"]) (simp_all add: dlp_row_def scaled_entry_def split: bind_splits)
  then have "update_odm_db p DATA_TYPE_DLP (s\<lparr>profiles := ?d\<rparr>) = None"
    by (simp add: update_odm_db_def process_DLP_case_def on_profiles_def v Let_def write_op_def)
  moreover have "perform e (ParseProfile 3 (pre @ hdr @ enc_meter_records (records days t) @ [k, st, 0] @ rest, int (length pre)) len) (profiles s)
      = Some ?d"
    using none_record_hides_rest [OF assms(2,3), of e pre k st rest "profiles s"] assms(5) by (simp add: perform_def)
  ultimately show ?thesis by blast
qed

section \<open>Voltage events\<close>

text \<open>An event: its time, code, current, voltage, power factor, energy and the number of tampers so far.\<close>

type_synonym meter_event = "u32 \<times> u16 \<times> u16 \<times> u16 \<times> u16 \<times> u32 \<times> u16"

fun event_records :: "meter_event \<Rightarrow> meter_record list" where
  "event_records (t, code, cur, volt, pf, kwh, n) = [(0, 0, FDateTime t), (1, 0, FUint16 code), (2, 0, FUint16 cur), (3, 0, FUint16 volt),
     (4, 0, FInt16 pf), (5, 0, FUint32 kwh), (6, 0, FUint16 n)]"

fun event_row :: "env \<Rightarrow> odm_parameters \<Rightarrow> meter_event \<Rightarrow> insertion" where
  "event_row e p (t, code, cur, volt, pf, kwh, n) = (''voltage_tamper_data'', meter_cells p @
     [(''date_time_of_event'', Str (c_str (chars (format_timestamp e (t - SECONDS_5H30M))))), (''event_code'', Whole (CastInt (uint code)) 1),
      (''current'', Scaled (CastInt (uint cur)) (OneBy 100)), (''voltage'', Scaled (CastInt (uint volt)) (OneBy 100)),
      (''power_factor'', Scaled (CastInt (sint pf)) (OneBy 1000)), (''cumulative_kwh'', Scaled (CastInt (uint kwh)) (OneBy 1000)),
      (''cumulative_tamper_count'', Whole (CastInt (uint n)) 1)] @ request_cells p @ [error_cell, (''tamper_type_index'', Num 1)])"

fun event_value :: "env \<Rightarrow> u8 \<Rightarrow> meter_event \<Rightarrow> dlms_value" where
  "event_value e k (t, code, cur, volt, pf, kwh, n) = field_value e
     (if k = 0 then FDateTime t else if k = 1 then FUint16 code else if k = 2 then FUint16 cur else if k = 3 then FUint16 volt
      else if k = 4 then FInt16 pf else if k = 5 then FUint32 kwh else FUint16 n)"

definition event_columns :: "env \<Rightarrow> meter_event list \<Rightarrow> columns" where
  "event_columns e events = add_records e (concat (map event_records events)) no_columns"

lemma event_columns_column:
  assumes "k \<in> {0, 1, 2, 3, 4, 5, 6}"
  shows "event_columns e events k = map (event_value e k) events"
proof -
  have "map (\<lambda>(k, st, f). field_value e f) (filter (\<lambda>r. fst r = k) (event_records d)) = [event_value e k d]" for d
    using assms by (cases d) auto
  then show ?thesis by (simp add: event_columns_def add_records_column no_columns_def map_filter_concat)
qed

lemma event_columns_valid:
  assumes "events \<noteq> []"
  shows "validate_long_event_for_db (event_columns e events) = event_columns e events"
proof -
  have "typed (event_columns e events)" by (simp add: event_columns_def typed_records)
  moreover have "event_columns e events k \<noteq> []" if "k \<in> {0, 1, 2, 3, 4, 5, 6}" for k
    using assms by (simp add: event_columns_column [OF that])
  ultimately show ?thesis
    by (simp add: validate_long_event_for_db_def ensure_dlms_value_id)
qed

lemma uint16_fits: "fits_unsigned (CastInt (uint (w :: u16)))"
  using unsigned_less [of w, where ?'a = int] by simp

lemma last_event_row:
  assumes "events \<noteq> []"
  shows "long_event_row ''voltage_tamper_data'' 1 p (event_columns e events) = Some (event_row e p (last events))"
proof -
  have col: "last (event_columns e events k) = event_value e k (last events)" if "k \<in> {0, 1, 2, 3, 4, 5, 6}" for k
    using assms by (simp add: event_columns_column [OF that] last_map)
  obtain t code cur volt pf kwh n where "last events = (t, code, cur, volt, pf, kwh, n)" by (cases "last events") auto
  then show ?thesis
    by (simp add: long_event_row_def col to_unsigned_def)
      (simp add: getAsString_def setString_def set_member_def new_value_def getAsFloat_def as_number_def uint16_fits del: fits_unsigned.simps)
qed

text \<open>C31: of all the voltage events that a meter sends, only the last one is inserted; the others are
  read and thrown away.\<close>

theorem only_last_event_stored:
  assumes "list_all2 (event_call 1) calls pages" and "concat pages = concat (map event_records events)" and "events \<noteq> []"
    and "event_profiles (profiles s) 1 = no_columns" and "query_results s = []"
  shows "\<exists>d s'. foldM (perform e) calls (profiles s) = Some d \<and>
    update_odm_db p DATA_TYPE_VOLTAGE_EVENTS (s\<lparr>profiles := d\<rparr>) = Some (True, s') \<and>
    written s' = written s @ [success_status p, Insert (event_row e p (last events))] \<and> event_profiles (profiles s') = (\<lambda>k. no_columns)"
proof -
  let ?c = "event_columns e events"
  let ?d = "set_event 1 ?c (profiles s)"
  have "foldM (perform e) calls (profiles s) = Some ?d"
    using event_reader.pages_read [OF assms(1), of e "profiles s"] assms(2,4) by (simp add: event_columns_def)
  moreover have "event_insertion 1 p (s\<lparr>profiles := ?d\<rparr>)
      = Some (Insert (event_row e p (last events)), s\<lparr>profiles := ?d, written := written s @ [success_status p]\<rparr>)"
    by (simp add: event_insertion_def event_table_def on_profiles_def write_op_def event_columns_valid [OF assms(3)] last_event_row [OF assms(3)])
  ultimately show ?thesis
    using assms(5) by (simp add: update_odm_db_def odm_statement_def Let_def execute_query_def write_op_def on_profiles_def clear_profile_for_type_def)
qed

text \<open>A billing date that was read as text is taken for the twelve bytes of a binary date.\<close>

lemma billing_date_garbled: "parse_dlms_datetime (chars ''2025-06-12 00:00:00'') = Some ''12848-50-53 48:54''"
  by (simp add: parse_dlms_datetime_def be16_def dec_pad_def dec.simps hexdig_def Let_def)

section \<open>Concrete inputs\<close>

definition example_parameters :: odm_parameters where
  "example_parameters = \<lparr>req_id = 7, meter_mac_address = ''3CC1F601A3535435'', meter_serial_no = ''A3535435'',
     db_gateway_id = ''3CC1F601'', last_download_time = ''2025-06-12 10:00:00'', push_alaram = 2, db_status = 3\<rparr>"

definition example_store :: odm_store where
  "example_store = \<lparr>profiles = no_profiles, query_results = [], written = []\<rparr>"

definition example_page :: "u8 \<Rightarrow> u8 \<Rightarrow> meter_record list \<Rightarrow> bytes" where
  "example_page command kind rs = [0x2D, 0, word_of_nat (9 + length (enc_meter_records rs)), 0, 0x0E, command, kind, 0, word_of_nat (length rs)]
     @ enc_meter_records rs"

definition example_call :: "u8 \<Rightarrow> u8 \<Rightarrow> meter_record list \<Rightarrow> odm_call" where
  "example_call command kind rs = ParseProfile command (example_page command kind rs, 0) (length (example_page command kind rs))"

lemma example_call_page:
  assumes "9 + length (enc_meter_records rs) \<le> 255"
  shows "page_call command (example_call command kind rs) rs"
    and "command = 8 \<Longrightarrow> kind = 1 \<Longrightarrow> event_call 1 (example_call command kind rs) rs"
proof -
  let ?hdr = "[0x2D, 0, word_of_nat (9 + length (enc_meter_records rs)), 0, 0x0E, command, kind, 0, word_of_nat (length rs)] :: bytes"
  have h: "page_header ?hdr (length rs)" "length (?hdr @ enc_meter_records rs) \<le> 255"
    using assms enc_meter_records_length [of rs] by (simp_all add: page_header_def)
  have c: "example_call command kind rs = ParseProfile command ([] @ ?hdr @ enc_meter_records rs @ [], int (length ([] :: bytes)))
      (length (?hdr @ enc_meter_records rs))"
    by (simp add: example_call_def example_page_def)
  show "page_call command (example_call command kind rs) rs"
    unfolding page_call_def using h c by blast
  assume "command = 8" "kind = 1"
  with h c show "event_call 1 (example_call command kind rs) rs"
    unfolding event_call_def by (intro exI [of _ "[]"] exI [of _ ?hdr]) simp
qed

lemma day_records_length: "length (enc_meter_records (day_records d)) = 35"
  by (cases d) (simp add: enc_meter_records_def has_length_def)

lemma event_records_length: "length (enc_meter_records (event_records v)) = 39"
  by (cases v) (simp add: enc_meter_records_def has_length_def)

abbreviation (input) example_days :: "day list" where
  "example_days \<equiv> [(0x684A1F00, 10, 20, 30, 40), (0x684B7080, 11, 21, 31, 41)]"

abbreviation (input) example_event :: "u16 \<Rightarrow> meter_event" where
  "example_event code \<equiv> (0x684A1F00, code, 500, 23000, 950, 1000, 3)"

lemma example_calls:
  "list_all2 (page_call 3) (map (\<lambda>d. example_call 3 0 (day_records d)) ds) (map day_records ds)"
  "list_all2 (event_call 1) (map (\<lambda>v. example_call 8 1 (event_records v)) vs) (map event_records vs)"
  using example_call_page by (simp_all add: list_all2_map1 list_all2_map2 list.rel_refl day_records_length event_records_length)

lemma example_store_empty:
  "dlp_profile (profiles example_store) = no_columns" "event_profiles (profiles example_store) 1 = no_columns"
  "query_results example_store = []" "written example_store = []"
  by (simp_all add: example_store_def no_profiles_def)

theorem daily_load_stored_witness:
  "\<exists>d s'. foldM (perform example_env) (map (\<lambda>d. example_call 3 0 (day_records d)) example_days) (profiles example_store) = Some d \<and>
    update_odm_db example_parameters DATA_TYPE_DLP (example_store\<lparr>profiles := d\<rparr>) = Some (True, s') \<and>
    written s' = success_status example_parameters # map (\<lambda>d. Insert (day_row example_env example_parameters d)) example_days \<and>
    dlp_profile (profiles s') = no_columns"
  using daily_load_stored [OF example_calls(1) refl _ example_store_empty(1), of example_days example_env example_parameters]
  by (simp add: example_store_empty)


theorem only_last_event_stored_witness:
  "\<exists>d s'. foldM (perform example_env) [example_call 8 1 (event_records (example_event 1)), example_call 8 1 (event_records (example_event 2))]
      (profiles example_store) = Some d \<and>
    update_odm_db example_parameters DATA_TYPE_VOLTAGE_EVENTS (example_store\<lparr>profiles := d\<rparr>) = Some (True, s') \<and>
    written s' = [success_status example_parameters, Insert (event_row example_env example_parameters (example_event 2))]"
  using only_last_event_stored [OF example_calls(2) refl _ example_store_empty(2,3), of "[example_event 1, example_event 2]" example_env example_parameters]
  by (simp add: example_store_empty) blast

theorem missing_reading_undefined_witness:
  "\<exists>d. perform example_env (ParseProfile 3 ([0, 0] @ example_header 10 @
        enc_meter_records (concat (map day_records [hd example_days]) @ [(0, 0, FDateTime 0x684B7080)]) @ [1, 0, 0] @ [2, 0, 0, 3, 0, 0, 4, 0, 0, 99], 2) 63)
      (profiles example_store) = Some d \<and>
    update_odm_db example_parameters DATA_TYPE_DLP (example_store\<lparr>profiles := d\<rparr>) = None"
proof -
  have r: "length (enc_meter_records (concat (map day_records [hd example_days]) @ [(0, 0, FDateTime 0x684B7080)])) = 42"
    by (simp add: enc_meter_records_def has_length_def)
  have h: "page_header (example_header 10) (length (concat (map day_records [hd example_days]) @ [(0, 0, FDateTime 0x684B7080)]) + Suc 3)"
    using example_header_ok [of 10] by simp
  show ?thesis
    using missing_reading_undefined [OF h _ _ example_store_empty(1), of 63 example_env "[0, 0]" 1 0 "[2, 0, 0, 3, 0, 0, 4, 0, 0, 99]" example_parameters] r
    by simp
qed

end
