(* ===== verification/Odm_Bounds.thy ===== *)
theory Odm_Bounds
  imports Odm_Readers Transmit
begin

text \<open>
  Receptions and readers together (\<open>HES/src/client.cpp\<close>): whatever bytes arrive, the readers that a
  reception calls stay inside the receive buffer of 4096 bytes, because at most eleven packets of at
  most 256 bytes are looked at and a reader goes at most 514 bytes beyond its start.  No code of its own.
\<close>

section \<open>Where the readers start\<close>

text \<open>A call whose data start at most \<open>k\<close> bytes behind the beginning of the buffer.\<close>

definition starts_within :: "bytes \<Rightarrow> int \<Rightarrow> odm_call \<Rightarrow> bool" where
  "starts_within m k call \<longleftrightarrow> (case call of ParseProfile command data len \<Rightarrow> data
     | ParseScalarProfile command data \<Rightarrow> data | SingleObisRead data len \<Rightarrow> data) \<in> {m} \<times> {0..k}"

definition logs :: "bytes \<Rightarrow> int \<Rightarrow> client \<Rightarrow> client \<Rightarrow> bool" where
  "logs m k c c' \<longleftrightarrow> (\<exists>calls. odm_log c' = odm_log c @ calls \<and> (\<forall>call \<in> set calls. starts_within m k call))"

lemma logs_same: "odm_log c' = odm_log c \<Longrightarrow> logs m k c c'"
  by (simp add: logs_def)

lemma logs_one: "odm_log c' = odm_log c @ [call] \<Longrightarrow> starts_within m k call \<Longrightarrow> logs m k c c'"
  by (simp add: logs_def)

lemma logs_trans: "logs m k a b \<Longrightarrow> logs m k b c \<Longrightarrow> logs m k a c"
  by (auto simp: logs_def)

lemma logs_mono: "logs m k a b \<Longrightarrow> k \<le> k' \<Longrightarrow> logs m k' a b"
  by (fastforce simp: logs_def starts_within_def)

text \<open>Validation and the states of the pull do not call readers.\<close>

lemma odm_log_set_node [simp]: "odm_log (set_node mac node c) = odm_log c"
  by (simp add: set_node_def)

lemma accept_packet_log: "accept_packet b c = Some (r, c') \<Longrightarrow> odm_log c' = odm_log c"
  by (auto simp: accept_packet_def Let_def split: if_splits bind_splits)

lemma is_valid_packet_log: "is_valid_packet b len c = Some (r, c') \<Longrightarrow> odm_log c' = odm_log c"
  by (auto simp: is_valid_packet_def Let_def elim!: ifB_elim split: if_splits bind_splits)

lemma processPacketType_log: "processPacketType b len c = Some (r, c') \<Longrightarrow> odm_log c' = odm_log c"
  unfolding processPacketType_def by (elim ifB_elim) (auto elim: accept_packet_log)

lemma profile_page_response_log: "profile_page_response f b len mac node c = Some (r, c') \<Longrightarrow> odm_log c' = odm_log c"
  by (auto simp: profile_page_response_def split: bind_splits)

lemma profile_response_log: "profile_response cmd f b len c = Some (r, c') \<Longrightarrow> odm_log c' = odm_log c"
  unfolding profile_response_def
  by (erule with_current_node_elim) (auto elim!: ifB_elim dest: profile_page_response_log)

lemma ip_response_log: "ip_response b len c = Some (r, c') \<Longrightarrow> odm_log c' = odm_log c"
  unfolding ip_response_def
  by (erule with_current_node_elim) (auto elim!: ifB_elim dest: profile_page_response_log)

lemma internal_fv_response_log: "internal_fv_response b c = Some (r, c') \<Longrightarrow> odm_log c' = odm_log c"
  unfolding internal_fv_response_def Let_def
  by (erule with_current_node_elim) (auto elim!: ifB_elim split: bind_splits if_splits)

lemma pull_response_log: "pull_response b len c = Some (r, c') \<Longrightarrow> odm_log c' = odm_log c"
  unfolding pull_response_def fuota_status_response_def at_response_def dlms_connect_response_def
  by (auto split: current_state.splits elim!: ifB_elim dest: profile_response_log ip_response_log internal_fv_response_log)

lemma note_remaining_log: "note_remaining b c = Some c' \<Longrightarrow> odm_log c' = odm_log c"
  by (auto simp: note_remaining_def split: if_splits bind_splits)

text \<open>The start byte that a data response is searched for lies inside its packet.\<close>

lemma memchr_bound: "memchr p v n = Some (Some i) \<Longrightarrow> 0 \<le> i \<and> i < int n"
  by (induction n arbitrary: p i) (fastforce split: if_splits bind_splits)+

lemma odm_frame_response_log:
  assumes "odm_frame_response h (m, b) (m, d) n c = Some (r, c')" and "0 \<le> b" "b \<le> k" "0 \<le> d" "d \<le> k"
  shows "logs m k c c'"
  using assms(1)
  by (auto simp: odm_frame_response_def Let_def logs_def starts_within_def assms(2-) split: if_splits bind_splits)

lemma mesh_data_response_log:
  assumes "mesh_data_response h (m, b) len c = Some (r, c')" and "0 \<le> b" "0 \<le> len"
  shows "logs m (b + max len 17) c c'"
proof -
  obtain c1 found where c1: "note_remaining (m, b) c = Some c1" "memchr (padd (m, b) 17) PULL_START_BYTE (nat (len - 17)) = Some found"
    using assms(1) by (auto simp: mesh_data_response_def split: bind_splits)
  have same: "odm_log c1 = odm_log c" using c1(1) by (rule note_remaining_log)
  show ?thesis
  proof (cases found)
    case None
    with assms(1) c1 same show ?thesis by (auto simp: mesh_data_response_def intro: logs_same)
  next
    case (Some i)
    have i: "0 \<le> i" "17 + i < len"
      using memchr_bound [OF c1(2) [unfolded Some]] by (auto split: if_splits)
    have "c' = c1 \<or> (\<exists>n ret c2. odm_frame_response h (m, b) (m, b + (17 + i)) n c1 = Some (ret, c2) \<and> c' = c2)"
      using assms(1) c1 Some by (auto simp: mesh_data_response_def Let_def split: if_splits bind_splits option.splits)
    then show ?thesis
    proof
      assume "c' = c1"
      with same show ?thesis by (auto intro: logs_same)
    next
      assume "\<exists>n ret c2. odm_frame_response h (m, b) (m, b + (17 + i)) n c1 = Some (ret, c2) \<and> c' = c2"
      then obtain n ret where "odm_frame_response h (m, b) (m, b + (17 + i)) n c1 = Some (ret, c')" by blast
      from odm_frame_response_log [OF this, of "b + max len 17"] assms(2,3) i have "logs m (b + max len 17) c1 c'"
        by simp
      then show ?thesis using same by (simp add: logs_def)
    qed
  qed
qed

lemma other_response_log:
  assumes "other_response h (m, b) len c = Some (r, c')" and "0 \<le> b" "0 \<le> len"
  shows "logs m (b + max len 17) c c'"
  using assms
  by (auto simp: other_response_def intro: logs_same split: if_splits bind_splits dest: mesh_data_response_log)

lemma client_process_data_log:
  assumes "client_process_data h (m, b) len c = Some (r, c')" and "0 \<le> b" "0 \<le> len"
  shows "logs m (b + max len 17) c c'"
proof (cases "\<exists>s. c' = c\<lparr>push := s\<rparr>")
  case True
  then show ?thesis by (auto intro: logs_same)
next
  case False
  with assms(1) obtain v c1 where c1: "processPacketType (m, b) len c = Some (v, c1)" "v \<noteq> SUCCESS \<Longrightarrow> c' = c1"
    "v = SUCCESS \<Longrightarrow> \<exists>ret c2. (case targetState c1 of PULL \<Rightarrow> pull_response (m, b) len c1 | TARGET_IDLE \<Rightarrow> Some (None, c1)) = Some (ret, c2)
      \<and> (c' = c2 \<or> other_response h (m, b) len c2 = Some (r, c'))"
    unfolding client_process_data_def
    by (elim ifB_elim) (auto split: bind_splits if_splits option.splits)
  have 1: "odm_log c1 = odm_log c" using c1(1) by (rule processPacketType_log)
  show ?thesis
  proof (cases "v = SUCCESS")
    case False
    with c1(2) 1 show ?thesis by (auto intro: logs_same)
  next
    case True
    with c1(3) obtain ret c2 where c2: "(case targetState c1 of PULL \<Rightarrow> pull_response (m, b) len c1 | TARGET_IDLE \<Rightarrow> Some (None, c1)) = Some (ret, c2)"
      "c' = c2 \<or> other_response h (m, b) len c2 = Some (r, c')" by blast
    have "odm_log c2 = odm_log c1"
      using c2(1) by (auto split: target_state.splits dest: pull_response_log)
    with 1 c2(2) other_response_log [OF _ assms(2,3), of h m c2 r c'] show ?thesis
      by (auto simp: logs_def)
  qed
qed

lemma validate_received_data_log:
  assumes "validate_received_data h (m, b) len c = Some (r, c')" and "0 \<le> b" "0 \<le> len"
  shows "logs m (b + max len 17) c c'"
proof -
  obtain v c1 where "is_valid_packet (m, b) len c = Some (v, c1)" "c' = c1 \<or> client_process_data h (m, b) len c1 = Some (r, c')"
    using assms(1) by (auto simp: validate_received_data_def split: bind_splits if_splits)
  with is_valid_packet_log [OF this(1)] client_process_data_log [OF _ assms(2,3), of h m c1 r c'] show ?thesis
    by (auto simp: logs_def)
qed

lemma received_loop_log:
  assumes "received_loop h (m, 0) len off k r0 c = Some (r, c')" and "0 \<le> off"
  shows "logs m (off + 256 * int (Suc k)) c c'"
  using assms
proof (induction k arbitrary: off r0 c)
  case 0
  then show ?case
    using validate_received_data_log [of h m off _ c r c'] u8_bounds
    by (subst (asm) received_loop.simps) (fastforce simp: Let_def intro: logs_same logs_mono split: bind_splits if_splits)
next
  case (Suc k)
  show ?case
  proof (cases "len > off")
    case False
    with Suc.prems show ?thesis by (subst (asm) received_loop.simps) (auto intro: logs_same)
  next
    case True
    then obtain l r1 c1 where l: "validate_received_data h (m, off) (uint (l :: u8) + 1) c = Some (r1, c1)"
        "received_loop h (m, 0) len (off + (uint l + 1)) k r1 c1 = Some (r, c')"
      using Suc.prems(1) by (subst (asm) received_loop.simps) (auto simp: Let_def split: bind_splits)
    have "logs m (off + 256 * int (Suc (Suc k))) c c1"
      using validate_received_data_log [OF l(1)] Suc.prems(2) u8_bounds [of l] by (auto elim!: logs_mono)
    moreover have "logs m (off + 256 * int (Suc (Suc k))) c1 c'"
      using Suc.IH [OF l(2)] Suc.prems(2) u8_bounds [of l] by (auto elim!: logs_mono)
    ultimately show ?thesis by (rule logs_trans)
  qed
qed

section \<open>Every call can be carried out\<close>

lemma single_obis_total:
  assumes "spans p 514"
  shows "\<exists>r s'. read_single_obis e p s = Some (r, s')"
proof -
  have b: "rd p k = Some (byte p k)" if "0 \<le> k" "k < 40" for k
    using that rd_spans [OF assms, of k] by simp
  have seq: "\<exists>bs. rd_seq p k n = Some bs \<and> length bs = n" if "0 \<le> k" "k + int n \<le> 40" for k n
    using rd_seq_spans [OF assms, of k n] that rd_seq_length by fastforce
  obtain b12 b14 c14 where "rd_seq p (17 + 12) 4 = Some b12" "length b12 = 4" "rd_seq p (17 + 14) 4 = Some b14" "length b14 = 4"
      "rd_seq p (17 + 14) 2 = Some c14" "length c14 = 2"
    using seq [of "17 + 12" 4] seq [of "17 + 14" 4] seq [of "17 + 14" 2] by auto
  then obtain w12 w14 v14 where "rd_data32 p 12 = Some w12" "rd_data32 p 14 = Some w14" "rd_data16 p 14 = Some v14"
    using dread_widths(3) [of 0 b12] dread_widths(3) [of 0 b14] dread_widths(2) [of 0 c14]
    by (auto simp: rd_data32_def rd_data16_def)
  then show ?thesis
    by (simp add: read_single_obis_def obis_rtc_def obis_period_def obis_load_limit_def obis_load_status_def obis_schedule_def b Let_def)
qed

lemma perform_total:
  assumes "starts_within m k call" and "k + 514 \<le> int (length m)"
  shows "\<exists>s'. perform e call s = Some s'"
proof -
  have data: "spans data 514" if "data \<in> {m} \<times> {0..k}" for data
    using that assms(2) by auto
  show ?thesis
  proof (cases call)
    case (ParseProfile command data len)
    then have "spans data 514" using assms(1) data by (simp add: starts_within_def)
    with profile_readers_bounded [of data e command len s] ParseProfile show ?thesis by simp
  next
    case (ParseScalarProfile command data)
    then show ?thesis by (simp add: perform_def)
  next
    case (SingleObisRead data len)
    then have "spans data 514" using assms(1) data by (simp add: starts_within_def)
    from single_obis_total [OF this, of e s] SingleObisRead show ?thesis by (auto simp: perform_def)
  qed
qed

lemma calls_total:
  assumes "\<forall>call \<in> set calls. starts_within m k call" and "k + 514 \<le> int (length m)"
  shows "\<exists>s'. foldM (perform e) calls s = Some s'"
  using foldM_ex [of "\<lambda>s. True" s calls "perform e"] perform_total [OF _ assms(2)] assms(1) by blast

lemma client_received_data_log:
  assumes "client_received_data h (m, 0) len c = Some (r, c')" and "\<not> comm_init_status c"
  shows "logs m 2816 c c'"
proof (cases "len > MAX_CLIENT_RX_BUFFER")
  case True
  with assms show ?thesis by (auto simp: client_received_data_def intro: logs_same)
next
  case False
  with assms obtain bs where "received_loop h (m, 0) len 0 10 0
      (c\<lparr>client_rx_buffer := bs @ replicate (4096 - length bs) 0, buffer_rx_length := len\<rparr>) = Some (r, c')"
    by (auto simp: client_received_data_def Let_def split: bind_splits)
  from received_loop_log [OF this] show ?thesis by (simp add: logs_def)
qed

lemma recv_log: "recv n c = (r, b, c') \<Longrightarrow> odm_log c' = odm_log c \<and> length b = n"
  unfolding recv_def by (auto split: list.splits prod.splits rx.splits if_splits)

lemma get_destination_address_log: "get_destination_address p c = Some c' \<Longrightarrow> odm_log c' = odm_log c"
  unfolding get_destination_address_def by (auto simp: Let_def ifB_eq_Some_iff split: bind_splits if_splits)

lemma write_to_client_log:
  assumes "write_to_client buf c = Some (r, c')"
  shows "odm_log c' = odm_log c"
proof -
  obtain c1 where "get_destination_address (buf, 0) c = Some c1" "c' = snd (send_loop CONNECTED buf c1)"
    using assms by (auto simp: write_to_client_def split: bind_splits)
  with send_loop_only [of CONNECTED buf c1] get_destination_address_log [of "(buf, 0)" c c1] show ?thesis by auto
qed

lemma receive_data_log:
  assumes "receive_data n c = Some (k, b, c')"
  shows "odm_log c' = odm_log c \<and> length b = n"
proof -
  obtain r buff c1 where r: "recv n c = (r, buff, c1)" by (rule prod_cases3)
  with assms obtain c2 where "c2 = c1 \<or> (\<exists>w. write_to_client [0x50, 0x4F, 0x4E, 0x47] c1 = Some (w, c2))"
      "c' = c2 \<or> c' = c2\<lparr>gatewayStatus := DISCONNECTED\<rparr>" "b = buff"
    unfolding receive_data_def by (auto simp: Let_def split: bind_splits if_splits rx.splits)
  with recv_log [OF r] show ?thesis by (auto dest: write_to_client_log)
qed


section \<open>Concrete input\<close>

definition example_answer_packet :: bytes where
  "example_answer_packet = [HES_START_BYTE, 30, MESH_DATA_RESPONSE, 0, 0, 0x54, 0x35, 0xA3, 0x53, 0x54, 0x35] @ example_dst
     @ [0, 0, 0x2D, 0, 13, 0, 0x0E, 3, 0, 0, 1, 1, 0, 0x11, 7, 0x65]"

definition example_waiting :: client where
  "example_waiting = example_client\<lparr>inbox := [(example_env, RxData example_answer_packet)]\<rparr>"

text \<open>For evaluation: a read looks only as far into the array as it reads.\<close>

lemma rd_code [code]:
  "rd (m, b) k = (if b + k < 0 then None else case drop (nat (b + k)) m of [] \<Rightarrow> None | x # xs \<Rightarrow> Some x)"
proof (cases "0 \<le> b + k \<and> b + k < int (length m)")
  case True
  then have "nat (b + k) < length m" by (simp add: nat_less_iff)
  from Cons_nth_drop_Suc [OF this] True show ?thesis
    by (metis rd.simps list.case(2) not_less)
next
  case False
  then show ?thesis by (auto simp: rd.simps)
qed

lemma example_answer_validated:
  "map_option (\<lambda>(r, c). (r, length (odm_log c))) (validate_received_data example_hooks (example_answer_packet @ z, 0) 31
     (example_client\<lparr>client_rx_buffer := rx, buffer_rx_length := n\<rparr>)) = Some (SUCCESS, 1)"
  by code_simp

lemma example_answer_head:
  "rd_seq (example_answer_packet @ z, 0) 0 4 = Some [HES_START_BYTE, 30, MESH_DATA_RESPONSE, 0]"
  "rd (example_answer_packet @ z, 0) 1 = Some 30" "length example_answer_packet = 31"
  by (code_simp, code_simp, simp add: example_answer_packet_def example_dst_def)

lemma received_single:
  assumes "rd (m, 0) 1 = Some 30" and "validate_received_data h (m, 0) 31 c = Some (r, c')"
  shows "received_loop h (m, 0) 31 0 (Suc k) 0 c = Some (r, c')"
proof -
  have "received_loop h (m, 0) 31 31 k r c' = Some (r, c')" by (subst received_loop.simps) simp
  then show ?thesis using assms by (subst received_loop.simps) simp
qed

lemma example_answer_received: "receive_data 4096 example_waiting = Some (31, example_answer_packet @ replicate 4065 0, example_client)"
proof -
  have "recv 4096 example_waiting = (RxData example_answer_packet, example_answer_packet @ replicate 4065 0, example_client)"
    using example_answer_head(3) by (auto simp: recv_def example_waiting_def example_client_def simp del: replicate.simps)
  then show ?thesis
    using example_answer_head(3) by (simp add: receive_data_def example_answer_head(1) del: replicate.simps)
qed

lemma example_answer_read:
  "\<exists>c'. receive_data_and_validate_response example_hooks example_waiting = Some (SUCCESS, c') \<and> length (odm_log c') = 1"
proof -
  let ?m = "example_answer_packet @ replicate 4065 0"
  obtain bs where bs: "rd_seq (?m, 0) 0 31 = Some bs"
    using rd_seq_prefix [of example_answer_packet "replicate 4065 0"] example_answer_head(3) by simp
  define c where "c = example_client\<lparr>client_rx_buffer := bs @ replicate (4096 - length bs) 0, buffer_rx_length := 31\<rparr>"
  obtain c' where c': "validate_received_data example_hooks (?m, 0) 31 c = Some (SUCCESS, c')" "length (odm_log c') = 1"
    using example_answer_validated [of "replicate 4065 0" 31 "bs @ replicate (4096 - length bs) 0"] unfolding c_def by auto
  have "received_loop example_hooks (?m, 0) 31 0 10 0 c = Some (SUCCESS, c')"
    using received_single [OF example_answer_head(2) c'(1), of 9] by simp
  then have "client_received_data example_hooks (?m, 0) 31 example_client = Some (SUCCESS, c')"
    using bs by (simp add: client_received_data_def MAX_CLIENT_RX_BUFFER_def c_def example_client_settings(1) del: replicate.simps)
  then show ?thesis
    using c'(2) by (simp add: receive_data_and_validate_response_def example_answer_received del: replicate.simps)
qed


end
