(* ===== verification/Db_Rows.thy ===== *)
theory Db_Rows
  imports Odm_Rows
begin

text \<open>
  The insertions of pushed and pulled profiles (\<open>HES/src/database.cpp\<close>): what the entries of \<open>db_log\<close> write into the
  tables.  The lemmas compare these rows with the ones that an on-demand request makes of the same
  records: they agree for the block load, and for the daily load in everything but the time.
\<close>

section \<open>State\<close>

text \<open>The results that the statements to come will have (none left means success), and what was written.\<close>

record db_conn =
  conn_results :: "int list"
  conn_written :: "insertion list"

definition run_insertion :: "insertion \<Rightarrow> db_conn \<Rightarrow> int \<times> db_conn" where
  "run_insertion row c =
     (let c = c\<lparr>conn_written := conn_written c @ [row]\<rparr> in
      case conn_results c of [] \<Rightarrow> (SUCCESS, c) | r # rs \<Rightarrow> (r, c\<lparr>conn_results := rs\<rparr>))"

section \<open>Reading the records\<close>

text \<open>The conversions of a \<open>double\<close> to an integer are undefined outside the range of its type.  The parsers
  store no value of a floating type; for these the conversions are not modelled.\<close>

definition get_numeric_or_default :: "record_map \<Rightarrow> u8 \<Rightarrow> number option" where
  "get_numeric_or_default records tag = map_option (\<lambda>n. case n of Some x \<Rightarrow> x | None \<Rightarrow> CastInt 0) (get_numeric records tag)"

definition integral :: "number \<Rightarrow> int option" where
  "integral n = (case n of CastInt i \<Rightarrow> Some i | _ \<Rightarrow> None)"

definition cast_within :: "int \<Rightarrow> int \<Rightarrow> int \<Rightarrow> int option" where
  "cast_within lo hi i = (if lo \<le> i \<and> i < hi then Some i else None)"

definition get_int :: "record_map \<Rightarrow> u8 \<Rightarrow> int option" where
  "get_int records tag = do { n \<leftarrow> get_numeric_or_default records tag; integral n }"

text \<open>The time in record 0, some seconds earlier, as text.\<close>

definition record_time :: "env \<Rightarrow> int \<Rightarrow> record_map \<Rightarrow> cell option" where
  "record_time e shift records = do {
     rtc_raw \<leftarrow> get_int records 0;
     w \<leftarrow> cast_within 0 (2 ^ 32) (rtc_raw - shift);
     Some (text_cell (format_timestamp e (word_of_int w)))
   }"

text \<open>A reading with its scaler, printed with the given decimals.\<close>

definition reading :: "cstr \<Rightarrow> record_map \<Rightarrow> nat \<Rightarrow> u8 \<Rightarrow> cell option" where
  "reading attr records decimals k = map_option (\<lambda>n. Product decimals n (DbScaler attr k)) (get_numeric_or_default records k)"

definition readings :: "cstr \<Rightarrow> record_map \<Rightarrow> (cstr \<times> nat \<times> u8) list \<Rightarrow> (cstr \<times> cell) list option" where
  "readings attr records cols = mapM (\<lambda>(name, decimals, k). map_option (Pair name) (reading attr records decimals k)) cols"

definition octets :: "record_map \<Rightarrow> u8 \<Rightarrow> cell" where
  "octets records tag = Str (c_str (get_octet_string records tag))"

definition parse_dlms_date_time :: "bytes \<Rightarrow> cstr" where
  "parse_dlms_date_time data =
     (if length data < 7 then ''2000-01-01 00:00''
      else let year = be16 (data ! 0) (data ! 1); month = data ! 2; day = data ! 3; hour = data ! 5; minute = data ! 6;
        year = (if year = 0xFFFF \<or> year = 0 then 2000 else year);
        month = (if month = 0xFF \<or> month = 0 then 1 else month);
        day = (if day = 0xFF \<or> day = 0 then 1 else day);
        hour = (if hour = 0xFF then 0 else hour);
        minute = (if minute = 0xFF then 0 else minute)
      in dec_pad 4 year @ ''-'' @ dec_pad 2 (unat month) @ ''-'' @ dec_pad 2 (unat day) @ '' ''
        @ dec_pad 2 (unat hour) @ '':'' @ dec_pad 2 (unat minute))"

definition date_octets :: "record_map \<Rightarrow> u8 \<Rightarrow> cell" where
  "date_octets records tag = text_cell (parse_dlms_date_time (get_octet_string records tag))"

section \<open>Profiles\<close>

text \<open>The address as sixteen digits and its last eight, which count as the serial number of the meter.\<close>

definition node_cells :: "mac \<Rightarrow> cstr \<Rightarrow> (cstr \<times> cell) list" where
  "node_cells mac gw = [(''meter_mac_address'', text_cell (mac_to_hex mac)),
     (''meter_serial_number'', text_cell (drop 8 (mac_to_hex mac))), (''gateway_id'', text_cell gw)]"

abbreviation (input) pushed_cell :: "cstr \<Rightarrow> bool \<Rightarrow> cstr \<times> cell" where
  "pushed_cell name push_status \<equiv> (name, Num (if push_status then 1 else 0))"

text \<open>An INSERT has no result set, so what follows it in the code is skipped.\<close>

definition insert_name_plate_data :: "mac \<Rightarrow> cstr \<Rightarrow> packet_buffer \<Rightarrow> db_conn \<Rightarrow> (int \<times> db_conn) option" where
  "insert_name_plate_data mac gw b c = do {
     let records = profile_data b;
     meter_type \<leftarrow> get_int records 4; meter_type \<leftarrow> cast_within 0 (2 ^ 32) meter_type;
     year \<leftarrow> get_int records 7; year \<leftarrow> cast_within 0 (2 ^ 32) year;
     let (r, c) = run_insertion (''name_plate_data'',
       [(''meter_serial_number'', octets records 0), (''meter_mac_address'', text_cell (mac_to_hex mac)), (''gateway_id'', text_cell gw),
        (''device_id'', octets records 1), (''manufacturer_name'', octets records 2), (''firmware_version_for_meter'', octets records 3),
        (''meter_type'', Num (sint (word_of_int meter_type :: u32))), (''category'', octets records 5), (''current_rating'', octets records 6),
        (''meter_manufacture_year'', Num (sint (word_of_int year :: u32))), (''last_download_time'', Now), (''push_alaram'', Num 0)]) c;
     Some (if r = FAILURE then FAILURE else SUCCESS, c)
   }"

definition ip_push_row :: "env \<Rightarrow> mac \<Rightarrow> cstr \<Rightarrow> int \<Rightarrow> record_map \<Rightarrow> bool \<Rightarrow> insertion option" where
  "ip_push_row e mac gw cycle records push_status = do {
     meter_rtc_time \<leftarrow> record_time e 0x4D58 records;
     first \<leftarrow> readings ''0100'' records [(''voltage'', 2, 0x01), (''phase_current'', 2, 0x02), (''neutral_current'', 2, 0x03),
       (''signed_powerfactor'', 2, 0x04), (''frequency'', 2, 0x05), (''apparent_power_kva'', 2, 0x06), (''active_power_kw'', 2, 0x07),
       (''cum_energy_kwh_import'', 2, 0x08), (''cum_energy_kvah_import'', 2, 0x09), (''maximum_demand_kw'', 2, 0x0A)];
     kva \<leftarrow> reading ''0100'' records 2 0x0C;
     rest \<leftarrow> readings ''0100'' records [(''cum_power_on_duration'', 2, 0x0E), (''cum_tamper_count'', 2, 0x0F), (''cum_billing_count'', 2, 0x10),
       (''cum_programming_count'', 2, 0x11), (''cum_energy_kwh_export'', 2, 0x12), (''cum_energy_kvah_export'', 2, 0x13)];
     loadlimit_function_sts \<leftarrow> get_bool records 0x14 False;
     limit_kw \<leftarrow> reading ''0100'' records 2 0x15;
     Some (''dlms_ip_push_data'',
       [(''meter_serial_number'', text_cell (drop 8 (mac_to_hex mac))), (''meter_mac_address'', text_cell (mac_to_hex mac)),
        (''gateway_id'', text_cell gw), (''meter_rtc_time'', meter_rtc_time)] @ first
       @ [(''md_kw_datetime'', date_octets records 0x0B), (''maximum_demand_kva'', kva), (''md_kva_datetime'', date_octets records 0x0D)] @ rest
       @ [(''loadlimit_function_sts'', Num (if loadlimit_function_sts then 1 else 0)), (''loadlimit_value_kw'', limit_kw),
          (''last_download_time'', Now), (''cycle_id'', Num cycle), pushed_cell ''push_alaram'' push_status, pushed_cell ''error_code'' push_status])
   }"

text \<open>The parameters of the radio, of which two are put in the opposite order of bytes.\<close>

definition rf_push_row :: "env \<Rightarrow> mac \<Rightarrow> cstr \<Rightarrow> record_map \<Rightarrow> insertion option" where
  "rf_push_row e mac gw records = do {
     meter_rtc_time \<leftarrow> record_time e 0x4D58 records;
     rssi \<leftarrow> get_int records 0xF0; rssi \<leftarrow> cast_within (- 128) 128 rssi;
     noise_floor \<leftarrow> get_int records 0xF2; noise_floor \<leftarrow> cast_within (- 128) 128 noise_floor;
     frequency_offset \<leftarrow> get_int records 0xF1; frequency_offset \<leftarrow> cast_within (- 128) 128 frequency_offset;
     raw \<leftarrow> get_int records 0xF3; raw \<leftarrow> cast_within 0 (2 ^ 32) raw;
     tdc \<leftarrow> dread32 (rev (enc32 (word_of_int raw))) 0;
     raw \<leftarrow> get_int records 0xF4; raw \<leftarrow> cast_within 0 (2 ^ 16) raw;
     temperature \<leftarrow> dread16 (rev (enc16 (word_of_int raw))) 0;
     Some (''rf_param_info'',
       [(''gateway_id'', text_cell gw), (''meter_mac_address'', text_cell (mac_to_hex mac)),
        (''meter_sl_no'', text_cell (drop 8 (mac_to_hex mac))), (''frequency_offset'', Num frequency_offset),
        (''frequency_last_download_time'', Now), (''meter_rtc_time'', meter_rtc_time), (''rssi_value'', Num rssi),
        (''noise_floor'', Num noise_floor), (''temprature'', Num (sint temperature)), (''tdc'', Num (uint tdc))])
   }"

definition insert_instantaneous_parameters_profile_data ::
    "env \<Rightarrow> mac \<Rightarrow> cstr \<Rightarrow> int \<Rightarrow> packet_buffer \<Rightarrow> bool \<Rightarrow> db_conn \<Rightarrow> (int \<times> db_conn) option" where
  "insert_instantaneous_parameters_profile_data e mac gw cycle b push_status c = do {
     row \<leftarrow> ip_push_row e mac gw cycle (profile_data b) push_status;
     let (r, c) = run_insertion row c;
     if r = SUCCESS then do {
       row \<leftarrow> rf_push_row e mac gw (profile_data b);
       Some (run_insertion row c)
     }
     else Some (FAILURE, c)
   }"

definition daily_push_row :: "env \<Rightarrow> mac \<Rightarrow> cstr \<Rightarrow> record_map \<Rightarrow> bool \<Rightarrow> insertion option" where
  "daily_push_row e mac gw records push_status = do {
     meter_rtc_time \<leftarrow> record_time e 0 records;
     energies \<leftarrow> readings ''0300'' records [(''cum_energy_kwh_export'', 3, 1), (''cum_energy_kvah_export'', 3, 2),
       (''cum_energy_kwh_import'', 3, 3), (''cum_energy_kvah_import'', 3, 4)];
     Some (''dlms_daily_load_push_profile'', node_cells mac gw @ [(''real_time_clock'', meter_rtc_time)] @ energies
       @ [(''last_download_time'', Now), pushed_cell ''push_alaram'' push_status, pushed_cell ''error_code'' push_status])
   }"

definition insert_daily_load_profile_data ::
    "env \<Rightarrow> mac \<Rightarrow> cstr \<Rightarrow> packet_buffer \<Rightarrow> bool \<Rightarrow> db_conn \<Rightarrow> (int \<times> db_conn) option" where
  "insert_daily_load_profile_data e mac gw b push_status c =
     map_option (\<lambda>row. run_insertion row c) (daily_push_row e mac gw (profile_data b) push_status)"

definition block_push_row :: "env \<Rightarrow> mac \<Rightarrow> cstr \<Rightarrow> int \<Rightarrow> bool \<Rightarrow> record_map \<Rightarrow> insertion option" where
  "block_push_row e mac gw cycle_id push_status records = do {
     meter_rtc_time \<leftarrow> record_time e 0x4D58 records;
     cells \<leftarrow> readings ''0400'' records [(''average_voltage'', 2, 1), (''block_energy_kwh_import'', 3, 2), (''block_energy_kvah_import'', 3, 3),
       (''block_energy_kwh_export'', 3, 4), (''block_energy_kvah_export'', 3, 5)];
     Some (''dlms_block_load_push_profile'', node_cells mac gw @ [(''real_time_clock'', meter_rtc_time)] @ cells
       @ [(''last_download_time'', Now), (''cycle_id'', Num cycle_id), pushed_cell ''push_alaram'' push_status,
          pushed_cell ''error_code'' push_status])
   }"

text \<open>The first statement that fails ends the loop.\<close>

fun insert_blocks :: "(record_map \<Rightarrow> insertion option) \<Rightarrow> record_map list \<Rightarrow> db_conn \<Rightarrow> (int \<times> db_conn) option" where
  "insert_blocks row [] c = Some (0, c)"
| "insert_blocks row (profile # rest) c = do {
     r \<leftarrow> row profile;
     let (ret, c) = run_insertion r c;
     if ret \<noteq> 0 then Some (ret, c) else insert_blocks row rest c
   }"

definition insert_block_load_profile_data ::
    "env \<Rightarrow> mac \<Rightarrow> cstr \<Rightarrow> int \<Rightarrow> packet_buffer_block_load \<Rightarrow> bool \<Rightarrow> db_conn \<Rightarrow> (int \<times> db_conn) option" where
  "insert_block_load_profile_data e mac gw cycle_id b push_status c =
     insert_blocks (block_push_row e mac gw cycle_id push_status) (profiles_data b) c"

definition billing_push_row :: "mac \<Rightarrow> cstr \<Rightarrow> record_map \<Rightarrow> bool \<Rightarrow> insertion option" where
  "billing_push_row mac gw records push_status = do {
     cells \<leftarrow> readings ''0200'' records (map (\<lambda>(name, k). (name, 2, k)) bh_columns);
     exported \<leftarrow> readings ''0200'' records [(''cum_active_energy_kwh_export'', 2, 0x19), (''cum_apparent_energy_kvah_export'', 2, 0x1A),
       (''billing_power_on_duration'', 2, 0x18)];
     Some (''dlms_history_data'', node_cells mac gw @ [(''billing_date_import_mode'', date_octets records 0)] @ cells
       @ [(''md_kw_datetime'', date_octets records 0x15), (''md_kva_datetime'', date_octets records 0x17)] @ exported
       @ [(''last_download_time'', Now), (''cycle_id'', Num 0), pushed_cell ''push_alaram'' push_status, pushed_cell ''error_code'' push_status])
   }"

definition insert_billing_history_profile_data ::
    "mac \<Rightarrow> cstr \<Rightarrow> packet_buffer \<Rightarrow> bool \<Rightarrow> db_conn \<Rightarrow> (int \<times> db_conn) option" where
  "insert_billing_history_profile_data mac gw b push_status c =
     map_option (\<lambda>row. run_insertion row c) (billing_push_row mac gw (profile_data b) push_status)"

section \<open>Power events\<close>

text \<open>The texts of event codes are rows of another table, an argument here (empty when there is none).\<close>

definition on_off_row :: "mac \<Rightarrow> cstr \<Rightarrow> int \<Rightarrow> cell \<Rightarrow> cell \<Rightarrow> insertion" where
  "on_off_row mac gw power_event device_id real_time_clock = (''push_on_off_events'',
     [(''gateway_id'', text_cell gw), (''Push_type'', Num 1), (''Event_code'', Num power_event), (''Device_id'', device_id),
      (''RF_mac_address'', text_cell (mac_to_hex mac)), (''RTC'', real_time_clock), (''Uploaded_time'', Now)])"

definition event_cells :: "(int \<Rightarrow> cstr) \<Rightarrow> record_map \<Rightarrow> cstr \<times> cstr \<times> u8 \<Rightarrow> (cstr \<times> cell) list option" where
  "event_cells event_string records spec = (case spec of (code_name, string_name, k) \<Rightarrow> do {
     i \<leftarrow> get_int records k;
     code \<leftarrow> cast_within 0 (2 ^ 16) i;
     Some [(code_name, Num code), (string_name, text_cell (event_string code))]
   })"

definition insert_power_on_event_to_db ::
    "env \<Rightarrow> (int \<Rightarrow> cstr) \<Rightarrow> mac \<Rightarrow> cstr \<Rightarrow> packet_buffer \<Rightarrow> db_conn \<Rightarrow> (int \<times> db_conn) option" where
  "insert_power_on_event_to_db e event_string mac gw b c = do {
     let records = profile_data b;
     real_time_clock \<leftarrow> record_time e 0x4D58 records;
     let device_id = octets records 2;
     cells \<leftarrow> mapM (event_cells event_string records)
       [(''Voltage_event_code'', ''Voltage_event_string'', 4), (''Current_event_code'', ''Current_event_string'', 5),
        (''Power_event_code'', ''Power_event_string'', 6), (''Transaction_event_code'', ''Transaction_event_string'', 7),
        (''Other_event_code'', ''Other_event_string'', 8), (''Non_roll_over_event_code'', ''Non_roll_over_event_string'', 9),
        (''Control_event_code'', ''Control_event_string'', 0x0A)];
     power_event \<leftarrow> get_int records 6;
     let (r, c) = run_insertion (on_off_row mac gw power_event device_id real_time_clock) c;
     Some (if r \<noteq> 0 then (FAILURE, c)
       else run_insertion (''Push_latest_event_alarm'',
         [(''gateway_id'', text_cell gw), (''Device_id'', device_id), (''RF_mac_address'', text_cell (mac_to_hex mac))]
         @ concat cells @ [(''RTC'', real_time_clock), (''Uploaded_time'', Now)]) c)
   }"

definition insert_power_off_event_to_db :: "mac \<Rightarrow> cstr \<Rightarrow> packet_buffer \<Rightarrow> db_conn \<Rightarrow> (int \<times> db_conn) option" where
  "insert_power_off_event_to_db mac gw b c = do {
     let records = profile_data b;
     i \<leftarrow> get_int records 2;
     power_event \<leftarrow> cast_within 0 (2 ^ 16) i;
     Some (run_insertion (on_off_row mac gw power_event (octets records 1) (text_cell ''-'')) c)
   }"

section \<open>Carrying out an entry of the log\<close>

definition update_internal_firmware_version_in_meter_details :: "mac \<Rightarrow> cstr \<Rightarrow> bytes \<Rightarrow> db_conn \<Rightarrow> int \<times> db_conn" where
  "update_internal_firmware_version_in_meter_details mac gw version = run_insertion (''meter_details'',
     [(''rf_module_internal_fw_version'', Str (c_str version)), (''meter_mac_address'', text_cell (mac_to_hex mac)),
      (''gateway_id'', text_cell gw)])"

text \<open>The entries about silenced nodes and the time of synchronisation are statements of \<open>Pull_Cycle\<close> and
  \<open>On_Demand\<close> without a row of data.\<close>

definition carry_out :: "env \<Rightarrow> (int \<Rightarrow> cstr) \<Rightarrow> db_op \<Rightarrow> db_conn \<Rightarrow> (int \<times> db_conn) option" where
  "carry_out e event_string entry c = (case entry of
       InsertInstantaneous mac gw cycle b pushed \<Rightarrow> insert_instantaneous_parameters_profile_data e mac gw cycle b pushed c
     | InsertDailyLoad mac gw b pushed \<Rightarrow> insert_daily_load_profile_data e mac gw b pushed c
     | InsertBlockLoad mac gw cycle b pushed \<Rightarrow> insert_block_load_profile_data e mac gw cycle b pushed c
     | InsertBillingHistory mac gw b pushed \<Rightarrow> insert_billing_history_profile_data mac gw b pushed c
     | InsertPowerOnEvent mac gw b \<Rightarrow> insert_power_on_event_to_db e event_string mac gw b c
     | InsertPowerOffEvent mac gw b \<Rightarrow> insert_power_off_event_to_db mac gw b c
     | InsertNamePlate mac gw b \<Rightarrow> insert_name_plate_data mac gw b c
     | UpdateInternalFirmwareVersion mac gw version \<Rightarrow> Some (update_internal_firmware_version_in_meter_details mac gw version c)
     | DeleteUnsilenced mac gw \<Rightarrow> Some (SUCCESS, c)
     | SyncTime gw status \<Rightarrow> Some (SUCCESS, c))"

section \<open>The same records pushed and asked for\<close>

text \<open>What the parsers of pushed and pulled pages make of a field.  The bytes of a record are the same in
  both protocols.\<close>

fun field_payload :: "meter_field \<Rightarrow> payload" where
  "field_payload (FBool b) = BoolValue b"
| "field_payload (FInt8 w) = Int8Value w"
| "field_payload (FUint8 w) = UInt8Value w"
| "field_payload (FInt16 w) = Int16Value w"
| "field_payload (FUint16 w) = UInt16Value w"
| "field_payload (FInt32 w) = Int32Value w"
| "field_payload (FUint32 w) = UInt32Value w"
| "field_payload (FDateTime w) = UInt32Value w"
| "field_payload (FOctets bs) = UInt64Value 0"
| "field_payload (FText bs) = UInt64Value 0"
| "field_payload (FEnum w) = UInt8Value w"
| "field_payload (FInt64 w) = Int64Value w"
| "field_payload (FUint64 w) = UInt64Value w"

definition pushed_value :: "meter_field \<Rightarrow> dlms_value" where
  "pushed_value f = \<lparr>vtype = field_type f, typeName = typeNames (field_type f), payload = field_payload f,
     octetString = (if has_length f then field_bytes f else [])\<rparr>"

lemma enc_record_pushed: "enc_record (k, pushed_value f) = enc_meter_record (k, 0, f)"
  by (cases f) (simp_all add: enc_record_def enc_value_def pushed_value_def string_type_def has_length_def)

text \<open>The integers of at most 32 bits, which both sides read alike.\<close>

fun field_int :: "meter_field \<Rightarrow> int option" where
  "field_int (FBool b) = Some (if b then 1 else 0)"
| "field_int (FInt8 w) = Some (sint w)"
| "field_int (FUint8 w) = Some (uint w)"
| "field_int (FInt16 w) = Some (sint w)"
| "field_int (FUint16 w) = Some (uint w)"
| "field_int (FInt32 w) = Some (sint w)"
| "field_int (FUint32 w) = Some (uint w)"
| "field_int _ = None"

definition plain :: "meter_field \<Rightarrow> bool" where
  "plain f \<longleftrightarrow> field_int f \<noteq> None"

lemma wf_pushed: "plain f \<Longrightarrow> wf_value (pushed_value f)" "wf_value (pushed_value (FDateTime t))"
  by (cases f; simp add: plain_def wf_value_def pushed_value_def string_type_def has_length_def)
    (simp add: wf_value_def pushed_value_def string_type_def has_length_def)

lemma plain_bytes: "plain f \<Longrightarrow> length (field_bytes f) < 256"
  by (cases f) (simp_all add: plain_def)

lemma pushed_number:
  assumes "records k = Some (pushed_value f)" and "field_int f = Some i"
  shows "get_numeric_or_default records k = Some (CastInt i)"
  using assms by (cases f) (auto simp: get_numeric_or_default_def get_numeric_def pushed_value_def numeric_types_def apply_types_def int_member_def)

lemma pushed_time:
  assumes "records 0 = Some (pushed_value (FDateTime t))" and "shift \<le> uint t" and "0 \<le> shift"
  shows "record_time e shift records = Some (text_cell (format_timestamp e (t - word_of_int shift)))"
proof -
  have "get_numeric_or_default records 0 = Some (CastInt (uint t))"
    using assms(1) by (simp add: get_numeric_or_default_def get_numeric_def pushed_value_def numeric_types_def int_member_def)
  moreover have "uint t < 2 ^ 32" using unsigned_less [of t, where ?'a = int] by simp
  moreover have "word_of_int (uint t - shift) = t - word_of_int shift" by (simp add: wi_hom_syms)
  ultimately show ?thesis
    using assms(2,3) by (simp add: record_time_def get_int_def integral_def cast_within_def)
qed

lemma odm_number: "field_int f = Some i \<Longrightarrow> as_number (field_value e f) = CastInt i"
  by (cases f) (auto simp: as_number_def set_member_def)

text \<open>Both sides print a number times a scaler; they round in different ways and print a different number
  of decimals.\<close>

fun unrounded :: "cell \<Rightarrow> cell" where
  "unrounded (Scaled n f) = ScaledDouble n f"
| "unrounded (Product d n f) = ScaledDouble n f"
| "unrounded x = x"

definition agree_on :: "cstr list \<Rightarrow> insertion \<Rightarrow> insertion \<Rightarrow> bool" where
  "agree_on names r q \<longleftrightarrow> fst r = fst q \<and>
     list_all (\<lambda>name. map_of (snd r) name \<noteq> None \<and> map_option unrounded (map_of (snd r) name) = map_option unrounded (map_of (snd q) name)) names"

text \<open>A block of the load survey: its time, a voltage, four energies and a current.\<close>

type_synonym block = "u32 \<times> meter_field \<times> meter_field \<times> meter_field \<times> meter_field \<times> meter_field \<times> meter_field"

fun block_records :: "block \<Rightarrow> meter_record list" where
  "block_records (t, v, a, b, c, d, i) = [(0, 0, FDateTime t), (1, 0, v), (2, 0, a), (3, 0, b), (4, 0, c), (5, 0, d), (6, 0, i)]"

fun plain_block :: "block \<Rightarrow> bool" where
  "plain_block (t, v, a, b, c, d, i) \<longleftrightarrow> 0x4D58 \<le> uint t \<and> plain v \<and> plain a \<and> plain b \<and> plain c \<and> plain d \<and> plain i"

fun block_value :: "env \<Rightarrow> u8 \<Rightarrow> block \<Rightarrow> dlms_value" where
  "block_value e k (t, v, a, b, c, d, i) = field_value e
     (if k = 0 then FDateTime t else if k = 1 then v else if k = 2 then a else if k = 3 then b else if k = 4 then c else if k = 5 then d else i)"

definition block_columns :: "env \<Rightarrow> block list \<Rightarrow> columns" where
  "block_columns e blocks = add_records e (concat (map block_records blocks)) no_columns"

lemma block_columns_column:
  assumes "k \<in> {0, 1, 2, 3, 4, 5, 6}"
  shows "block_columns e blocks k = map (block_value e k) blocks"
proof -
  have "map (\<lambda>(k, st, f). field_value e f) (filter (\<lambda>r. fst r = k) (block_records b)) = [block_value e k b]" for b
    using assms by (cases b) auto
  then show ?thesis by (simp add: block_columns_def add_records_column no_columns_def map_filter_concat)
qed

lemma block_columns_valid:
  assumes "blocks \<noteq> []"
  shows "validate_BLP_for_db (block_columns e blocks) = block_columns e blocks"
proof -
  have "typed (block_columns e blocks)" by (simp add: block_columns_def typed_records)
  moreover have "block_columns e blocks k \<noteq> []" if "k \<in> {0, 1, 2, 3, 4, 5, 6}" for k
    using assms by (simp add: block_columns_column [OF that])
  ultimately show ?thesis
    by (simp add: validate_BLP_for_db_def ensure_dlms_value_id)
qed

lemma block_row_at:
  assumes "i < length blocks" and "plain_block (blocks ! i)"
  shows "\<exists>r. blp_row p (block_columns e blocks) i = Some r \<and> fst r = ''dlms_block_load_push_profile'' \<and>
    (case blocks ! i of (t, v, a, b, c, d, j) \<Rightarrow>
      map_of (snd r) ''real_time_clock'' = Some (text_cell (format_timestamp e (t - SECONDS_5H30M))) \<and>
      map_of (snd r) ''average_voltage'' = Some (Scaled (CastInt (the (field_int v))) (DbScaler ''0400'' 1)) \<and>
      map_of (snd r) ''block_energy_kwh_import'' = Some (Scaled (CastInt (the (field_int a))) (DbScaler ''0400'' 2)) \<and>
      map_of (snd r) ''block_energy_kvah_import'' = Some (Scaled (CastInt (the (field_int b))) (DbScaler ''0400'' 3)) \<and>
      map_of (snd r) ''block_energy_kwh_export'' = Some (Scaled (CastInt (the (field_int c))) (DbScaler ''0400'' 4)) \<and>
      map_of (snd r) ''block_energy_kvah_export'' = Some (Scaled (CastInt (the (field_int d))) (DbScaler ''0400'' 5)))"
proof -
  have col: "cell_at (block_columns e blocks) k i = Some (block_value e k (blocks ! i))" if "k \<in> {0, 1, 2, 3, 4, 5, 6}" for k
    using assms(1) by (simp add: cell_at_def block_columns_column [OF that])
  obtain t v a b c d j where bl: "blocks ! i = (t, v, a, b, c, d, j)" by (cases "blocks ! i") auto
  then have "plain v" "plain a" "plain b" "plain c" "plain d" using assms(2) by simp_all
  then have n: "as_number (field_value e f) = CastInt (the (field_int f))" if "f \<in> {v, a, b, c, d}" for f
    using that odm_number by (auto simp: plain_def)
  show ?thesis
    by (simp add: blp_row_def scaled_entry_def col bl getAsFloat_def n meter_cells_def gateway_cell_def)
      (simp add: getAsString_def setString_def new_value_def text_cell_def)
qed

text \<open>The records of a block as the parser of pushed pages stores them.\<close>

definition pushed_block :: "block \<Rightarrow> (u8 \<times> dlms_value) list" where
  "pushed_block blk = map (\<lambda>(k, st, f). (k, pushed_value f)) (block_records blk)"

lemma pushed_block_bytes: "concat (map enc_record (pushed_block blk)) = enc_meter_records (block_records blk)"
  by (cases blk) (simp add: pushed_block_def enc_record_pushed enc_meter_records_def del: enc_meter_record.simps)

lemma pushed_block_of: "block_of (pushed_block blk)" "length (pushed_block blk) = 7"
  by (cases blk; simp add: pushed_block_def block_of_def)+

lemma pushed_block_wf: "plain_block blk \<Longrightarrow> r \<in> set (pushed_block blk) \<Longrightarrow> wf_value (snd r)"
  by (cases blk) (auto simp: pushed_block_def wf_pushed)

lemma block_push_at:
  assumes "plain_block blk"
  shows "\<exists>r. block_push_row e mac gw cycle_id pushed (map_of (rev (pushed_block blk))) = Some r \<and> fst r = ''dlms_block_load_push_profile'' \<and>
    (case blk of (t, v, a, b, c, d, j) \<Rightarrow>
      map_of (snd r) ''real_time_clock'' = Some (text_cell (format_timestamp e (t - SECONDS_5H30M))) \<and>
      map_of (snd r) ''average_voltage'' = Some (Product 2 (CastInt (the (field_int v))) (DbScaler ''0400'' 1)) \<and>
      map_of (snd r) ''block_energy_kwh_import'' = Some (Product 3 (CastInt (the (field_int a))) (DbScaler ''0400'' 2)) \<and>
      map_of (snd r) ''block_energy_kvah_import'' = Some (Product 3 (CastInt (the (field_int b))) (DbScaler ''0400'' 3)) \<and>
      map_of (snd r) ''block_energy_kwh_export'' = Some (Product 3 (CastInt (the (field_int c))) (DbScaler ''0400'' 4)) \<and>
      map_of (snd r) ''block_energy_kvah_export'' = Some (Product 3 (CastInt (the (field_int d))) (DbScaler ''0400'' 5)))"
proof -
  obtain t v a b c d j where bl: "blk = (t, v, a, b, c, d, j)" by (cases blk) auto
  then have t: "0x4D58 \<le> uint t" and pl: "plain v" "plain a" "plain b" "plain c" "plain d" using assms by simp_all
  define records where "records = map_of (rev (pushed_block (t, v, a, b, c, d, j)))"
  have rec: "records 0 = Some (pushed_value (FDateTime t))" "records 1 = Some (pushed_value v)" "records 2 = Some (pushed_value a)"
    "records 3 = Some (pushed_value b)" "records 4 = Some (pushed_value c)" "records 5 = Some (pushed_value d)"
    by (simp_all add: records_def pushed_block_def)
  have n: "reading attr records decimals k = Some (Product decimals (CastInt (the (field_int f))) (DbScaler attr k))"
    if "records k = Some (pushed_value f)" "plain f" for k f attr decimals
    using that pushed_number by (auto simp: reading_def plain_def)
  show ?thesis
    using pushed_time [of records t "0x4D58" e] rec(1) t unfolding bl records_def [symmetric]
    by (simp add: block_push_row_def readings_def n [OF rec(2) pl(1)] n [OF rec(3) pl(2)] n [OF rec(4) pl(3)] n [OF rec(5) pl(4)]
        n [OF rec(6) pl(5)] node_cells_def)
qed

lemma insert_blocks_all:
  assumes "list_all2 (\<lambda>x r. row x = Some r) xs rs" and "conn_results c = []"
  shows "insert_blocks row xs c = Some (0, c\<lparr>conn_written := conn_written c @ rs\<rparr>)"
  using assms by (induction xs rs arbitrary: c rule: list_all2_induct) (simp_all add: run_insertion_def Let_def)

lemma blocks_parsed:
  assumes "list_all plain_block blocks" and "length hdr = 26" and "unat n = 7 * length blocks" and "partial_profile b = Map.empty"
  shows "parseBlockLoadDLMSRecords (hdr @ enc_meter_records (concat (map block_records blocks)) @ [chk]) n b
    = Some (SUCCESS, b\<lparr>profiles_data := profiles_data b @ map (\<lambda>blk. map_of (rev (pushed_block blk))) blocks\<rparr>)"
proof -
  let ?rs = "concat (map pushed_block blocks)"
  have "concat (map enc_record ?rs) = enc_meter_records (concat (map block_records blocks))"
    using pushed_block_bytes by (induction blocks) (auto simp: enc_meter_records_def)
  moreover have "length ?rs = 7 * length blocks" by (induction blocks) (simp_all add: pushed_block_of)
  moreover have "wf_value (snd r)" if "r \<in> set ?rs" for r
    using that assms(1) by (auto simp: list_all_iff intro: pushed_block_wf simp del: plain_block.simps)
  moreover have "list_all block_of (map pushed_block blocks)" by (simp add: list_all_iff pushed_block_of)
  ultimately show ?thesis
    using parse_records_enc [of ?rs hdr store_block_record chk n b] assms(2-4)
    by (simp add: parseBlockLoadDLMSRecords_def fold_store_blocks o_def)
qed

lemma blocks_requested:
  assumes "list_all plain_block blocks" and "blocks \<noteq> []" and "blp_profile (profiles s) = block_columns e blocks"
  shows "\<exists>s'. update_odm_db p DATA_TYPE_BLP s = Some (True, s')
    \<and> written s' = written s @ success_status p # map (\<lambda>i. Insert (the (blp_row p (block_columns e blocks) i))) [0..<length blocks]"
proof -
  have row: "blp_row p (block_columns e blocks) i = Some (the (blp_row p (block_columns e blocks) i))" if "i < length blocks" for i
    using block_row_at [OF that, of p e] assms(1) that by (auto simp: list_all_length)
  have len: "length (block_columns e blocks 0) = length blocks" by (simp add: block_columns_column)
  show ?thesis
    using assms(3) insert_rows_all [of "length blocks" "blp_row p (block_columns e blocks)", OF row]
    by (simp add: update_odm_db_def process_BLP_case_def block_columns_valid [OF assms(2)] Let_def write_op_def len on_profiles_def
        clear_profile_for_type_def)
qed


text \<open>A day as the parser of pushed pages stores it.\<close>

definition pushed_day :: "day \<Rightarrow> (u8 \<times> dlms_value) list" where
  "pushed_day day = map (\<lambda>(k, st, f). (k, pushed_value f)) (day_records day)"

lemma pushed_day_bytes: "concat (map enc_record (pushed_day day)) = enc_meter_records (day_records day)"
  by (cases day) (simp add: pushed_day_def enc_record_pushed enc_meter_records_def del: enc_meter_record.simps)

lemma day_parsed:
  assumes "length hdr = 26" and "unat n = 5"
  shows "parseDLMSRecords (hdr @ enc_meter_records (day_records day) @ [chk]) n b
    = Some (SUCCESS, b\<lparr>profile_data := profile_data b ++ map_of (rev (pushed_day day))\<rparr>)"
proof -
  have "length (pushed_day day) = 5" by (cases day) (simp add: pushed_day_def)
  moreover have "wf_value (snd r)" if "r \<in> set (pushed_day day)" for r
    using that by (cases day) (auto simp: pushed_day_def wf_pushed plain_def)
  ultimately show ?thesis
    using parse_records_enc [of "pushed_day day" hdr store_record chk n b] assms
    by (simp add: parseDLMSRecords_def fold_store_record pushed_day_bytes)
qed

text \<open>C33: the two ways to get the daily load of a meter disagree about its time: a day that is pushed (or
  pulled) is stored with the time the meter sent, the same day as the answer to an on-demand
  request with a time five and a half hours earlier.  Table, readings and scalers are the same.\<close>

theorem daily_load_times_differ:
  assumes "length hdr = 26" and "unat n = 5" and "conn_results c = []"
    and "list_all2 (page_call 3) calls pages" and "concat pages = day_records (t, va, vb, vc, vd)" and "dlp_profile (profiles s) = no_columns"
  shows "\<exists>b' c' d s' r q.
    parseDLMSRecords (hdr @ enc_meter_records (day_records (t, va, vb, vc, vd)) @ [chk]) n b = Some (SUCCESS, b') \<and>
    insert_daily_load_profile_data e mac gw b' pushed c = Some (SUCCESS, c') \<and> conn_written c' = conn_written c @ [r] \<and>
    foldM (perform e) calls (profiles s) = Some d \<and> update_odm_db p DATA_TYPE_DLP (s\<lparr>profiles := d\<rparr>) = Some (True, s') \<and>
    written s' = written s @ [success_status p, Insert q] \<and>
    agree_on [''cum_energy_kwh_export'', ''cum_energy_kvah_export'', ''cum_energy_kwh_import'', ''cum_energy_kvah_import''] r q \<and>
    map_of (snd r) ''real_time_clock'' = Some (text_cell (format_timestamp e t)) \<and>
    map_of (snd q) ''real_time_clock'' = Some (text_cell (format_timestamp e (t - SECONDS_5H30M)))"
proof -
  let ?day = "(t, va, vb, vc, vd)"
  define records where "records = profile_data b ++ map_of (rev (pushed_day ?day))"
  have rec: "records 0 = Some (pushed_value (FDateTime t))" "records 1 = Some (pushed_value (FUint32 va))" "records 2 = Some (pushed_value (FUint32 vb))"
    "records 3 = Some (pushed_value (FUint32 vc))" "records 4 = Some (pushed_value (FUint32 vd))"
    by (simp_all add: records_def pushed_day_def map_add_def)
  have n: "reading attr records decimals k = Some (Product decimals (CastInt (uint x)) (DbScaler attr k))"
    if "records k = Some (pushed_value (FUint32 x))" for k x attr decimals
    using that pushed_number [of records k "FUint32 x"] by (simp add: reading_def)
  have "record_time e 0 records = Some (text_cell (format_timestamp e t))"
    using pushed_time [of records t 0 e] rec(1) by simp
  then obtain r where r: "daily_push_row e mac gw records pushed = Some r" "fst r = ''dlms_daily_load_push_profile''"
      "map_of (snd r) ''real_time_clock'' = Some (text_cell (format_timestamp e t))"
      "agree_on [''cum_energy_kwh_export'', ''cum_energy_kvah_export'', ''cum_energy_kwh_import'', ''cum_energy_kvah_import''] r (day_row e p ?day)"
    by (simp add: daily_push_row_def readings_def n [OF rec(2)] n [OF rec(3)] n [OF rec(4)] n [OF rec(5)] node_cells_def agree_on_def
        meter_cells_def gateway_cell_def)
  let ?b = "b\<lparr>profile_data := records\<rparr>" and ?d = "profiles s\<lparr>dlp_profile := day_columns e [?day]\<rparr>"
  have f1: "parseDLMSRecords (hdr @ enc_meter_records (day_records ?day) @ [chk]) n b = Some (SUCCESS, ?b)"
    unfolding records_def by (rule day_parsed [OF assms(1,2)])
  have f2: "insert_daily_load_profile_data e mac gw ?b pushed c = Some (SUCCESS, c\<lparr>conn_written := conn_written c @ [r]\<rparr>)"
    using r(1) assms(3) by (simp add: insert_daily_load_profile_data_def run_insertion_def Let_def)
  have f4: "foldM (perform e) calls (profiles s) = Some ?d"
    using dlp_reader.pages_read [OF assms(4), of e "profiles s"] assms(5,6) by (simp add: day_columns_def)
  obtain s' where f5: "update_odm_db p DATA_TYPE_DLP (s\<lparr>profiles := ?d\<rparr>) = Some (True, s')"
      and f6: "written s' = written s @ [success_status p, Insert (day_row e p ?day)]"
    using days_inserted [of "[?day]" "s\<lparr>profiles := ?d\<rparr>" e p] by auto
  have f9: "map_of (snd (day_row e p ?day)) ''real_time_clock'' = Some (text_cell (format_timestamp e (t - SECONDS_5H30M)))"
    by (simp add: meter_cells_def gateway_cell_def text_cell_def)
  have f3: "conn_written (c\<lparr>conn_written := conn_written c @ [r]\<rparr>) = conn_written c @ [r]" by simp
  show ?thesis
    by (intro exI conjI, rule f1, rule f2, rule f3, rule f4, rule f5, rule f6, rule r(4), rule r(3), rule f9)
qed

section \<open>Concrete inputs\<close>

definition example_conn :: db_conn where
  "example_conn = \<lparr>conn_results = [], conn_written = []\<rparr>"

abbreviation (input) example_block :: block where
  "example_block \<equiv> (0x684A1F00, FUint16 23000, FUint32 10, FUint32 20, FUint32 30, FUint32 40, FUint16 500)"

lemma example_block_call: "list_all2 (page_call 4) [example_call 4 0 (block_records example_block)] [block_records example_block]"
  using example_call_page(1) [of "block_records example_block" 4 0] by (simp add: enc_meter_records_def has_length_def)


theorem daily_load_times_differ_witness:
  "\<exists>b' c' d s' r q.
    parseDLMSRecords (replicate 26 0 @ enc_meter_records (day_records (hd example_days)) @ [0]) 5 empty_buffer = Some (SUCCESS, b') \<and>
    insert_daily_load_profile_data example_env (to_mac_array [1, 2, 3, 4]) ''G'' b' True example_conn = Some (SUCCESS, c') \<and> conn_written c' = [r] \<and>
    foldM (perform example_env) [example_call 3 0 (day_records (hd example_days))] (profiles example_store) = Some d \<and>
    update_odm_db example_parameters DATA_TYPE_DLP (example_store\<lparr>profiles := d\<rparr>) = Some (True, s') \<and>
    written s' = [success_status example_parameters, Insert q] \<and>
    agree_on [''cum_energy_kwh_export'', ''cum_energy_kvah_export'', ''cum_energy_kwh_import'', ''cum_energy_kvah_import''] r q \<and>
    map_of (snd r) ''real_time_clock'' = Some (text_cell (format_timestamp example_env 0x684A1F00)) \<and>
    map_of (snd q) ''real_time_clock'' = Some (text_cell (format_timestamp example_env (0x684A1F00 - SECONDS_5H30M)))"
proof -
  have c: "conn_results example_conn = []" "conn_written example_conn = []" by (simp_all add: example_conn_def)
  show ?thesis
    using daily_load_times_differ [OF _ _ c(1) example_calls(1) [of "[hd example_days]"] _ example_store_empty(1), where hdr = "replicate 26 0" and n = 5
        and t = "0x684A1F00" and va = 10 and vb = 20 and vc = 30 and vd = 40 and chk = 0 and b = empty_buffer and e = example_env
        and mac = "to_mac_array [1, 2, 3, 4]" and gw = "''G''" and pushed = True and p = example_parameters]
    by (simp add: c example_store_empty del: enc_meter_record.simps)
qed

end
