(* ===== verification/Scalers.thy ===== *)
theory Scalers
  imports Db_Rows "HOL-Library.AList"
begin

text \<open>
  The scalers of a meter type (\<open>HES/src/client.cpp\<close>, \<open>HES/src/database.cpp\<close>): the answers that announce them
  (\<open>parse_instantaneous_scalar_profile\<close> and its three copies), their rows (\<open>store_scalar_profile_db\<close>), loading them
  (\<open>load_scaler_details_from_db\<close>) and looking them up (\<open>getScalarValue\<close>).  The lemmas show that the factors announced
  are the ones that readings are multiplied by, at once and after a restart, and where they are lost or
  come from another manufacturer.
\<close>

section \<open>State\<close>

text \<open>A \<open>std::map\<close> and a \<open>std::unordered_map\<close> are association lists with distinct keys; their order is never looked at.  The keys of
  \<open>ScalarProfile_init\<close> are bytes read as signed numbers, here their bits.\<close>

record scalar_profile =
  sp_scalar :: "(u8 \<times> dlms_value list) list"
  sp_unit :: "(u8 \<times> dlms_value list) list"
  sp_scalar_type :: "(u8 \<times> dlms_value list) list"
  sp_unit_type :: "(u8 \<times> dlms_value list) list"
  sp_obis_codes :: "(u8 \<times> cstr) list"

definition ScalarProfile_init :: scalar_profile where
  "ScalarProfile_init = \<lparr>sp_scalar = [], sp_unit = [], sp_scalar_type = [], sp_unit_type = [], sp_obis_codes = []\<rparr>"

type_synonym scaler_map = "((cstr \<times> u8) \<times> int) list"

text \<open>A row of \<open>meter_supported_attributes\<close> with the columns that are inserted; text is what is printed.\<close>

record supported_attribute =
  sa_manufacturer_name :: cstr
  sa_index :: int
  sa_meter_type :: int
  sa_attribute_id :: cstr
  sa_scalar_data_type :: int
  sa_scalar_value :: cell
  sa_unit_data_type :: int
  sa_unit_value :: cell
  sa_firmware_version :: cstr

datatype scaler_statement = DlmsAttribute cstr cstr | SupportedAttribute supported_attribute

text \<open>The profiles are numbered as in the commands: 1 instantaneous, 2 billing, 3 daily load, 4 block load.\<close>

record scaler_store =
  scalar_profiles :: "u8 \<Rightarrow> scalar_profile"
  manufacture_details :: scaler_map
  manufacturer_scalar_map :: "cstr \<rightharpoonup> scaler_map"
  meter_info_map :: "cstr \<rightharpoonup> cstr \<times> cstr"
  meter_manufacture_name :: cstr
  meter_fw_version :: cstr
  meter_phase :: int
  statements :: "scaler_statement list"

definition addManufacturer :: "cstr \<Rightarrow> scaler_map \<Rightarrow> scaler_store \<Rightarrow> scaler_store" where
  "addManufacturer manufacturer vals s = s\<lparr>manufacturer_scalar_map := (manufacturer_scalar_map s)(manufacturer \<mapsto> vals)\<rparr>"

definition addMeter :: "cstr \<Rightarrow> cstr \<Rightarrow> cstr \<Rightarrow> scaler_store \<Rightarrow> scaler_store" where
  "addMeter serial manufacturer firmware_version s =
     s\<lparr>meter_info_map := (meter_info_map s)(serial \<mapsto> (manufacturer, firmware_version))\<rparr>"

text \<open>The database: the count of scalers it has for a manufacturer, a firmware and an attribute, the serial
  numbers of the meters of a manufacturer and a firmware, the manufacturer and firmware of a meter, and
  the rows of a manufacturer (index, value, attribute).  A query that fails has no answer; the outer list are
  the rows, a column may be NULL.\<close>

record scaler_db =
  existing_scalers :: "cstr \<Rightarrow> cstr \<Rightarrow> u8 \<Rightarrow> int list option"
  meters_of_type :: "cstr \<Rightarrow> cstr \<Rightarrow> cstr list option"
  type_of_meter :: "cstr \<Rightarrow> (cstr option \<times> cstr option) list option"
  attribute_rows :: "cstr \<Rightarrow> (cstr option \<times> cstr option \<times> cstr option) list option"

section \<open>The database\<close>

definition check_for_scaler_before_insert :: "scaler_db \<Rightarrow> cstr \<Rightarrow> cstr \<Rightarrow> u8 \<Rightarrow> int" where
  "check_for_scaler_before_insert db manufacture fw_version profile_name =
     (case existing_scalers db manufacture fw_version profile_name of
        Some (row_count # _) \<Rightarrow> if row_count > 0 then SUCCESS else FAILURE
      | _ \<Rightarrow> FAILURE)"

definition get_meter_details_from_db :: "scaler_db \<Rightarrow> cstr \<Rightarrow> cstr \<Rightarrow> scaler_store \<Rightarrow> int \<times> scaler_store" where
  "get_meter_details_from_db db manufacturer fw_version s =
     (case meters_of_type db manufacturer fw_version of
        Some (m # ms) \<Rightarrow> (SUCCESS, fold (\<lambda>serial. addMeter serial manufacturer fw_version) (m # ms) s)
      | _ \<Rightarrow> (FAILURE, s))"

text \<open>\<open>atoi\<close> of a NULL column is undefined.\<close>

definition scaler_row :: "cstr option \<times> cstr option \<times> cstr option \<Rightarrow> scaler_map \<Rightarrow> scaler_map option" where
  "scaler_row row details = (case row of (supported_index, scalar_value, attribute_id) \<Rightarrow> do {
     idx \<leftarrow> supported_index; idx \<leftarrow> atoi idx;
     v \<leftarrow> scalar_value; v \<leftarrow> atoi v;
     Some (AList.update (case attribute_id of Some a \<Rightarrow> a | None \<Rightarrow> [], word_of_int idx) v details)
   })"

definition load_scaler_details_from_db :: "scaler_db \<Rightarrow> cstr \<Rightarrow> scaler_store \<Rightarrow> scaler_store option" where
  "load_scaler_details_from_db db serial s =
     (if meter_info_map s serial \<noteq> None then Some s
      else case type_of_meter db serial of
        Some ((name, fw) # _) \<Rightarrow>
          (let manufacturer = (case name of Some n \<Rightarrow> n | None \<Rightarrow> []); FW_version = (case fw of Some v \<Rightarrow> v | None \<Rightarrow> []) in
           case attribute_rows db manufacturer of
             None \<Rightarrow> Some s
           | Some rows \<Rightarrow> do {
               details \<leftarrow> foldM scaler_row rows (manufacture_details s);
               let s = s\<lparr>manufacture_details := details\<rparr>;
               let s = (if details \<noteq> [] then addManufacturer manufacturer details s else s);
               Some (snd (get_meter_details_from_db db manufacturer FW_version s))
             })
      | _ \<Rightarrow> Some s)"

definition getScalarValue :: "scaler_store \<Rightarrow> cstr \<Rightarrow> cstr \<Rightarrow> u8 \<Rightarrow> int" where
  "getScalarValue s serial attribute_id index =
     (case meter_info_map s serial of None \<Rightarrow> 0
      | Some (manufacturer, fw) \<Rightarrow>
          (case manufacturer_scalar_map s manufacturer of None \<Rightarrow> 0
           | Some vals \<Rightarrow> (case map_of vals (attribute_id, index) of None \<Rightarrow> 0 | Some v \<Rightarrow> v)))"

section \<open>An answer with scalers\<close>

definition attribute_of :: "u8 \<Rightarrow> cstr" where
  "attribute_of profile = (if profile = 2 then ''0200'' else if profile = 3 then ''0300'' else if profile = 4 then ''0400'' else ''0100'')"

definition obis_to_string :: "bytes \<Rightarrow> cstr" where
  "obis_to_string obis = concat (map (\<lambda>b. dec (unat b) @ ''.'') (butlast obis)) @ dec (unat (last obis))"

text \<open>The assignments that both branches of the loop make.\<close>

definition set_scalar :: "u8 \<Rightarrow> u8 \<Rightarrow> int \<Rightarrow> dlms_value \<Rightarrow> dlms_value \<Rightarrow> dlms_value \<Rightarrow> dlms_value \<Rightarrow> scaler_store \<Rightarrow> scaler_store" where
  "set_scalar profile index raw scalar unit scalar_type unit_type s =
     (let sp = scalar_profiles s profile in
      s\<lparr>manufacture_details := AList.update (attribute_of profile, index) raw (manufacture_details s),
        scalar_profiles := (scalar_profiles s)(profile := sp\<lparr>sp_scalar := AList.update index [scalar] (sp_scalar sp),
          sp_unit := AList.update index [unit] (sp_unit sp), sp_scalar_type := AList.update index [scalar_type] (sp_scalar_type sp),
          sp_unit_type := AList.update index [unit_type] (sp_unit_type sp)\<rparr>)\<rparr>)"

definition set_obis :: "u8 \<Rightarrow> u8 \<Rightarrow> cstr \<Rightarrow> scaler_store \<Rightarrow> scaler_store" where
  "set_obis profile index obis_str s =
     (let sp = scalar_profiles s profile in
      s\<lparr>scalar_profiles := (scalar_profiles s)(profile := sp\<lparr>sp_obis_codes := AList.update index obis_str (sp_obis_codes sp)\<rparr>)\<rparr>)"

definition int8_value :: "u8 \<Rightarrow> dlms_value" where
  "int8_value w = set_member DLMS_DATA_TYPE_INT8 (Int8Value w)"

text \<open>The loop; \<open>offset\<close> is a \<open>uint8_t\<close>, and no bound is looked at.\<close>

fun read_scalars :: "u8 \<Rightarrow> ptr \<Rightarrow> nat \<Rightarrow> u8 \<Rightarrow> scaler_store \<Rightarrow> scaler_store option" where
  "read_scalars profile data 0 offset s = Some s"
| "read_scalars profile data (Suc n) offset s = do {
     index_byte \<leftarrow> rd data (uint offset);
     obis_raw \<leftarrow> rd_seq data (uint offset + 1) 6;
     scalar_status \<leftarrow> rd data (uint offset + 1 + 6);
     let s = set_obis profile index_byte (obis_to_string obis_raw) s;
     if scalar_status = 0x86
     then read_scalars profile data n (offset + 8) (set_scalar profile index_byte 0 new_value new_value new_value new_value s)
     else do {
       p \<leftarrow> rd_seq data (uint offset) 13;
       read_scalars profile data n (offset + 13)
         (set_scalar profile index_byte (sint (p ! 9)) (int8_value (p ! 9)) (int8_value (p ! 12)) (int8_value (p ! 8)) (int8_value (p ! 11)) s)
     }
   }"

text \<open>The rows of one index; \<open>at\<close> throws and \<open>[0]\<close> is undefined where the maps have different keys or an empty entry.\<close>

definition type_int :: "(u8 \<times> dlms_value list) list \<Rightarrow> u8 \<Rightarrow> int" where
  "type_int m index = (case map_of m index of Some (v # _) \<Rightarrow> sint (int8Value v) | _ \<Rightarrow> 0)"

definition store_index :: "u8 \<Rightarrow> scalar_profile \<Rightarrow> u8 \<Rightarrow> scaler_store \<Rightarrow> scaler_store option" where
  "store_index profile_name profile index_byte s =
     (case map_of (sp_unit profile) index_byte of
        Some (unit # _) \<Rightarrow> do {
          scalar_vec \<leftarrow> map_of (sp_scalar profile) index_byte;
          scalar \<leftarrow> (case scalar_vec of v # _ \<Rightarrow> Some v | [] \<Rightarrow> None);
          let obis_str = (case map_of (sp_obis_codes profile) index_byte of Some t \<Rightarrow> t | None \<Rightarrow> ''UNKNOWN'');
          Some (s\<lparr>statements := statements s @ [DlmsAttribute obis_str (attribute_of profile_name),
            SupportedAttribute \<lparr>sa_manufacturer_name = meter_manufacture_name s, sa_index = uint index_byte, sa_meter_type = meter_phase s,
              sa_attribute_id = attribute_of profile_name, sa_scalar_data_type = type_int (sp_scalar_type profile) index_byte,
              sa_scalar_value = to_string scalar, sa_unit_data_type = type_int (sp_unit_type profile) index_byte,
              sa_unit_value = to_string unit, sa_firmware_version = meter_fw_version s\<rparr>]\<rparr>)
        }
      | _ \<Rightarrow> Some s)"

text \<open>The indices from 0 up to the number of scalars.  With 256 of them the counter, a \<open>uint8_t\<close>, never reaches
  the bound and the loop does not end: None.\<close>

definition store_scalar_profile_db :: "scaler_db \<Rightarrow> u8 \<Rightarrow> scalar_profile \<Rightarrow> scaler_store \<Rightarrow> scaler_store option" where
  "store_scalar_profile_db db profile_name profile s =
     (if check_for_scaler_before_insert db (meter_manufacture_name s) (meter_fw_version s) profile_name = SUCCESS then Some s
      else if 256 \<le> length (sp_scalar profile) then None
      else foldM (store_index profile_name profile) (map word_of_nat [0..<length (sp_scalar profile)]) s)"

text \<open>The four parsers; \<open>response->data[k]\<close> is the byte \<open>17 + k\<close> of the packet.\<close>

definition parse_scalar_profile :: "scaler_db \<Rightarrow> u8 \<Rightarrow> ptr \<Rightarrow> scaler_store \<Rightarrow> (int \<times> scaler_store) option" where
  "parse_scalar_profile db profile response s = do {
     let data = padd response 17;
     record_count \<leftarrow> rd data 8;
     next_page_status \<leftarrow> rd data 7;
     s \<leftarrow> read_scalars profile data (unat record_count) 9 s;
     if next_page_status = 0x00 then do {
       s \<leftarrow> store_scalar_profile_db db profile (scalar_profiles s profile) s;
       let s = addManufacturer (meter_manufacture_name s) (manufacture_details s) s;
       let s = snd (get_meter_details_from_db db (meter_manufacture_name s) (meter_fw_version s) s);
       Some (SUCCESS, s\<lparr>scalar_profiles := (scalar_profiles s)(profile := ScalarProfile_init), meter_phase := 0\<rparr>)
     }
     else Some (SUCCESS, s)
   }"

definition parse_instantaneous_scalar_profile :: "scaler_db \<Rightarrow> ptr \<Rightarrow> scaler_store \<Rightarrow> (int \<times> scaler_store) option" where
  "parse_instantaneous_scalar_profile db = parse_scalar_profile db 1"

definition parse_billing_scalar_profile :: "scaler_db \<Rightarrow> ptr \<Rightarrow> scaler_store \<Rightarrow> (int \<times> scaler_store) option" where
  "parse_billing_scalar_profile db = parse_scalar_profile db 2"

definition parse_daily_load_scalar_profile :: "scaler_db \<Rightarrow> ptr \<Rightarrow> scaler_store \<Rightarrow> (int \<times> scaler_store) option" where
  "parse_daily_load_scalar_profile db = parse_scalar_profile db 3"

definition parse_block_load_scalar_profile :: "scaler_db \<Rightarrow> ptr \<Rightarrow> scaler_store \<Rightarrow> (int \<times> scaler_store) option" where
  "parse_block_load_scalar_profile db = parse_scalar_profile db 4"

section \<open>The announced scalers\<close>

text \<open>An entry of an answer: a missing scaler, or the status, the type and the value of the scaler and of the unit.\<close>

datatype scaler_entry =
    Missing u8 bytes
  | Announced u8 bytes u8 u8 u8 u8 u8 u8

fun entry_index :: "scaler_entry \<Rightarrow> u8" where
  "entry_index (Missing i obis) = i"
| "entry_index (Announced i obis st stype v ustatus utype unit) = i"

fun entry_scaler :: "scaler_entry \<Rightarrow> int" where
  "entry_scaler (Missing i obis) = 0"
| "entry_scaler (Announced i obis st stype v ustatus utype unit) = sint v"

fun entry_bytes :: "scaler_entry \<Rightarrow> bytes" where
  "entry_bytes (Missing i obis) = i # obis @ [0x86]"
| "entry_bytes (Announced i obis st stype v ustatus utype unit) = i # obis @ [st, stype, v, ustatus, utype, unit]"

fun wf_entry :: "scaler_entry \<Rightarrow> bool" where
  "wf_entry (Missing i obis) \<longleftrightarrow> length obis = 6"
| "wf_entry (Announced i obis st stype v ustatus utype unit) \<longleftrightarrow> length obis = 6 \<and> st \<noteq> 0x86"

fun apply_entry :: "u8 \<Rightarrow> scaler_entry \<Rightarrow> scaler_store \<Rightarrow> scaler_store" where
  "apply_entry profile (Missing i obis) s =
     set_scalar profile i 0 new_value new_value new_value new_value (set_obis profile i (obis_to_string obis) s)"
| "apply_entry profile (Announced i obis st stype v ustatus utype unit) s =
     set_scalar profile i (sint v) (int8_value v) (int8_value unit) (int8_value stype) (int8_value utype)
       (set_obis profile i (obis_to_string obis) s)"

text \<open>A page: 17 bytes of packet header, 7 of page header, whether a page follows, and the entries.\<close>

definition scalers_page :: "bytes \<Rightarrow> u8 \<Rightarrow> scaler_entry list \<Rightarrow> bytes \<Rightarrow> bytes" where
  "scalers_page hdr next_page es tail = hdr @ [next_page, word_of_nat (length es)] @ concat (map entry_bytes es) @ tail"

definition wf_entries :: "scaler_entry list \<Rightarrow> bool" where
  "wf_entries es \<longleftrightarrow> list_all wf_entry es \<and> distinct (map entry_index es) \<and> length (concat (map entry_bytes es)) \<le> 246"

text \<open>Every index with a unit has a scalar.\<close>

definition wf_profile :: "scalar_profile \<Rightarrow> bool" where
  "wf_profile sp \<longleftrightarrow> dom (map_of (sp_unit sp)) = dom (map_of (sp_scalar sp)) \<and> [] \<notin> ran (map_of (sp_scalar sp))"

section \<open>Reading an answer\<close>

lemma entry_length: "wf_entry e \<Longrightarrow> length (entry_bytes e) = (case e of Missing i obis \<Rightarrow> 8 | _ \<Rightarrow> 13)"
  by (cases e) auto

lemma entries_length: "list_all wf_entry es \<Longrightarrow> 8 * length es \<le> length (concat (map entry_bytes es))"
proof (induction es)
  case (Cons e es)
  then show ?case using entry_length [of e] by (cases e) auto
qed simp

lemma rd_at: "rd (pre @ x # z, b) k = Some x" if "b + k = int (length pre)"
  using that by (simp add: rd.simps)

lemma rd_seq_from: "rd_seq (pre @ xs @ z, b) k n = Some xs" if "b + k = int (length pre)" "n = length xs"
  using that
proof (induction xs arbitrary: pre k n)
  case (Cons x xs)
  from Cons.IH [of "k + 1" "pre @ [x]" "length xs"] Cons.prems rd_at [of b k pre x "xs @ z"]
  show ?case by simp
qed simp

lemma unat_skip: "unat (offset :: u8) + n < 256 \<Longrightarrow> unat (offset + word_of_nat n) = unat offset + n"
  by (simp add: unat_word_ariths unat_of_nat)

lemma read_entry:
  assumes "wf_entry e" "length pre = b + unat offset"
  shows "read_scalars profile (pre @ entry_bytes e @ post, int b) (Suc n) offset s =
    read_scalars profile (pre @ entry_bytes e @ post, int b) n (offset + word_of_nat (length (entry_bytes e))) (apply_entry profile e s)"
proof (cases e)
  case (Missing i obis)
  have at: "int b + uint offset = int (length pre)" using assms(2) by simp
  have obis: "length obis = 6" using assms(1) Missing by simp
  have "rd (pre @ i # obis @ 0x86 # post, int b) (uint offset) = Some i"
    "rd_seq (pre @ i # obis @ 0x86 # post, int b) (uint offset + 1) 6 = Some obis"
    "rd (pre @ i # obis @ 0x86 # post, int b) (uint offset + 1 + 6) = Some 0x86"
    using rd_at [of "int b" "uint offset" pre i] rd_seq_from [of "int b" "uint offset + 1" "pre @ [i]" 6 obis]
      rd_at [of "int b" "uint offset + 1 + 6" "pre @ i # obis" "0x86" post] at obis by simp_all
  then show ?thesis using Missing obis by simp
next
  case (Announced i obis st stype v ustatus utype unit)
  have at: "int b + uint offset = int (length pre)" using assms(2) by simp
  have obis: "length obis = 6" "st \<noteq> 0x86" using assms(1) Announced by simp_all
  let ?rec = "i # obis @ [st, stype, v, ustatus, utype, unit]"
  have "rd (pre @ i # obis @ st # stype # v # ustatus # utype # unit # post, int b) (uint offset) = Some i"
    "rd_seq (pre @ i # obis @ st # stype # v # ustatus # utype # unit # post, int b) (uint offset + 1) 6 = Some obis"
    "rd (pre @ i # obis @ st # stype # v # ustatus # utype # unit # post, int b) (uint offset + 1 + 6) = Some st"
    "rd_seq (pre @ i # obis @ st # stype # v # ustatus # utype # unit # post, int b) (uint offset) 13 = Some ?rec"
    using rd_at [of "int b" "uint offset" pre i] rd_seq_from [of "int b" "uint offset + 1" "pre @ [i]" 6 obis]
      rd_at [of "int b" "uint offset + 1 + 6" "pre @ i # obis" st] rd_seq_from [of "int b" "uint offset" pre 13 ?rec post] at obis
    by simp_all
  moreover have "?rec ! 9 = v" "?rec ! 12 = unit" "?rec ! 8 = stype" "?rec ! 11 = utype"
    using obis by (simp_all add: nth_append nth_Cons')
  ultimately show ?thesis using Announced obis by simp
qed

lemma read_entries:
  assumes "list_all wf_entry es" "length pre = b + unat offset" "unat offset + length (concat (map entry_bytes es)) < 256"
  shows "read_scalars profile (pre @ concat (map entry_bytes es) @ post, int b) (length es) offset s =
    Some (fold (apply_entry profile) es s)"
  using assms
proof (induction es arbitrary: pre offset s)
  case (Cons e es)
  have off: "unat (offset + word_of_nat (length (entry_bytes e))) = unat offset + length (entry_bytes e)"
    using Cons.prems(3) by (intro unat_skip) simp
  have "read_scalars profile (pre @ entry_bytes e @ concat (map entry_bytes es) @ post, int b) (Suc (length es)) offset s =
      read_scalars profile ((pre @ entry_bytes e) @ concat (map entry_bytes es) @ post, int b) (length es)
        (offset + word_of_nat (length (entry_bytes e))) (apply_entry profile e s)"
    using read_entry [of e pre b offset profile "concat (map entry_bytes es) @ post" "length es" s] Cons.prems by simp
  also have "\<dots> = Some (fold (apply_entry profile) es (apply_entry profile e s))"
    using Cons.prems off by (intro Cons.IH) simp_all
  finally show ?case by (simp del: read_scalars.simps)
qed simp

section \<open>Storing an answer\<close>

lemma apply_entry_fields [simp]:
  "meter_manufacture_name (apply_entry profile e s) = meter_manufacture_name s"
  "meter_fw_version (apply_entry profile e s) = meter_fw_version s"
  "meter_phase (apply_entry profile e s) = meter_phase s"
  "statements (apply_entry profile e s) = statements s"
  "manufacturer_scalar_map (apply_entry profile e s) = manufacturer_scalar_map s"
  "meter_info_map (apply_entry profile e s) = meter_info_map s"
  "manufacture_details (apply_entry profile e s) = AList.update (attribute_of profile, entry_index e) (entry_scaler e) (manufacture_details s)"
  by (cases e; simp add: set_scalar_def set_obis_def Let_def)+

lemma apply_entries_fields [simp]:
  "meter_manufacture_name (fold (apply_entry profile) es s) = meter_manufacture_name s"
  "meter_fw_version (fold (apply_entry profile) es s) = meter_fw_version s"
  "meter_phase (fold (apply_entry profile) es s) = meter_phase s"
  "statements (fold (apply_entry profile) es s) = statements s"
  by (induction es arbitrary: s) simp_all

lemma details_of_entries:
  "map_of (manufacture_details (fold (apply_entry profile) es s)) =
   map_of (manufacture_details s) ++ map_of (rev (map (\<lambda>e. ((attribute_of profile, entry_index e), entry_scaler e)) es))"
  by (induction es arbitrary: s) (simp_all add: update_conv')

definition unit_cell :: "scaler_entry \<Rightarrow> cell" where
  "unit_cell e = to_string (case e of Missing i obis \<Rightarrow> new_value | Announced i obis st stype v ustatus utype unit \<Rightarrow> int8_value unit)"

definition scalar_cell :: "scaler_entry \<Rightarrow> cell" where
  "scalar_cell e = to_string (case e of Missing i obis \<Rightarrow> new_value | Announced i obis st stype v ustatus utype unit \<Rightarrow> int8_value v)"

lemma apply_entry_profile:
  "scalar_profiles (apply_entry profile e s) = (scalar_profiles s)(profile := scalar_profiles (apply_entry profile e s) profile)"
  "sp_scalar (scalar_profiles (apply_entry profile e s) profile) = AList.update (entry_index e)
     [case e of Missing i obis \<Rightarrow> new_value | Announced i obis st stype v ustatus utype unit \<Rightarrow> int8_value v] (sp_scalar (scalar_profiles s profile))"
  "sp_unit (scalar_profiles (apply_entry profile e s) profile) = AList.update (entry_index e)
     [case e of Missing i obis \<Rightarrow> new_value | Announced i obis st stype v ustatus utype unit \<Rightarrow> int8_value unit] (sp_unit (scalar_profiles s profile))"
  by (cases e; simp add: set_scalar_def set_obis_def Let_def fun_eq_iff)+

lemma wf_apply_entries:
  "wf_profile (scalar_profiles s profile) \<Longrightarrow> wf_profile (scalar_profiles (fold (apply_entry profile) es s) profile)"
proof (induction es arbitrary: s)
  case (Cons e es)
  have "wf_profile (scalar_profiles (apply_entry profile e s) profile)"
    using Cons.prems by (simp add: wf_profile_def apply_entry_profile(2,3) update_conv') (auto simp: ran_def split: if_splits)
  from Cons.IH [OF this] show ?case by simp
qed simp

lemma length_update: "length (AList.update k v al) \<le> Suc (length al)"
  by (induction al) auto

lemma scalars_of_entries:
  "length (sp_scalar (scalar_profiles (fold (apply_entry profile) es s) profile)) \<le> length (sp_scalar (scalar_profiles s profile)) + length es"
proof (induction es arbitrary: s)
  case (Cons e es)
  have "length (sp_scalar (scalar_profiles (apply_entry profile e s) profile)) \<le> Suc (length (sp_scalar (scalar_profiles s profile)))"
    by (simp add: apply_entry_profile(2) length_update)
  with Cons.IH [of "apply_entry profile e s"] show ?case by simp
qed simp

text \<open>The statements of one index.\<close>

definition index_statements :: "u8 \<Rightarrow> scalar_profile \<Rightarrow> scaler_store \<Rightarrow> u8 \<Rightarrow> scaler_statement list" where
  "index_statements profile_name sp s i =
     (case (map_of (sp_unit sp) i, map_of (sp_scalar sp) i) of
        (Some (unit # _), Some (scalar # _)) \<Rightarrow>
          [DlmsAttribute (case map_of (sp_obis_codes sp) i of Some t \<Rightarrow> t | None \<Rightarrow> ''UNKNOWN'') (attribute_of profile_name),
           SupportedAttribute \<lparr>sa_manufacturer_name = meter_manufacture_name s, sa_index = uint i, sa_meter_type = meter_phase s,
             sa_attribute_id = attribute_of profile_name, sa_scalar_data_type = type_int (sp_scalar_type sp) i,
             sa_scalar_value = to_string scalar, sa_unit_data_type = type_int (sp_unit_type sp) i,
             sa_unit_value = to_string unit, sa_firmware_version = meter_fw_version s\<rparr>]
      | _ \<Rightarrow> [])"

lemma store_index_statements:
  assumes "wf_profile sp"
  shows "store_index profile_name sp i s = Some (s\<lparr>statements := statements s @ index_statements profile_name sp s i\<rparr>)"
proof (cases "map_of (sp_unit sp) i")
  case None
  then show ?thesis by (simp add: store_index_def index_statements_def)
next
  case (Some us)
  then have "i \<in> dom (map_of (sp_scalar sp))" using assms by (auto simp: wf_profile_def)
  then obtain vals where vals: "map_of (sp_scalar sp) i = Some vals" by auto
  then have "vals \<noteq> []" using assms by (auto simp: wf_profile_def ran_def)
  with vals obtain v vs where "map_of (sp_scalar sp) i = Some (v # vs)" by (cases vals) auto
  with Some show ?thesis by (cases us) (simp_all add: store_index_def index_statements_def)
qed

lemma index_statements_cong:
  assumes "meter_manufacture_name s' = meter_manufacture_name s" "meter_phase s' = meter_phase s" "meter_fw_version s' = meter_fw_version s"
  shows "index_statements profile_name sp s' = index_statements profile_name sp s"
  unfolding index_statements_def assms by (rule refl)

lemma store_indices:
  assumes "wf_profile sp"
  shows "foldM (store_index profile_name sp) is s =
    Some (s\<lparr>statements := statements s @ concat (map (index_statements profile_name sp s) is)\<rparr>)"
proof (induction "is" arbitrary: s)
  case (Cons i "is")
  let ?s = "s\<lparr>statements := statements s @ index_statements profile_name sp s i\<rparr>"
  have "index_statements profile_name sp ?s = index_statements profile_name sp s" by (rule index_statements_cong) simp_all
  then show ?case using store_index_statements [OF assms, of profile_name i s] Cons.IH [of ?s] by simp
qed simp

lemma add_meters:
  "fold (\<lambda>serial. addMeter serial m f) ms s = s\<lparr>meter_info_map := (\<lambda>x. if x \<in> set ms then Some (m, f) else meter_info_map s x)\<rparr>"
  by (induction ms arbitrary: s) (auto simp: addMeter_def fun_eq_iff intro!: arg_cong2 [where f = "\<lambda>g t. meter_info_map_update g t"])

text \<open>The statements of a last page, and the store after it.\<close>

definition page_statements :: "scaler_db \<Rightarrow> u8 \<Rightarrow> scaler_store \<Rightarrow> scaler_statement list" where
  "page_statements db profile s =
     (if check_for_scaler_before_insert db (meter_manufacture_name s) (meter_fw_version s) profile = SUCCESS then []
      else concat (map (index_statements profile (scalar_profiles s profile) s)
        (map word_of_nat [0..<length (sp_scalar (scalar_profiles s profile))])))"

definition after_page :: "scaler_db \<Rightarrow> u8 \<Rightarrow> scaler_store \<Rightarrow> scaler_store" where
  "after_page db profile s =
     (let t = addManufacturer (meter_manufacture_name s) (manufacture_details s) (s\<lparr>statements := statements s @ page_statements db profile s\<rparr>);
          t = snd (get_meter_details_from_db db (meter_manufacture_name s) (meter_fw_version s) t)
      in t\<lparr>scalar_profiles := (scalar_profiles s)(profile := ScalarProfile_init), meter_phase := 0\<rparr>)"

lemma page_read:
  assumes "length hdr = 24" "wf_entries es"
  shows "rd (padd (scalers_page hdr next_page es tail, 0) 17) 8 = Some (word_of_nat (length es))"
    "rd (padd (scalers_page hdr next_page es tail, 0) 17) 7 = Some next_page"
    "read_scalars profile (padd (scalers_page hdr next_page es tail, 0) 17) (length es) 9 s = Some (fold (apply_entry profile) es s)"
    "unat (word_of_nat (length es) :: u8) = length es"
proof -
  have "read_scalars profile ((hdr @ [next_page, word_of_nat (length es)]) @ concat (map entry_bytes es) @ tail, int 17) (length es) 9 s =
      Some (fold (apply_entry profile) es s)"
    using assms by (intro read_entries) (simp_all add: wf_entries_def)
  then show "read_scalars profile (padd (scalers_page hdr next_page es tail, 0) 17) (length es) 9 s = Some (fold (apply_entry profile) es s)"
    by (simp add: scalers_page_def)
  show "unat (word_of_nat (length es) :: u8) = length es"
    using assms(2) entries_length [of es] by (simp add: wf_entries_def unat_of_nat)
qed (use assms(1) in \<open>simp_all add: scalers_page_def rd.simps nth_append\<close>)

lemma last_page:
  assumes "length hdr = 24" "wf_entries es" "wf_profile (scalar_profiles s profile)"
    and "length (sp_scalar (scalar_profiles s profile)) + length es < 256"
  shows "parse_scalar_profile db profile (scalers_page hdr 0 es tail, 0) s =
    Some (SUCCESS, after_page db profile (fold (apply_entry profile) es s))"
proof -
  let ?t = "fold (apply_entry profile) es s" and ?sp = "scalar_profiles (fold (apply_entry profile) es s) profile"
  have few: "\<not> 256 \<le> length (sp_scalar ?sp)" using scalars_of_entries [of profile es s] assms(4) by simp
  have "store_scalar_profile_db db profile ?sp ?t = Some (?t\<lparr>statements := statements ?t @ page_statements db profile ?t\<rparr>)"
    using few store_indices [OF wf_apply_entries [OF assms(3), of es], of profile _ ?t]
    by (simp add: store_scalar_profile_db_def page_statements_def del: apply_entries_fields)
  moreover have "scalar_profiles (snd (get_meter_details_from_db db m f u)) = scalar_profiles u" for m f u
    by (simp add: get_meter_details_from_db_def add_meters addMeter_def split: option.split list.split)
  ultimately show ?thesis
    using page_read(1,2,3) [OF assms(1,2), where next_page = 0 and tail = tail] page_read(4) [OF assms(1,2)]
    by (simp add: parse_scalar_profile_def after_page_def Let_def addManufacturer_def del: apply_entries_fields)
qed

text \<open>The scaler of a meter of the type of the answer.\<close>

lemma scaler_after_page:
  assumes "meters_of_type db (meter_manufacture_name s) (meter_fw_version s) = Some ms" "serial \<in> set ms"
  shows "getScalarValue (after_page db profile s) serial attribute i =
    (case map_of (manufacture_details s) (attribute, i) of None \<Rightarrow> 0 | Some v \<Rightarrow> v)"
proof -
  from assms(2) obtain m rest where ms: "ms = m # rest" by (cases ms) auto
  have "serial = m \<or> serial \<in> set rest" using assms(2) ms by simp
  then show ?thesis
    using assms(1) unfolding ms
    by (auto simp: after_page_def getScalarValue_def get_meter_details_from_db_def addManufacturer_def add_meters addMeter_def Let_def)
qed

lemma after_page_fields [simp]:
  "manufacture_details (after_page db profile s) = manufacture_details s"
  "scalar_profiles (after_page db profile s) = (scalar_profiles s)(profile := ScalarProfile_init)"
  "meter_manufacture_name (after_page db profile s) = meter_manufacture_name s"
  "meter_fw_version (after_page db profile s) = meter_fw_version s"
  "statements (after_page db profile s) = statements s @ page_statements db profile s"
  by (auto simp: after_page_def get_meter_details_from_db_def add_meters addMeter_def addManufacturer_def Let_def split: option.split list.split)

lemma announced_detail:
  assumes "wf_entries es" "e \<in> set es"
  shows "map_of (manufacture_details (fold (apply_entry profile) es s)) (attribute_of profile, entry_index e) = Some (entry_scaler e)"
proof -
  let ?kv = "map (\<lambda>e. ((attribute_of profile, entry_index e), entry_scaler e)) es"
  have "distinct (map fst (rev ?kv))"
    using assms(1) by (simp add: wf_entries_def rev_map [symmetric] comp_def distinct_map inj_on_def)
  moreover have "((attribute_of profile, entry_index e), entry_scaler e) \<in> set (rev ?kv)" using assms(2) by auto
  ultimately have "map_of (rev ?kv) (attribute_of profile, entry_index e) = Some (entry_scaler e)" by (rule map_of_is_SomeI)
  then show ?thesis by (simp add: details_of_entries map_add_Some_iff)
qed

lemma other_detail:
  "i \<notin> entry_index ` set es \<Longrightarrow>
   map_of (manufacture_details (fold (apply_entry profile) es s)) (attribute_of profile, i) = map_of (manufacture_details s) (attribute_of profile, i)"
proof -
  assume "i \<notin> entry_index ` set es"
  then have "map_of (rev (map (\<lambda>e. ((attribute_of profile, entry_index e), entry_scaler e)) es)) (attribute_of profile, i) = None"
    by (auto simp: map_of_eq_None_iff)
  then show ?thesis by (simp add: details_of_entries map_add_def)
qed

lemma wf_init [simp]: "wf_profile ScalarProfile_init" "sp_scalar ScalarProfile_init = []"
  by (simp_all add: wf_profile_def ScalarProfile_init_def)

section \<open>The announced scalers are used\<close>

text \<open>C27: After the last page of the scalers of a profile, whatever pages came before, the readings of every meter of that manufacturer and
  firmware are scaled as the page says: the signed scaler of each index that has one, and 0 for an index whose status is 0x86.\<close>

theorem scalers_take_effect:
  assumes "length hdr = 24" "wf_entries es" "wf_profile (scalar_profiles s profile)"
    and "length (sp_scalar (scalar_profiles s profile)) + length es < 256"
    and "meters_of_type db (meter_manufacture_name s) (meter_fw_version s) = Some ms" "serial \<in> set ms"
  shows "\<exists>s'. parse_scalar_profile db profile (scalers_page hdr 0 es tail, 0) s = Some (SUCCESS, s') \<and>
    (\<forall>e \<in> set es. getScalarValue s' serial (attribute_of profile) (entry_index e) = entry_scaler e)"
  using last_page [OF assms(1-4)] assms(5,6) by (simp add: scaler_after_page announced_detail [OF assms(2)])

definition example_db :: scaler_db where
  "example_db = \<lparr>existing_scalers = (\<lambda>m f p. Some [0]), meters_of_type = (\<lambda>m f. Some [m @ ''-1'']),
     type_of_meter = (\<lambda>serial. Some [(Some ''LT'', Some ''1.0'')]),
     attribute_rows = (\<lambda>m. Some [(Some ''0'', Some ''-2'', Some ''0100''), (Some ''1'', Some ''0'', Some ''0100'')])\<rparr>"

definition example_scalers :: scaler_store where
  "example_scalers = \<lparr>scalar_profiles = (\<lambda>p. ScalarProfile_init), manufacture_details = [], manufacturer_scalar_map = Map.empty,
     meter_info_map = Map.empty, meter_manufacture_name = ''LT'', meter_fw_version = ''1.0'', meter_phase = 1, statements = []\<rparr>"

definition example_entries :: "scaler_entry list" where
  "example_entries = [Announced 0 [1, 0, 12, 7, 0, 255] 0x00 0x0F 0xFE 0x00 0x16 35, Missing 1 [0, 0, 1, 0, 0, 255],
     Announced 7 [1, 0, 1, 8, 0, 255] 0x00 0x0F 3 0x00 0x16 30]"

lemma example_scalers_wf:
  "wf_entries example_entries" "wf_entries [hd example_entries]" "wf_entries (tl example_entries)"
  "wf_profile (scalar_profiles example_scalers 1)" "sp_scalar (scalar_profiles example_scalers 1) = []" "length example_entries = 3"
  "meter_manufacture_name example_scalers = ''LT''" "meter_fw_version example_scalers = ''1.0''"
  by (simp_all add: wf_entries_def example_entries_def example_scalers_def)

lemma scalers_take_effect_witness:
  "\<exists>s'. parse_scalar_profile example_db 1 (scalers_page (replicate 24 0) 0 example_entries [0], 0) example_scalers = Some (SUCCESS, s') \<and>
    (\<forall>e \<in> set example_entries. getScalarValue s' ''LT-1'' (attribute_of 1) (entry_index e) = entry_scaler e)"
  using scalers_take_effect [of "replicate 24 0" example_entries example_scalers 1 example_db "[''LT-1'']" "''LT-1''" "[0]"]
  by (simp add: example_scalers_wf) (simp add: example_db_def)

text \<open>C32: The table that collects the scalers of an answer is never emptied: when a meter of another manufacturer is asked next, every
  index that its answer leaves out is scaled for its meters with the scaler that the first manufacturer announced.\<close>

theorem scalers_leak:
  assumes "length hdr = 24" "length hdr' = 24" "wf_entries es" "wf_entries es'" "e \<in> set es" "entry_index e \<notin> entry_index ` set es'"
    and "wf_profile (scalar_profiles s profile)" "length (sp_scalar (scalar_profiles s profile)) + length es < 256"
    and "meters_of_type db manufacturer fw = Some ms" "serial \<in> set ms"
  shows "\<exists>s' s''. parse_scalar_profile db profile (scalers_page hdr 0 es tail, 0) s = Some (SUCCESS, s') \<and>
    parse_scalar_profile db profile (scalers_page hdr' 0 es' tail', 0)
      (s'\<lparr>meter_manufacture_name := manufacturer, meter_fw_version := fw\<rparr>) = Some (SUCCESS, s'') \<and>
    getScalarValue s'' serial (attribute_of profile) (entry_index e) = entry_scaler e"
proof -
  let ?s' = "after_page db profile (fold (apply_entry profile) es s)"
  let ?t = "?s'\<lparr>meter_manufacture_name := manufacturer, meter_fw_version := fw\<rparr>"
  have f1: "parse_scalar_profile db profile (scalers_page hdr 0 es tail, 0) s = Some (SUCCESS, ?s')"
    using last_page [OF assms(1,3,7,8)] .
  have few: "length es' < 256" using entries_length [of es'] assms(4) by (simp add: wf_entries_def)
  have f2: "parse_scalar_profile db profile (scalers_page hdr' 0 es' tail', 0) ?t =
      Some (SUCCESS, after_page db profile (fold (apply_entry profile) es' ?t))"
    using few by (intro last_page [OF assms(2,4)]) simp_all
  have "map_of (manufacture_details ?t) (attribute_of profile, entry_index e) = Some (entry_scaler e)"
    using announced_detail [OF assms(3,5)] by simp
  then have f3: "getScalarValue (after_page db profile (fold (apply_entry profile) es' ?t)) serial (attribute_of profile) (entry_index e) = entry_scaler e"
    using assms(9,10) other_detail [OF assms(6), of profile ?t] by (simp add: scaler_after_page)
  show ?thesis using f1 f2 f3 by blast
qed

lemma scalers_leak_witness:
  "\<exists>s' s''. parse_scalar_profile example_db 1 (scalers_page (replicate 24 0) 0 [hd example_entries] [0], 0) example_scalers = Some (SUCCESS, s') \<and>
    parse_scalar_profile example_db 1 (scalers_page (replicate 24 0) 0 (tl example_entries) [0], 0)
      (s'\<lparr>meter_manufacture_name := ''HPL'', meter_fw_version := ''2.0''\<rparr>) = Some (SUCCESS, s'') \<and>
    getScalarValue s'' ''HPL-1'' (attribute_of 1) (entry_index (hd example_entries)) = entry_scaler (hd example_entries)"
  using scalers_leak [of "replicate 24 0" "replicate 24 0" "[hd example_entries]" "tl example_entries" "hd example_entries" example_scalers 1
      example_db "''HPL''" "''2.0''" "[''HPL-1'']" "''HPL-1''" "[0]" "[0]"]
  by (simp add: example_scalers_wf) (simp add: example_db_def example_entries_def)

section \<open>Numbers as text\<close>

lemma dec_digits:
  "dec n \<noteq> []" "\<forall>c \<in> set (dec n). isdigit_base 10 c \<and> \<not> isspace_c c \<and> c \<noteq> CHR ''+'' \<and> c \<noteq> CHR ''-'' \<and> c \<noteq> CHR 0x00"
  "digits_val 10 (dec n) = n"
proof (induction n rule: dec.induct)
  case (1 n)
  have digit: "isdigit_base 10 (hexdig k)" if "k < 10" for k
    using hexdig_facts(1) [of k] that by (simp add: isdigit_base_def)
  { case 1 show ?case by (subst dec.simps) simp }
  { case 2 show ?case
      using "1.IH"(2) hexdig_facts [of n] hexdig_facts [of "n mod 10"] digit [of n] digit [of "n mod 10"]
      by (subst dec.simps) (auto simp del: digits_val_def) }
  { case 3 show ?case
      using "1.IH"(3) hexdig_facts(1) [of n] hexdig_facts(1) [of "n mod 10"]
      by (subst dec.simps) (auto simp: digits_val_def) }
qed

lemma strtol_decimal: "strtol_val 10 (decimal i) = Some i"
proof -
  have run: "takeWhile (isdigit_base 10) (dec n) = dec n" for n
    using dec_digits(2) [of n] by (simp add: takeWhile_eq_all_conv)
  obtain c cs where hd: "dec (nat i) = c # cs" using dec_digits(1) by (cases "dec (nat i)") auto
  have all: "isdigit_base 10 c" "takeWhile (isdigit_base 10) cs = cs"
    using dec_digits(2) [of "nat i"] hd by (auto simp: takeWhile_eq_all_conv)
  have c: "\<not> isspace_c c" "c \<noteq> CHR ''+''" "c \<noteq> CHR ''-''" using dec_digits(2) [of "nat i"] hd by auto
  have s2: "(case cs of z # x # d # ds \<Rightarrow> if (10::nat) = 16 \<and> P z x d then y else cs | _ \<Rightarrow> cs) = cs" for cs y :: cstr and P
    by (auto split: list.splits)
  have minus: "\<not> isspace_c (CHR ''-'')" by code_simp
  show ?thesis
  proof (cases "i < 0")
    case True
    then show ?thesis using dec_digits(1,3) [of "nat (- i)"] minus
      unfolding strtol_val_def Let_def s2 by (simp add: decimal_def run)
  next
    case False
    then show ?thesis using dec_digits(1,3) [of "nat i"] hd c all(1)
      unfolding strtol_val_def Let_def s2 by (simp add: decimal_def all(2))
  qed
qed

lemma atoi_decimal: "- (2 ^ 31) \<le> i \<Longrightarrow> i < 2 ^ 31 \<Longrightarrow> atoi (decimal i) = Some i"
  by (simp add: atoi_def strtol_decimal)

lemma no_nul_decimal: "CHR 0x00 \<notin> set (decimal i)"
  using dec_digits(2) [of "nat i"] dec_digits(2) [of "nat (- i)"] by (auto simp: decimal_def)

section \<open>After a restart\<close>

fun cell_text :: "cell \<Rightarrow> cstr" where
  "cell_text (Str bs) = map (\<lambda>b. char_of (unat b)) bs"
| "cell_text _ = []"

text \<open>The columns that are loaded again, of the rows that were inserted.\<close>

fun stored_row :: "scaler_statement \<Rightarrow> (cstr option \<times> cstr option \<times> cstr option) list" where
  "stored_row (DlmsAttribute obis attr) = []"
| "stored_row (SupportedAttribute a) = [(Some (decimal (sa_index a)), Some (cell_text (sa_scalar_value a)), Some (sa_attribute_id a))]"

definition stored_rows :: "scaler_store \<Rightarrow> (cstr option \<times> cstr option \<times> cstr option) list" where
  "stored_rows s = concat (map stored_row (statements s))"

definition attribute_row :: "cstr \<Rightarrow> u8 \<times> int \<Rightarrow> cstr option \<times> cstr option \<times> cstr option" where
  "attribute_row attr iv = (Some (decimal (uint (fst iv))), Some (decimal (snd iv)), Some attr)"

lemma unat_of_char: "unat (of_char c :: u8) = (of_char c :: nat)"
proof -
  have "unat (word_of_nat (of_char c) :: u8) = (of_char c :: nat)" by (simp only: unat_of_nat) simp
  then show ?thesis by (simp only: of_nat_of_char)
qed

lemma text_cell_text: "CHR 0x00 \<notin> set t \<Longrightarrow> cell_text (text_cell t) = t"
proof -
  assume t: "CHR 0x00 \<notin> set t"
  have "(of_char c :: u8) \<noteq> 0" if "c \<in> set t" for c
  proof
    assume "(of_char c :: u8) = 0"
    then have "(of_char c :: nat) = 0" by (simp flip: unat_of_char)
    then have "char_of (of_char c :: nat) = (char_of (0::nat) :: char)" by simp
    then have "c = char_of (0::nat)" by simp
    then have "c = CHR 0x00" by (simp add: char_of_def)
    with t that show False by simp
  qed
  then have all: "takeWhile (\<lambda>b. b \<noteq> 0) (map of_char t) = (map of_char t :: bytes)" by (simp add: takeWhile_eq_all_conv)
  show ?thesis by (simp add: text_cell_def c_str_def all comp_def unat_of_char)
qed

lemma scalar_cell_text: "cell_text (scalar_cell e) = decimal (entry_scaler e)"
  by (cases e) (simp_all add: scalar_cell_def to_string_def new_value_def int8_value_def set_member_def as_number_def
    text_cell_text no_nul_decimal)

lemma entry_scaler_range: "- 128 \<le> entry_scaler e \<and> entry_scaler e < 128"
proof (cases e)
  case (Announced i obis st stype v ustatus utype unit)
  then show ?thesis using sint_range_size [of v] by (simp add: word_size)
qed simp

lemma profile_of_entries:
  "map_of (sp_scalar (scalar_profiles (fold (apply_entry profile) es s) profile)) = map_of (sp_scalar (scalar_profiles s profile)) ++
     map_of (rev (map (\<lambda>e. (entry_index e, [case e of Missing i obis \<Rightarrow> new_value | Announced i obis st stype v ustatus utype unit \<Rightarrow> int8_value v])) es))"
  "map_of (sp_unit (scalar_profiles (fold (apply_entry profile) es s) profile)) = map_of (sp_unit (scalar_profiles s profile)) ++
     map_of (rev (map (\<lambda>e. (entry_index e, [case e of Missing i obis \<Rightarrow> new_value | Announced i obis st stype v ustatus utype unit \<Rightarrow> int8_value unit])) es))"
  "distinct (map fst (sp_scalar (scalar_profiles s profile))) \<Longrightarrow>
     distinct (map fst (sp_scalar (scalar_profiles (fold (apply_entry profile) es s) profile)))"
  by (induction es arbitrary: s) (simp_all add: apply_entry_profile(2,3) update_conv' distinct_update del: fun_upd_apply)

lemma map_of_entries:
  assumes "distinct (map entry_index es)" "e \<in> set es"
  shows "map_of (rev (map (\<lambda>e. (entry_index e, f e)) es)) (entry_index e) = Some (f e)"
  using assms by (intro map_of_is_SomeI) (auto simp: rev_map [symmetric] comp_def)

lemma map_of_entries_None: "i \<notin> entry_index ` set es \<Longrightarrow> map_of (rev (map (\<lambda>e. (entry_index e, f e)) es)) i = None"
  by (auto simp: map_of_eq_None_iff)

lemma scalar_count:
  assumes "distinct (map entry_index es)" "scalar_profiles s profile = ScalarProfile_init"
  shows "length (sp_scalar (scalar_profiles (fold (apply_entry profile) es s) profile)) = length es"
proof -
  let ?m = "sp_scalar (scalar_profiles (fold (apply_entry profile) es s) profile)"
  have "distinct (map fst ?m)" using assms(2) by (simp add: profile_of_entries(3))
  then have "length ?m = card (fst ` set ?m)" using distinct_card [of "map fst ?m"] by simp
  also have "fst ` set ?m = dom (map_of ?m)" by (simp add: dom_map_of_conv_image_fst)
  also have "\<dots> = entry_index ` set es"
    using assms(2) by (auto simp: profile_of_entries(1) dom_map_add dom_map_of_conv_image_fst image_image)
  also have "card \<dots> = length es" using assms(1) distinct_card [of "map entry_index es"] by simp
  finally show ?thesis .
qed

lemma index_statements_at:
  assumes "map_of (sp_unit sp) i = Some [u]" "map_of (sp_scalar sp) i = Some [v]"
  shows "concat (map stored_row (index_statements profile sp t i)) =
    [(Some (decimal (uint i)), Some (cell_text (to_string v)), Some (attribute_of profile))]"
  unfolding index_statements_def assms by simp

lemma index_rows:
  assumes "distinct (map entry_index es)" "scalar_profiles s profile = ScalarProfile_init"
  shows "set (concat (map stored_row (index_statements profile (scalar_profiles (fold (apply_entry profile) es s) profile) t i))) =
    {attribute_row (attribute_of profile) (i, entry_scaler e) | e. e \<in> set es \<and> entry_index e = i}"
proof (cases "i \<in> entry_index ` set es")
  case True
  then obtain e where e: "e \<in> set es" "entry_index e = i" by auto
  have only: "e' = e" if "e' \<in> set es" "entry_index e' = i" for e'
    using assms(1) e that by (auto simp: distinct_map inj_on_def)
  have init: "map_of (sp_scalar (scalar_profiles s profile)) = Map.empty" "map_of (sp_unit (scalar_profiles s profile)) = Map.empty"
    using assms(2) by (simp_all add: ScalarProfile_init_def)
  have scalar: "map_of (sp_scalar (scalar_profiles (fold (apply_entry profile) es s) profile)) i =
      Some [case e of Missing i obis \<Rightarrow> new_value | Announced i obis st stype v ustatus utype unit \<Rightarrow> int8_value v]"
    unfolding profile_of_entries init e(2) [symmetric] empty_map_add by (rule map_of_entries [OF assms(1) e(1)])
  have "map_of (sp_unit (scalar_profiles (fold (apply_entry profile) es s) profile)) i =
      Some [case e of Missing i obis \<Rightarrow> new_value | Announced i obis st stype v ustatus utype unit \<Rightarrow> int8_value unit]"
    unfolding profile_of_entries init e(2) [symmetric] empty_map_add by (rule map_of_entries [OF assms(1) e(1)])
  from index_statements_at [OF this scalar]
  have "set (concat (map stored_row (index_statements profile (scalar_profiles (fold (apply_entry profile) es s) profile) t i))) =
      {(Some (decimal (uint i)), Some (cell_text (scalar_cell e)), Some (attribute_of profile))}"
    unfolding scalar_cell_def by simp
  moreover have "{e'. e' \<in> set es \<and> entry_index e' = i} = {e}"
  proof (intro equalityI subsetI)
    fix e' assume "e' \<in> {e'. e' \<in> set es \<and> entry_index e' = i}"
    then show "e' \<in> {e}" using only [of e'] by simp
  qed (use e in simp)
  ultimately show ?thesis unfolding setcompr_eq_image by (simp add: scalar_cell_text attribute_row_def)
next
  case False
  then have "map_of (sp_unit (scalar_profiles (fold (apply_entry profile) es s) profile)) i = None"
    using assms(2) map_of_entries_None [OF False] by (simp add: profile_of_entries ScalarProfile_init_def)
  with False show ?thesis by (auto simp: index_statements_def)
qed

lemma load_rows:
  assumes "\<forall>iv \<in> set ivs. - (2 ^ 31) \<le> snd iv \<and> snd iv < 2 ^ 31"
  shows "foldM scaler_row (map (attribute_row attr) ivs) details =
    Some (fold (\<lambda>iv. AList.update (attr, fst iv) (snd iv)) ivs details)"
  using assms
proof (induction ivs arbitrary: details)
  case (Cons iv ivs)
  have "uint (fst iv) < 2 ^ 31" using unsigned_less [of "fst iv", where ?'a = int] by simp
  moreover have "- (2 ^ 31) \<le> uint (fst iv)" by (rule order_trans [OF _ unsigned_greater_eq]) simp
  ultimately have "scaler_row (attribute_row attr iv) details = Some (AList.update (attr, fst iv) (snd iv) details)"
    using Cons.prems by (simp add: scaler_row_def attribute_row_def atoi_decimal)
  with Cons show ?case by simp
qed simp

lemma map_of_loaded:
  "map_of (fold (\<lambda>iv. AList.update (attr, fst iv) (snd iv)) ivs details) (attr, i) =
   (case map_of (rev ivs) i of None \<Rightarrow> map_of details (attr, i) | Some v \<Rightarrow> Some v)"
  by (induction ivs arbitrary: details) (auto simp: update_conv' map_add_def split: option.split)

lemma decimal_inject: "decimal i = decimal j \<Longrightarrow> i = j"
  by (metis option.inject strtol_decimal)

lemma attribute_row_inject: "attribute_row attr iv = attribute_row attr iv' \<Longrightarrow> iv = iv'"
  by (auto simp: attribute_row_def prod_eq_iff word_uint_eq_iff dest: decimal_inject)

text \<open>The rows that a first answer leaves in the table.\<close>

lemma rows_of_answer:
  assumes "wf_entries es" "scalar_profiles s profile = ScalarProfile_init" "statements s = []"
    and "check_for_scaler_before_insert db (meter_manufacture_name s) (meter_fw_version s) profile = FAILURE"
  shows "set (stored_rows (after_page db profile (fold (apply_entry profile) es s))) =
    {attribute_row (attribute_of profile) (entry_index e, entry_scaler e) | e. e \<in> set es \<and> unat (entry_index e) < length es}"
proof -
  have d: "distinct (map entry_index es)" using assms(1) by (simp add: wf_entries_def)
  have few: "length es < 256" using entries_length [of es] assms(1) by (simp add: wf_entries_def)
  let ?t = "fold (apply_entry profile) es s"
  let ?rows = "\<lambda>i. set (concat (map stored_row (index_statements profile (scalar_profiles ?t profile) ?t i)))"
  have "statements (after_page db profile ?t) =
      concat (map (index_statements profile (scalar_profiles ?t profile) ?t) (map word_of_nat [0..<length es]))"
    using assms(3,4) scalar_count [OF d assms(2)] by (simp add: page_statements_def)
  then have "set (stored_rows (after_page db profile ?t)) = (\<Union>n < length es. ?rows (word_of_nat n))"
    unfolding stored_rows_def by (simp only: set_concat set_map image_image set_upt image_UN UN_simps atLeast0LessThan UN_UN_flatten) auto
  also have "\<dots> = (\<Union>n < length es. {attribute_row (attribute_of profile) (word_of_nat n, entry_scaler e) | e. e \<in> set es \<and> entry_index e = word_of_nat n})"
    by (simp only: index_rows [OF d assms(2)])
  also have "\<dots> = {attribute_row (attribute_of profile) (entry_index e, entry_scaler e) | e. e \<in> set es \<and> unat (entry_index e) < length es}"
    (is "?l = ?r")
  proof (intro equalityI subsetI)
    fix r assume "r \<in> ?l"
    then obtain n e where "n < length es" "e \<in> set es" "entry_index e = word_of_nat n"
      "r = attribute_row (attribute_of profile) (entry_index e, entry_scaler e)" by auto
    moreover from this have "unat (entry_index e) < length es" using few by (simp add: unat_of_nat)
    ultimately show "r \<in> ?r" by blast
  next
    fix r assume "r \<in> ?r"
    then obtain e where e: "e \<in> set es" "unat (entry_index e) < length es"
      "r = attribute_row (attribute_of profile) (entry_index e, entry_scaler e)" by blast
    then show "r \<in> ?l" by (intro UN_I [of "unat (entry_index e)"]) auto
  qed
  finally show ?thesis .
qed

lemma scaler_after_load:
  assumes "meter_info_map t serial = None" "manufacture_details t = []" "manufacturer_scalar_map t = Map.empty"
    and "type_of_meter db serial = Some ((Some manufacturer, Some fw) # others)"
    and "attribute_rows db manufacturer = Some (map (attribute_row attr) ivs)"
    and "\<forall>iv \<in> set ivs. - (2 ^ 31) \<le> snd iv \<and> snd iv < 2 ^ 31"
    and "meters_of_type db manufacturer fw = Some ms" "serial \<in> set ms"
  shows "\<exists>t'. load_scaler_details_from_db db serial t = Some t' \<and>
    (\<forall>i. getScalarValue t' serial attr i = (case map_of (rev ivs) i of None \<Rightarrow> 0 | Some v \<Rightarrow> v))"
proof -
  let ?d = "fold (\<lambda>iv. AList.update (attr, fst iv) (snd iv)) ivs []"
  let ?t = "t\<lparr>manufacture_details := ?d\<rparr>"
  let ?u = "if ?d \<noteq> [] then addManufacturer manufacturer ?d ?t else ?t"
  let ?v = "snd (get_meter_details_from_db db manufacturer fw ?u)"
  have load: "load_scaler_details_from_db db serial t = Some ?v"
    using assms(1,2,4,5) load_rows [OF assms(6), of attr "[]"] by (simp add: load_scaler_details_from_db_def Let_def)
  from assms(8) obtain m rest where ms: "ms = m # rest" by (cases ms) auto
  have info: "meter_info_map ?v serial = Some (manufacturer, fw)" "manufacturer_scalar_map ?v = manufacturer_scalar_map ?u"
    using assms(7,8) unfolding ms by (auto simp: get_meter_details_from_db_def add_meters addMeter_def)
  have vals: "(case manufacturer_scalar_map ?u manufacturer of None \<Rightarrow> 0
      | Some vals \<Rightarrow> (case map_of vals (attr, i) of None \<Rightarrow> 0 | Some v \<Rightarrow> v)) = (case map_of ?d (attr, i) of None \<Rightarrow> 0 | Some v \<Rightarrow> v)" for i
    using assms(3) by (simp add: addManufacturer_def)
  have "getScalarValue ?v serial attr i = (case map_of (rev ivs) i of None \<Rightarrow> 0 | Some v \<Rightarrow> v)" for i
    unfolding getScalarValue_def info option.case prod.case vals map_of_loaded by (simp split: option.split)
  with load show ?thesis by blast
qed

text \<open>A program that has just started, with the table as the answer left it.\<close>

definition restarted :: "scaler_store \<Rightarrow> scaler_db \<Rightarrow> cstr \<Rightarrow> scaler_store \<Rightarrow> bool" where
  "restarted s db serial t \<longleftrightarrow> meter_info_map t = Map.empty \<and> manufacture_details t = [] \<and> manufacturer_scalar_map t = Map.empty \<and>
     (\<exists>fw ms rows. type_of_meter db serial = Some [(Some (meter_manufacture_name s), Some fw)] \<and>
        attribute_rows db (meter_manufacture_name s) = Some rows \<and> set rows = set (stored_rows s) \<and>
        meters_of_type db (meter_manufacture_name s) fw = Some ms \<and> serial \<in> set ms)"

text \<open>Rows that hold the entries with an index below a bound.\<close>

lemma loaded_entries:
  assumes "distinct (map entry_index es)"
    and "set rows = {attribute_row attr (entry_index e, entry_scaler e) | e. e \<in> set es \<and> unat (entry_index e) < n}"
  obtains ivs where "rows = map (attribute_row attr) ivs" "\<forall>iv \<in> set ivs. - (2 ^ 31) \<le> snd iv \<and> snd iv < 2 ^ 31"
    "\<forall>e \<in> set es. map_of (rev ivs) (entry_index e) = (if unat (entry_index e) < n then Some (entry_scaler e) else None)"
proof -
  let ?keep = "{e \<in> set es. unat (entry_index e) < n}" and ?iv = "\<lambda>e. (entry_index e, entry_scaler e)"
  have "\<forall>r \<in> set rows. \<exists>iv. r = attribute_row attr iv" unfolding assms(2) by blast
  then obtain ivs where ivs: "rows = map (attribute_row attr) ivs" unfolding ex_map_conv [symmetric] by blast
  have "attribute_row attr ` set ivs = attribute_row attr ` ?iv ` ?keep"
    using assms(2) unfolding ivs by (simp add: image_image setcompr_eq_image)
  moreover have "inj (attribute_row attr)" by (auto intro!: injI dest: attribute_row_inject)
  ultimately have set_ivs: "set ivs = ?iv ` ?keep" by (simp only: inj_image_eq_iff)
  have "map_of (rev ivs) (entry_index e) = (if unat (entry_index e) < n then Some (entry_scaler e) else None)"
    if e: "e \<in> set es" for e
  proof -
    have only: "e' = e" if "e' \<in> set es" "entry_index e' = entry_index e" for e'
      using assms(1) e that by (auto simp: distinct_map inj_on_def)
    show ?thesis
    proof (cases "map_of (rev ivs) (entry_index e)")
      case None
      then have "entry_index e \<notin> fst ` ?iv ` ?keep" by (simp add: map_of_eq_None_iff flip: set_ivs)
      then show ?thesis using None e by (auto simp: image_iff)
    next
      case (Some v)
      then have "(entry_index e, v) \<in> ?iv ` ?keep" using set_ivs by (auto dest: map_of_SomeD)
      then obtain e' where "e' \<in> set es" "unat (entry_index e') < n" "entry_index e' = entry_index e" "v = entry_scaler e'" by auto
      moreover from this have "e' = e" using only by simp
      ultimately show ?thesis using Some by simp
    qed
  qed
  moreover have "\<forall>iv \<in> set ivs. - (2 ^ 31) \<le> snd iv \<and> snd iv < 2 ^ 31"
  proof
    fix iv assume "iv \<in> set ivs"
    then obtain e where "iv = ?iv e" unfolding set_ivs by auto
    then show "- (2 ^ 31) \<le> snd iv \<and> snd iv < 2 ^ 31" using entry_scaler_range [of e] by simp
  qed
  ultimately show thesis using that ivs by blast
qed

text \<open>C28: After the first answer for a type of meter its rows, read back by a program that starts again, give every index below the
  number of scalars the factor that was announced, and every other index 0: the loop that stores the table counts up to its
  size and takes the counter for the index, so an index beyond a gap is used until the restart and lost by it.\<close>

theorem restart_keeps_low_indices:
  assumes "length hdr = 24" "wf_entries es" "scalar_profiles s profile = ScalarProfile_init" "statements s = []"
    and "check_for_scaler_before_insert db (meter_manufacture_name s) (meter_fw_version s) profile = FAILURE"
  shows "\<exists>s'. parse_scalar_profile db profile (scalers_page hdr 0 es tail, 0) s = Some (SUCCESS, s') \<and>
    (\<forall>db' serial t. restarted s' db' serial t \<longrightarrow> (\<exists>t'. load_scaler_details_from_db db' serial t = Some t' \<and>
      (\<forall>e \<in> set es. getScalarValue t' serial (attribute_of profile) (entry_index e) =
        (if unat (entry_index e) < length es then entry_scaler e else 0))))"
proof (rule exI [of _ "after_page db profile (fold (apply_entry profile) es s)"], intro conjI allI impI)
  have "length es < 256" using entries_length [of es] assms(2) by (simp add: wf_entries_def)
  then show "parse_scalar_profile db profile (scalers_page hdr 0 es tail, 0) s =
      Some (SUCCESS, after_page db profile (fold (apply_entry profile) es s))"
    using assms(3) by (intro last_page [OF assms(1,2)]) simp_all
next
  fix db' serial t
  let ?s' = "after_page db profile (fold (apply_entry profile) es s)" and ?name = "meter_manufacture_name s"
  assume "restarted ?s' db' serial t"
  then obtain fw ms rows where t: "meter_info_map t serial = None" "manufacture_details t = []" "manufacturer_scalar_map t = Map.empty"
    and db': "type_of_meter db' serial = Some [(Some ?name, Some fw)]" "attribute_rows db' ?name = Some rows"
      "meters_of_type db' ?name fw = Some ms" "serial \<in> set ms"
    and "set rows = set (stored_rows ?s')" by (auto simp: restarted_def)
  then have rows: "set rows = {attribute_row (attribute_of profile) (entry_index e, entry_scaler e) | e. e \<in> set es \<and> unat (entry_index e) < length es}"
    by (simp only: rows_of_answer [OF assms(2-5)])
  have "distinct (map entry_index es)" using assms(2) by (simp add: wf_entries_def)
  from this rows obtain ivs where ivs: "rows = map (attribute_row (attribute_of profile)) ivs"
      "\<forall>iv \<in> set ivs. - (2 ^ 31) \<le> snd iv \<and> snd iv < 2 ^ 31"
      "\<forall>e \<in> set es. map_of (rev ivs) (entry_index e) = (if unat (entry_index e) < length es then Some (entry_scaler e) else None)"
    by (rule loaded_entries)
  from scaler_after_load [OF t db'(1) _ ivs(2) db'(3,4)] db'(2) ivs(1)
  obtain t' where t': "load_scaler_details_from_db db' serial t = Some t'"
    "\<And>i. getScalarValue t' serial (attribute_of profile) i = (case map_of (rev ivs) i of None \<Rightarrow> 0 | Some v \<Rightarrow> v)" by blast
  have "\<forall>e \<in> set es. getScalarValue t' serial (attribute_of profile) (entry_index e) =
      (if unat (entry_index e) < length es then entry_scaler e else 0)"
    using ivs(3) by (simp add: t'(2))
  with t'(1) show "\<exists>t'. load_scaler_details_from_db db' serial t = Some t' \<and> (\<forall>e \<in> set es.
      getScalarValue t' serial (attribute_of profile) (entry_index e) = (if unat (entry_index e) < length es then entry_scaler e else 0))" by blast
qed

lemma example_page_name:
  assumes "parse_scalar_profile example_db 1 (scalers_page (replicate 24 0) 0 example_entries [0], 0) example_scalers = Some (SUCCESS, s')"
  shows "meter_manufacture_name s' = ''LT''"
  using assms last_page [of "replicate 24 0" example_entries example_scalers 1 example_db "[0]"]
  by (auto simp: example_scalers_wf)

lemma restart_keeps_low_indices_witness:
  "\<exists>s' t'. parse_scalar_profile example_db 1 (scalers_page (replicate 24 0) 0 example_entries [0], 0) example_scalers = Some (SUCCESS, s') \<and>
    load_scaler_details_from_db (example_db\<lparr>attribute_rows := (\<lambda>m. Some (stored_rows s'))\<rparr>) ''LT-1'' example_scalers = Some t' \<and>
    getScalarValue t' ''LT-1'' ''0100'' 0 = - 2 \<and> getScalarValue t' ''LT-1'' ''0100'' 7 = 0"
proof -
  have "check_for_scaler_before_insert example_db ''LT'' ''1.0'' 1 = FAILURE"
    by (simp add: check_for_scaler_before_insert_def example_db_def)
  then obtain s' where s': "parse_scalar_profile example_db 1 (scalers_page (replicate 24 0) 0 example_entries [0], 0) example_scalers = Some (SUCCESS, s')"
    and again: "\<forall>db' serial t. restarted s' db' serial t \<longrightarrow> (\<exists>t'. load_scaler_details_from_db db' serial t = Some t' \<and>
      (\<forall>e \<in> set example_entries. getScalarValue t' serial (attribute_of 1) (entry_index e) =
        (if unat (entry_index e) < length example_entries then entry_scaler e else 0)))"
    using restart_keeps_low_indices [of "replicate 24 0" example_entries example_scalers 1 example_db "[0]"]
    by (auto simp: example_scalers_wf example_scalers_def)
  have "restarted s' (example_db\<lparr>attribute_rows := (\<lambda>m. Some (stored_rows s'))\<rparr>) ''LT-1'' example_scalers"
    using example_page_name [OF s'] by (simp add: restarted_def example_db_def example_scalers_def)
  with again obtain t' where "load_scaler_details_from_db (example_db\<lparr>attribute_rows := (\<lambda>m. Some (stored_rows s'))\<rparr>) ''LT-1'' example_scalers = Some t'"
    "\<forall>e \<in> set example_entries. getScalarValue t' ''LT-1'' (attribute_of 1) (entry_index e) =
        (if unat (entry_index e) < length example_entries then entry_scaler e else 0)" by blast
  with s' show ?thesis by (auto simp: example_entries_def attribute_of_def intro!: exI)
qed

end
