(* ===== verification/Spec2Isabelle.thy ===== *)
theory Spec2Isabelle
  imports Prelude Hex Dlms Cycles Push Pull Frames Receive Transmit Nodes Pull_Cycle Retries Download Pull_Safety Fuota_Crc Mqtt On_Demand On_Demand_Runs
    Fuota_Frames Fuota_Routes Fuota_Transfer Fuota_Upload Fuota_Faults
    Odm_Readers Odm_Rows Odm_Bounds Db_Rows Scalers
begin

text \<open>
  A model of the head-end system in \<open>src/HES\<close>: a server that talks to the gateways of a radio mesh of
  electricity meters.  One \<open>Client\<close> object serves one gateway.  It receives profiles that meters push,
  pulls the profiles that are missing in the database once in every hour, and executes requests that
  arrive on an MQTT topic.  All results go to a MySQL database.

  \<^bold>\<open>Parts and theories.\<close>

  \<^item> \<open>Prelude\<close>: integer types, return codes, arrays with positions, conditions over reads.
  \<^item> \<open>Hex\<close> (\<open>utility.cpp\<close>, \<open>String_functions.cpp\<close>, the converters of \<open>client.cpp\<close>, \<open>pull.cpp\<close>,
    \<open>database.cpp\<close>): hexadecimal text, the tokenizers \<open>explode\<close> and \<open>split\<close>, routes as text.
  \<^item> \<open>Dlms\<close> (\<open>helper.h\<close>, \<open>packet_buffer.h\<close>, the parsers of \<open>push.cpp\<close>): DLMS records and the buffers that
    collect the records of a profile.
  \<^item> \<open>Cycles\<close> (\<open>client.cpp\<close>, \<open>database.cpp\<close>): identifiers of the quarters of a day, and the schedule of the
    hourly pull.
  \<^item> \<open>Push\<close> (\<open>push.cpp\<close>): what a pushed packet does to the buffer of its node and to the database.
  \<^item> \<open>Pull\<close> (\<open>pull.cpp\<close>, \<open>pull.h\<close>): the node records with their routes, and a pulled page.
  \<^item> \<open>Frames\<close> (\<open>pull.cpp\<close>, \<open>client.cpp\<close>): the commands of the pull with their time ranges, and the mesh
    header around a command.
  \<^item> \<open>Receive\<close> (\<open>client.cpp\<close>): from the bytes of one reception to the result code: splitting into packets,
    validation, and the reaction of each state of the client.
  \<^item> \<open>Transmit\<close> (\<open>client.cpp\<close>): writing to the socket, waiting for an answer, the retry loop.
  \<^item> \<open>Nodes\<close> (\<open>database.cpp\<close>, \<open>client.cpp\<close>): the list of nodes with what each one misses, from the rows of
    the queries.
  \<^item> \<open>Pull_Cycle\<close> (\<open>client.cpp\<close>): paths with their alternates, reconnecting, the pages of a profile and the
    loops over all nodes.
  \<^item> \<open>Retries\<close>, \<open>Download\<close>, \<open>Pull_Safety\<close>: no code of their own but what follows for the whole pull, from the
    commands on the wire to the entries of the database.
  \<^item> \<open>Fuota_Crc\<close> (\<open>fuota.cpp\<close>): the checksum of a firmware file.
  \<^item> \<open>Mqtt\<close> (\<open>mqtt.cpp\<close>): the check of the requests of a message, their queues, duplicates, cancelling.
  \<^item> \<open>On_Demand\<close> (\<open>client.cpp\<close>, \<open>database.cpp\<close>): the execution of the queued requests, and the exchange of
    one request with its retries, further pages and reconnections.
  \<^item> \<open>On_Demand_Runs\<close>: no code of its own but what follows for the requests as a whole.
  \<^item> \<open>Odm_Readers\<close> (\<open>client.cpp\<close>): the readers that turn the answers to on-demand requests into the columns
    of a profile, into events and into single objects.
  \<^item> \<open>Odm_Rows\<close> (\<open>client.cpp\<close>): \<open>update_odm_db\<close>, which completes a profile, inserts its rows and clears it.
  \<^item> \<open>Odm_Bounds\<close>: no code of its own but that no reception makes a reader leave the receive buffer.
  \<^item> \<open>Db_Rows\<close> (\<open>database.cpp\<close>): the rows that pushed and pulled profiles become in the tables.
  \<^item> \<open>Scalers\<close> (\<open>client.cpp\<close>, \<open>database.cpp\<close>): the scalers of a type of meter: reading their announcement, storing,
    loading and looking them up.
  \<^item> \<open>Fuota_Frames\<close> (\<open>fuota.cpp\<close>): the state of a firmware upgrade, sizes of pages and sub-pages, the frames
    around its commands.
  \<^item> \<open>Fuota_Routes\<close> (\<open>fuota.cpp\<close>, \<open>database.cpp\<close>): the status of an upgrade, the alternate routes.
  \<^item> \<open>Fuota_Transfer\<close> (\<open>fuota.cpp\<close>): the transfer of an image, sub-page by sub-page.
  \<^item> \<open>Fuota_Upload\<close>, \<open>Fuota_Faults\<close>: no code of their own but what a transfer delivers and how it fails.

  \<^bold>\<open>How state and operations correspond to the code.\<close>  A function of the model has the name of the C++
  function.  Where that one changes its object, the model takes the record of the object's fields
  and returns it updated: \<open>client\<close> for \<open>Client\<close> (its base classes included), \<open>push_state\<close> for \<open>PushData\<close>,
  \<open>node_info\<close> for the entry of a node, \<open>mqtt\<close> for the queues of \<open>MQTTClient\<close>, \<open>on_demand\<close> for the fields that only
  on-demand requests use, and \<open>fuota\<close> for \<open>Fuota\<close>, both with the client and its queues inside.  A result None means that
  the source has undefined behaviour there (a read outside an array, a reference to a container that
  was assigned) or leaves by an exception that nothing catches; every error code is an ordinary
  result.  Integers are words of their width where the code computes with them, and \<open>int\<close> where it is
  an index or a return code.  A \<open>std::map\<close> is the association list in the order of its keys.  The world
  outside is part of the state: \<open>inbox\<close> holds the receptions to come, each with the time at which it
  ends, \<open>send_results\<close> what the calls of \<open>send\<close> will return, \<open>wire\<close> what was sent; insertions into the
  database are entries of the log \<open>db_log\<close>; the rows of its queries are arguments.

  \<^bold>\<open>What the lemmas show.\<close>  \<open>Dlms\<close> and \<open>Push\<close>: parsing never leaves the packet, reads back what was
  encoded, keeps buffers valid, and a pushed profile is stored only when it is complete.  \<open>Cycles\<close> and
  \<open>Nodes\<close>: identifiers, once per hour, and the list of nodes with its routes.  \<open>Receive\<close> and \<open>Transmit\<close>:
  only answers of the node asked are accepted, and a command is written completely or the gateway
  is marked.  \<open>Retries\<close>, \<open>Download\<close>, \<open>Pull_Safety\<close>: the number of attempts, the complete download of a
  profile, what is stored for which node and in which order, and that routes are only permuted.
  \<open>Fuota_Crc\<close>: table and bitwise computation agree.  \<open>Mqtt\<close>: what is queued is well formed, in order and
  bounded.  \<open>On_Demand_Runs\<close>: an exchange ends, requests are executed in order, further pages are asked for
  by well-formed commands, a silent gateway is reported.
  \<open>Odm_Readers\<close>, \<open>Odm_Rows\<close>, \<open>Odm_Bounds\<close>: pages of well-formed records are read back, what is read becomes one
  row for each day, and where a request that was given up, a record without a value or a second event goes wrong.
  \<open>Db_Rows\<close>: what is pushed and what is asked for gives the same rows, but for the time of a day.  \<open>Scalers\<close>: the scalers that a meter
  announces are used, which of them a restart keeps, and how those of another manufacturer get among them.
  \<open>Fuota_Upload\<close>: a confirming target gets exactly the whole sectors of the file; \<open>Fuota_Faults\<close>: an answer that the
  target is busy ends the transfer, a route of two hops destroys the command.  The theorems of kind error state where the code does less than it intends.

  \<^bold>\<open>Locales.\<close>  \<open>at_command\<close> is the contract of a framed command and is interpreted on the five commands of
  the pull; \<open>latest_kept\<close> and \<open>latest_queue\<close> are the contract of a store that forgets its oldest entries
  and are interpreted on the four queues and on the remembered ids; \<open>upload_target\<close> is the contract of
  a target towards one sub-page and is interpreted for a confirming and for a silent target; \<open>page_reader\<close>
  is the contract of a reader of pages and is interpreted for the five profiles and for the kinds of events; the others are
  described where they stand.

  \<^bold>\<open>Bounds and termination.\<close>  There is no fuel.  The retry loop ends because every pass takes from
  \<open>pending\<close>, the weight of the receptions to come, or uses up one of \<open>maxRetries\<close>.  An empty \<open>inbox\<close> is
  silence, which the loop counts as a timeout.  The loop of an on-demand exchange has no bound of its
  own in the code; it ends because every pass takes from \<open>pending\<close> or counts up the silences in a row.  The
  transfer of an image ends because every pass takes from \<open>pending\<close> or from what is left of the file.  The page loop of a profile follows the number of
  pages the meter announces, at most 16 in the code; one reception holds at most eleven packets.

  \<^bold>\<open>Not modelled.\<close>  Logging.  The text of SQL queries and the connection to the database, of which only
  rows and insertions appear.  The broker connection (calls of the mosquitto library).  Accepting
  connections and the table of clients (\<open>server.cpp\<close>, the greeting \<open>initCommunication\<close>, which is an
  argument), \<open>main.cpp\<close>, reading the configuration, and the vendored \<open>nlohmann/json.hpp\<close>.  In \<open>On_Demand\<close>
  the function \<open>update_odm_db\<close> is an argument: its model in \<open>Odm_Rows\<close> works on the profiles, which the exchange does not
  touch.  The rounding of \<open>float\<close> arithmetic: a reading is
  a number with the name of its scaler.  The exchange that asks for scalers (\<open>pull_scalar_profile\<close>), and of \<open>fuota.cpp\<close> the silencing of the network and the choice of the next command
  (\<open>cansend_fuota_next_command\<close>, an argument).  Threads: the functions run one
  after the other.
\<close>

end
